theory Spec2Isabelle
  imports Complex_Main "HOL-Library.Word"
begin

section \<open>JavaScript values\<close>

text \<open>
  A JavaScript string is a sequence of UTF-16 code units. String literals of the source are
  written \<open>js ''...''\<close>; a line feed is the code unit 10.
\<close>

type_synonym jschar = "16 word"
type_synonym jsstring = "jschar list"
type_synonym byte = "8 word"

definition js :: "string \<Rightarrow> jsstring" where
  "js s = map of_char s"

definition nl :: jschar where
  "nl = 10"

text \<open>
  The values \<open>JSON.parse\<close> can return. \<open>undefined\<close> (an absent property) is \<open>None\<close> of
  \<open>json option\<close>. An object is the list of its own properties.
\<close>

datatype json =
    JNull
  | JBool bool
  | JNum rat
  | JStr jsstring
  | JArr "json list"
  | JObj "(jsstring \<times> json) list"

text \<open>Truthiness: what \<open>if (v)\<close>, \<open>!v\<close>, \<open>v && ...\<close> and \<open>v || ...\<close> test.\<close>

fun truthy :: "json \<Rightarrow> bool" where
  "truthy JNull = False"
| "truthy (JBool b) = b"
| "truthy (JNum n) = (n \<noteq> 0)"
| "truthy (JStr s) = (s \<noteq> [])"
| "truthy (JArr xs) = True"
| "truthy (JObj kvs) = True"

definition truthy_opt :: "json option \<Rightarrow> bool" where
  "truthy_opt v = (case v of None \<Rightarrow> False | Some j \<Rightarrow> truthy j)"

text \<open>
  \<open>v.name\<close> for a value that is neither \<open>null\<close> nor \<open>undefined\<close> and a property name that is
  neither an index nor \<open>length\<close>: only an object has such a property of its own.
\<close>

fun get_prop :: "jsstring \<Rightarrow> json \<Rightarrow> json option" where
  "get_prop k (JObj kvs) = map_of kvs k"
| "get_prop k v = None"

text \<open>\<open>v?.name\<close>: \<open>undefined\<close> when \<open>v\<close> is \<open>null\<close> or \<open>undefined\<close>.\<close>

definition opt_prop :: "jsstring \<Rightarrow> json option \<Rightarrow> json option" where
  "opt_prop k v = (case v of None \<Rightarrow> None | Some JNull \<Rightarrow> None | Some j \<Rightarrow> get_prop k j)"

text \<open>\<open>v[0]\<close>: the first element of an array, the first code unit of a string, the property
  \<open>"0"\<close> of an object.\<close>

fun get_index0 :: "json \<Rightarrow> json option" where
  "get_index0 (JArr xs) = (case xs of [] \<Rightarrow> None | x # _ \<Rightarrow> Some x)"
| "get_index0 (JStr s) = (case s of [] \<Rightarrow> None | c # _ \<Rightarrow> Some (JStr [c]))"
| "get_index0 (JObj kvs) = map_of kvs (js ''0'')"
| "get_index0 v = None"

definition opt_index0 :: "json option \<Rightarrow> json option" where
  "opt_index0 v = (case v of None \<Rightarrow> None | Some JNull \<Rightarrow> None | Some j \<Rightarrow> get_index0 j)"

text \<open>\<open>typeof v === 'object'\<close> for a truthy \<open>v\<close>: arrays and objects.\<close>

fun typeof_object :: "json \<Rightarrow> bool" where
  "typeof_object (JArr xs) = True"
| "typeof_object (JObj kvs) = True"
| "typeof_object JNull = True"
| "typeof_object v = False"

text \<open>\<open>Array.isArray(v) && v.length > 0\<close>.\<close>

fun nonempty_array :: "json option \<Rightarrow> bool" where
  "nonempty_array (Some (JArr xs)) = (xs \<noteq> [])"
| "nonempty_array v = False"

text \<open>\<open>s.startsWith(p)\<close>, \<open>s.split(sep)\<close> for a separator of one code unit (the result is
  never empty), and the white space that \<open>trim\<close> and \<open>trimEnd\<close> remove.\<close>

definition startsWith :: "jsstring \<Rightarrow> jsstring \<Rightarrow> bool" where
  "startsWith s p = (take (length p) s = p)"

fun js_split :: "jschar \<Rightarrow> jsstring \<Rightarrow> jsstring list" where
  "js_split sep [] = [[]]"
| "js_split sep (c # cs) =
     (if c = sep then [] # js_split sep cs
      else (case js_split sep cs of
              [] \<Rightarrow> [[c]]
            | l # ls \<Rightarrow> (c # l) # ls))"

definition js_whitespace :: "jschar \<Rightarrow> bool" where
  "js_whitespace c =
     ((9 \<le> c \<and> c \<le> 13) \<or> c = 32 \<or> c = 0xA0 \<or> c = 0x1680
      \<or> (0x2000 \<le> c \<and> c \<le> 0x200A) \<or> c = 0x2028 \<or> c = 0x2029
      \<or> c = 0x202F \<or> c = 0x205F \<or> c = 0x3000 \<or> c = 0xFEFF)"

definition trimEnd :: "jsstring \<Rightarrow> jsstring" where
  "trimEnd s = rev (dropWhile js_whitespace (rev s))"

definition trim :: "jsstring \<Rightarrow> jsstring" where
  "trim s = dropWhile js_whitespace (trimEnd s)"

section \<open>Grounding translator: \<open>utils/webSearchGrounding.js\<close>\<close>

definition hasGroundingData :: "json option \<Rightarrow> bool" where
  "hasGroundingData candidate =
     (if \<not> truthy_opt candidate then False
      else
        let meta = opt_prop (js ''groundingMetadata'') candidate;
            chunks = opt_prop (js ''groundingChunks'') candidate;
            supports = opt_prop (js ''groundingSupports'') candidate
        in
          if (case meta of
                None \<Rightarrow> False
              | Some m \<Rightarrow>
                  truthy m \<and> typeof_object m \<and>
                  (if nonempty_array (get_prop (js ''webSearchQueries'') m) then True
                   else if nonempty_array (get_prop (js ''groundingChunks'') m) then True
                   else if nonempty_array (get_prop (js ''groundingSupports'') m) then True
                   else False))
          then True
          else if nonempty_array chunks then True
          else if nonempty_array supports then True
          else False)"

section \<open>Backend client: the streaming interpreter and the error handler\<close>

text \<open>
  Functions of the runtime and of modules that are not part of the sources are parameters:
  \<open>JSON.parse\<close> (\<open>None\<close> when it throws a syntax error), \<open>JSON.stringify(v)\<close>,
  \<open>JSON.stringify(v, null, 2)\<close>, the conversion of a value to a string (in a template
  literal and in \<open>Array.prototype.join\<close>), \<open>Buffer.prototype.toString\<close>, and
  \<open>generateToolCallId\<close> of \<open>utils/idGenerator.js\<close>, whose \<open>n\<close>-th call returns
  \<open>generateToolCallId n\<close>.
\<close>

record runtime =
  JSON_parse :: "jsstring \<Rightarrow> json option"
  JSON_stringify :: "json \<Rightarrow> jsstring"
  JSON_stringify_indent :: "json \<Rightarrow> jsstring"
  String_of :: "json \<Rightarrow> jsstring"
  Buffer_toString :: "byte list \<Rightarrow> jsstring"
  generateToolCallId :: "nat \<Rightarrow> jsstring"

record tool_call =
  tc_id :: json
  tc_type :: jsstring
  tc_name :: "json option"
  tc_arguments :: "jsstring option"

text \<open>What the callback of \<open>generateAssistantResponse\<close> receives:
  \<open>{type: 'thinking', content}\<close>, \<open>{type: 'text', content}\<close> and
  \<open>{type: 'tool_calls', tool_calls}\<close>.\<close>

datatype event =
    EvThinking json
  | EvText json
  | EvToolCalls "tool_call list"

text \<open>
  One streamed response: the fields of \<open>state\<close>, the line buffer, the events passed to the
  callback so far (oldest first) and the number of identifiers drawn from
  \<open>generateToolCallId\<close>.
\<close>

record stream =
  thinkingStarted :: bool
  toolCalls :: "tool_call list"
  buffer :: jsstring
  emitted :: "event list"
  idsDrawn :: nat

definition callback :: "event \<Rightarrow> stream \<Rightarrow> stream" where
  "callback e s = s\<lparr>emitted := emitted s @ [e]\<rparr>"

definition think_open :: json where
  "think_open = JStr (js ''<think>'' @ [nl])"

definition think_close :: json where
  "think_close = JStr ([nl] @ js ''</think>'' @ [nl])"

definition convertToToolCall :: "runtime \<Rightarrow> json \<Rightarrow> nat \<Rightarrow> tool_call \<times> nat" where
  "convertToToolCall rt functionCall n =
     (let rest = \<lparr>tc_id = JNull, tc_type = js ''function'',
                   tc_name = get_prop (js ''name'') functionCall,
                   tc_arguments = map_option (JSON_stringify rt) (get_prop (js ''args'') functionCall)\<rparr>
      in case get_prop (js ''id'') functionCall of
           None \<Rightarrow> (rest\<lparr>tc_id := JStr (generateToolCallId rt n)\<rparr>, Suc n)
         | Some i \<Rightarrow>
             if truthy i then (rest\<lparr>tc_id := i\<rparr>, n)
             else (rest\<lparr>tc_id := JStr (generateToolCallId rt n)\<rparr>, Suc n))"

text \<open>If thinking is open, emit the closing tag and clear the flag.\<close>

definition closeThinking :: "stream \<Rightarrow> stream" where
  "closeThinking s =
     (if thinkingStarted s then (callback (EvThinking think_close) s)\<lparr>thinkingStarted := False\<rparr>
      else s)"

text \<open>
  The body of \<open>for (const part of parts)\<close> for one part. Reading a property of \<open>null\<close>
  throws a \<open>TypeError\<close> before the part has had any effect: \<open>None\<close>.
\<close>

definition emitPart :: "runtime \<Rightarrow> json \<Rightarrow> stream \<Rightarrow> stream option" where
  "emitPart rt part s =
     (if part = JNull then None
      else if get_prop (js ''thought'') part = Some (JBool True) then
        let s1 = (if \<not> thinkingStarted s
                  then (callback (EvThinking think_open) s)\<lparr>thinkingStarted := True\<rparr>
                  else s);
            content = (case get_prop (js ''text'') part of
                         None \<Rightarrow> JStr []
                       | Some t \<Rightarrow> if truthy t then t else JStr [])
        in Some (callback (EvThinking content) s1)
      else
        case get_prop (js ''text'') part of
          Some t \<Rightarrow> Some (callback (EvText t) (closeThinking s))
        | None \<Rightarrow>
            (case get_prop (js ''functionCall'') part of
               None \<Rightarrow> Some s
             | Some fc \<Rightarrow>
                 if truthy fc then
                   (case convertToToolCall rt fc (idsDrawn s) of
                      (tc, n) \<Rightarrow> Some (s\<lparr>toolCalls := toolCalls s @ [tc], idsDrawn := n\<rparr>))
                 else Some s))"

text \<open>The loop over an array of parts. The flag is \<open>False\<close> when a part threw: the effects of
  the parts before it stay.\<close>

fun emitParts :: "runtime \<Rightarrow> json list \<Rightarrow> stream \<Rightarrow> bool \<times> stream" where
  "emitParts rt [] s = (True, s)"
| "emitParts rt (p # ps) s =
     (case emitPart rt p s of
        None \<Rightarrow> (False, s)
      | Some s' \<Rightarrow> emitParts rt ps s')"

text \<open>
  \<open>if (parts) { for (const part of parts) ... }\<close>: an array is iterated; the elements of a
  non-empty string are strings of one code point, which have none of the properties read and
  leave no effect; any other truthy value is not iterable and throws.
\<close>

definition iterateParts :: "runtime \<Rightarrow> json option \<Rightarrow> stream \<Rightarrow> bool \<times> stream" where
  "iterateParts rt parts s =
     (if \<not> truthy_opt parts then (True, s)
      else case parts of
             Some (JArr ps) \<Rightarrow> emitParts rt ps s
           | Some (JStr str) \<Rightarrow> (True, s)
           | _ \<Rightarrow> (False, s))"

text \<open>\<open>data.response?.candidates?.[0]\<close>, for \<open>data\<close> that is not \<open>null\<close>.\<close>

definition firstCandidate :: "json \<Rightarrow> json option" where
  "firstCandidate data =
     opt_index0 (opt_prop (js ''candidates'') (get_prop (js ''response'') data))"

definition data_marker :: jsstring where
  "data_marker = js ''data: ''"

text \<open>
  \<open>parseAndEmitStreamChunk(line, state, callback)\<close>. Whatever is thrown inside \<open>try\<close> is
  swallowed by the empty \<open>catch\<close>: a syntax error of \<open>JSON.parse\<close>, the \<open>TypeError\<close> of
  \<open>data.response\<close> when the payload is \<open>null\<close>, and one thrown in the loop, which also skips
  the flush of the tool calls.
\<close>

definition parseAndEmitStreamChunk :: "runtime \<Rightarrow> jsstring \<Rightarrow> stream \<Rightarrow> stream" where
  "parseAndEmitStreamChunk rt line s =
     (if \<not> startsWith line data_marker then s
      else
        case JSON_parse rt (drop 6 line) of
          None \<Rightarrow> s
        | Some data \<Rightarrow>
            if data = JNull then s
            else
              let parts = opt_prop (js ''parts'') (opt_prop (js ''content'') (firstCandidate data))
              in case iterateParts rt parts s of
                   (False, s1) \<Rightarrow> s1
                 | (True, s1) \<Rightarrow>
                     if truthy_opt (opt_prop (js ''finishReason'') (firstCandidate data))
                        \<and> toolCalls s1 \<noteq> []
                     then (callback (EvToolCalls (toolCalls s1)) (closeThinking s1))
                            \<lparr>toolCalls := []\<rparr>
                     else s1)"

text \<open>\<open>processChunk\<close>: append to the buffer, split at line feeds, keep the last piece as the
  new buffer and interpret the other pieces in order.\<close>

definition processLines :: "runtime \<Rightarrow> jsstring list \<Rightarrow> stream \<Rightarrow> stream" where
  "processLines rt ls s = foldl (\<lambda>s line. parseAndEmitStreamChunk rt line s) s ls"

definition processChunk :: "runtime \<Rightarrow> jsstring \<Rightarrow> stream \<Rightarrow> stream" where
  "processChunk rt chunk s =
     (let lines = js_split nl (buffer s @ chunk)
      in processLines rt (butlast lines) (s\<lparr>buffer := last lines\<rparr>))"

definition initialStream :: stream where
  "initialStream =
     \<lparr>thinkingStarted = False, toolCalls = [], buffer = [], emitted = [], idsDrawn = 0\<rparr>"

definition processChunks :: "runtime \<Rightarrow> jsstring list \<Rightarrow> stream \<Rightarrow> stream" where
  "processChunks rt chunks s = foldl (\<lambda>s chunk. processChunk rt chunk s) s chunks"

subsection \<open>Errors of a request and the account pool\<close>

text \<open>
  The error object that \<open>handleApiError\<close> reads: \<open>error.response\<close> with its \<open>status\<close> and
  \<open>data\<close>, \<open>error.status\<close> and \<open>error.message\<close>. The data of a response is a readable stream
  (\<open>data.readable\<close> is true) that delivers byte chunks and then ends (\<open>None\<close>) or fails
  with an error (\<open>Some\<close> of its message); or it is a value, a parsed body for instance,
  \<open>None\<close> for \<open>undefined\<close>.
\<close>

datatype resp_data =
    DataStream "byte list list" "jsstring option"
  | DataValue "json option"

record http_response =
  r_status :: "nat option"
  r_data :: resp_data

record error_obj =
  e_response :: "http_response option"
  e_status :: "nat option"
  e_message :: jsstring

datatype status = StatusCode nat | StatusUnknown

text \<open>
  The errors thrown to the caller: no token is available; the account was disabled, with
  the error body; the request failed, with status and error body. Two more leave
  \<open>handleApiError\<close> while it reads the body: the error of a body stream that failed, and the
  \<open>TypeError\<close> of \<open>for await\<close> over a value that is not iterable.
\<close>

datatype thrown =
    NoTokenError
  | AccountDisabledError jsstring
  | ApiRequestError status jsstring
  | BodyStreamError jsstring
  | NotAsyncIterableError

record token =
  access_token :: jsstring
  projectId :: jsstring
  sessionId :: jsstring

text \<open>
  Modelled from the spec: \<open>tokenManager.disableCurrentToken\<close> of \<open>auth/token_manager.js\<close>,
  which is not part of the sources. The spec says that the account is marked disabled
  immediately; the pool is the map from an account to its enabled flag.
\<close>

type_synonym pool = "token \<Rightarrow> bool"

definition disableCurrentToken :: "token \<Rightarrow> pool \<Rightarrow> pool" where
  "disableCurrentToken t accounts = accounts(t := False)"

text \<open>\<open>a || b\<close> on status numbers: a number is truthy unless it is zero or absent.\<close>

definition status_or :: "nat option \<Rightarrow> status \<Rightarrow> status" where
  "status_or a b = (case a of None \<Rightarrow> b | Some n \<Rightarrow> if n \<noteq> 0 then StatusCode n else b)"

definition errorStatus :: "error_obj \<Rightarrow> status" where
  "errorStatus e =
     status_or (case e_response e of None \<Rightarrow> None | Some r \<Rightarrow> r_status r)
       (status_or (e_status e) StatusUnknown)"

text \<open>
  The variable \<open>errorBody\<close> when the status is tested, or what was thrown before that.
  When \<open>error.response?.data?.readable\<close> is truthy the data is read with \<open>for await\<close>: a
  stream gives its chunks, or its error when it fails; a parsed object that has a truthy
  property \<open>readable\<close> is not iterable. Otherwise an object (also \<open>null\<close>) is
  stringified, another truthy value is taken as it is, and a falsy one leaves
  \<open>error.message\<close>.
\<close>

definition errorBody :: "runtime \<Rightarrow> error_obj \<Rightarrow> thrown + jsstring" where
  "errorBody rt e =
     (case e_response e of
        None \<Rightarrow> Inr (e_message e)
      | Some r \<Rightarrow>
          (case r_data r of
             DataStream chunks failure \<Rightarrow>
               (case failure of
                  None \<Rightarrow> Inr (Buffer_toString rt (concat chunks))
                | Some message \<Rightarrow> Inl (BodyStreamError message))
           | DataValue None \<Rightarrow> Inr (e_message e)
           | DataValue (Some d) \<Rightarrow>
               if truthy_opt (opt_prop (js ''readable'') (Some d)) then Inl NotAsyncIterableError
               else if typeof_object d then Inr (JSON_stringify_indent rt d)
               else if truthy d then Inr (case d of JStr str \<Rightarrow> str | _ \<Rightarrow> String_of rt d)
               else Inr (e_message e)))"

text \<open>
  \<open>handleApiError\<close> never returns: it always throws. The status is tested only after the
  body was read.
\<close>

definition handleApiError :: "runtime \<Rightarrow> error_obj \<Rightarrow> token \<Rightarrow> pool \<Rightarrow> pool \<times> thrown" where
  "handleApiError rt e t accounts =
     (let status = errorStatus e
      in case errorBody rt e of
           Inl err \<Rightarrow> (accounts, err)
         | Inr body \<Rightarrow>
             if status = StatusCode 403
             then (disableCurrentToken t accounts, AccountDisabledError body)
             else (accounts, ApiRequestError status body))"

subsection \<open>\<open>generateAssistantResponse\<close>\<close>

text \<open>
  What the transport delivers for one request. With axios the request is rejected, or a
  stream of byte chunks arrives, each converted by \<open>chunk.toString()\<close>, and ends or fails.
  With the requester a status arrives first, then string chunks, then the end or a failure.
\<close>

datatype stream_end = StreamEnded | StreamFailed error_obj

datatype transport_outcome =
    AxiosRejected error_obj
  | AxiosStream "byte list list" stream_end
  | RequesterStream "nat option" "jsstring list" stream_end

text \<open>
  The result of one call: the pool, the error thrown (if any) and the events passed to the
  callback. \<open>tok\<close> is what \<open>tokenManager.getToken()\<close> returned, \<open>send\<close> the transport.
  Every \<open>catch\<close> ends in \<open>handleApiError\<close>, which throws: there is no loop and no second
  request.
\<close>

definition failWith ::
  "runtime \<Rightarrow> error_obj \<Rightarrow> token \<Rightarrow> pool \<Rightarrow> event list \<Rightarrow> pool \<times> thrown option \<times> event list" where
  "failWith rt e t accounts evs =
     (case handleApiError rt e t accounts of (accounts', err) \<Rightarrow> (accounts', Some err, evs))"

definition generateAssistantResponse ::
  "runtime \<Rightarrow> (token \<Rightarrow> 'req \<Rightarrow> transport_outcome) \<Rightarrow> token option \<Rightarrow> 'req \<Rightarrow> pool
     \<Rightarrow> pool \<times> thrown option \<times> event list" where
  "generateAssistantResponse rt send tok requestBody accounts =
     (case tok of
        None \<Rightarrow> (accounts, Some NoTokenError, [])
      | Some t \<Rightarrow>
          (case send t requestBody of
             AxiosRejected e \<Rightarrow> failWith rt e t accounts []
           | AxiosStream chunks fin \<Rightarrow>
               (let s = processChunks rt (map (Buffer_toString rt) chunks) initialStream
                in case fin of
                     StreamEnded \<Rightarrow> (accounts, None, emitted s)
                   | StreamFailed e \<Rightarrow> failWith rt e t accounts (emitted s))
           | RequesterStream statusCode chunks fin \<Rightarrow>
               if statusCode = Some 200 then
                 (let s = processChunks rt chunks initialStream
                  in case fin of
                       StreamEnded \<Rightarrow> (accounts, None, emitted s)
                     | StreamFailed e \<Rightarrow> failWith rt e t accounts (emitted s))
               else
                 (case fin of
                    StreamEnded \<Rightarrow>
                      failWith rt \<lparr>e_response = None, e_status = statusCode,
                                   e_message = concat chunks\<rparr> t accounts []
                  | StreamFailed e \<Rightarrow> failWith rt e t accounts [])))"

subsection \<open>The streaming branch of \<open>POST /v1/chat/completions\<close>\<close>

text \<open>
  The frames written to the client: a chunk whose delta is \<open>{content}\<close> or \<open>{tool_calls}\<close>,
  the closing chunk with its \<open>finish_reason\<close>, and \<open>data: [DONE]\<close>. When the call throws
  after a frame was written (\<open>res.headersSent\<close>), nothing more is written.
\<close>

datatype frame =
    DeltaContent json
  | DeltaToolCalls "tool_call list"
  | DeltaError thrown
  | Finish jsstring
  | Done

fun deltaOf :: "event \<Rightarrow> frame" where
  "deltaOf (EvToolCalls tcs) = DeltaToolCalls tcs"
| "deltaOf (EvThinking c) = DeltaContent c"
| "deltaOf (EvText c) = DeltaContent c"

fun isToolCalls :: "event \<Rightarrow> bool" where
  "isToolCalls (EvToolCalls tcs) = True"
| "isToolCalls e = False"

definition endStream :: "jsstring \<Rightarrow> frame list" where
  "endStream finish_reason = [Finish finish_reason, Done]"

definition chatCompletionsStream :: "thrown option \<Rightarrow> event list \<Rightarrow> frame list" where
  "chatCompletionsStream err evs =
     (let hasToolCall = list_ex isToolCalls evs;
          written = map deltaOf evs
      in case err of
           None \<Rightarrow> written @ endStream (if hasToolCall then js ''tool_calls'' else js ''stop'')
         | Some e \<Rightarrow>
             if written \<noteq> [] then written
             else [DeltaError e] @ endStream (js ''stop''))"

section \<open>Request builder: \<open>utils/converters/common.js\<close> and \<open>utils/converters/claude.js\<close>\<close>

subsection \<open>Backend turns\<close>

text \<open>
  The parts the converters build: \<open>{text}\<close>; \<open>{text, thought: true, thoughtSignature?}\<close>;
  \<open>{functionCall: {id, name, args}, thoughtSignature?}\<close>;
  \<open>{functionResponse: {id, name, response: {output}}}\<close>; \<open>{inlineData: {mimeType, data}}\<close>.
  A signature that is absent is \<open>None\<close>.
\<close>

datatype part =
    TextPart jsstring
  | ThoughtPart jsstring "jsstring option"
  | FunctionCallPart jsstring jsstring json "jsstring option"
  | FunctionResponsePart jsstring jsstring jsstring
  | InlineDataPart jsstring jsstring

datatype role = User | Model

record turn =
  role :: role
  parts :: "part list"

subsection \<open>Client messages\<close>

text \<open>
  A Claude message has a role and a content that is a string, an array of items, or
  something else. An item is read by its \<open>type\<close>: \<open>text\<close> (with \<open>text\<close>), \<open>thinking\<close> (with
  \<open>thinking\<close> and \<open>signature\<close>), \<open>tool_use\<close> (with \<open>id\<close>, \<open>name\<close>, \<open>input\<close> and \<open>signature\<close>),
  \<open>tool_result\<close> (with \<open>tool_use_id\<close> and \<open>content\<close>), \<open>image\<close> (with \<open>source\<close>), or any other
  type. A field that may be missing is an option.
\<close>

datatype result_content =
    ResultString jsstring
  | ResultArray "(jsstring \<times> jsstring option) list"
  | ResultOther

record image_source =
  src_type :: jsstring
  media_type :: "jsstring option"
  src_data :: "jsstring option"

datatype claude_item =
    TextItem "jsstring option"
  | ThinkingItem "jsstring option" "jsstring option"
  | ToolUseItem jsstring jsstring "json option" "jsstring option"
  | ToolResultItem jsstring result_content
  | ImageItem "image_source option"
  | OtherItem

datatype claude_content =
    ContentString jsstring
  | ContentArray "claude_item list"
  | ContentOther

record claude_message =
  m_role :: jsstring
  m_content :: claude_content

subsection \<open>Signatures\<close>

text \<open>A signature is truthy when it is a non-empty string; \<open>a || b\<close> keeps \<open>a\<close> when it is
  truthy.\<close>

definition sig_truthy :: "jsstring option \<Rightarrow> bool" where
  "sig_truthy v = (case v of None \<Rightarrow> False | Some str \<Rightarrow> str \<noteq> [])"

definition sig_or :: "jsstring option \<Rightarrow> jsstring option \<Rightarrow> jsstring option" where
  "sig_or a b = (if sig_truthy a then a else b)"

definition str_or :: "jsstring option \<Rightarrow> jsstring \<Rightarrow> jsstring" where
  "str_or a b = (case a of None \<Rightarrow> b | Some str \<Rightarrow> if str \<noteq> [] then str else b)"

text \<open>The generation configuration is an object of which only \<open>candidateCount\<close> is written
  here; its other fields are the record's extension.\<close>

record generationConfig =
  candidateCount :: "nat option"

record cache_entry =
  ce_signature :: "jsstring option"
  ce_content :: "jsstring option"

record signature_context =
  reasoningSignature :: "jsstring option"
  reasoningContent :: jsstring
  toolSignature :: "jsstring option"
  toolContent :: jsstring

text \<open>
  What the converters take from modules that are not part of the sources
  (\<open>thoughtSignatureCache.js\<close>, \<open>utils.js\<close>, \<open>toolConverter.js\<close>, \<open>idGenerator.js\<close>) and from the
  configuration: \<open>config.useFallbackSignature\<close>, \<open>config.officialSystemPrompt\<close>,
  \<open>config.systemInstruction\<close> (here \<open>proxySystemPrompt\<close>), \<open>config.useContextSystemPrompt\<close>,
  \<open>config.mergeSystemPrompt\<close> and \<open>config.officialPromptPosition\<close>. \<open>getSignature\<close> returns
  \<open>None\<close> for \<open>null\<close>.
\<close>

record ('tool, 'params, 'g) converter_env =
  isImageModel :: "jsstring \<Rightarrow> bool"
  shouldCacheSignature :: "bool \<Rightarrow> bool \<Rightarrow> bool"
  getSignature :: "jsstring \<Rightarrow> jsstring \<Rightarrow> bool \<Rightarrow> cache_entry option"
  useFallbackSignature :: bool
  getThoughtSignatureForModel :: "jsstring \<Rightarrow> jsstring option"
  getToolSignatureForModel :: "jsstring \<Rightarrow> jsstring option"
  sanitizeToolName :: "jsstring \<Rightarrow> jsstring"
  isEnableThinking :: "jsstring \<Rightarrow> bool"
  modelMapping :: "jsstring \<Rightarrow> jsstring"
  convertClaudeToolsToAntigravity :: "json option \<Rightarrow> jsstring \<Rightarrow> jsstring \<Rightarrow> 'tool list"
  generateGenerationConfig :: "'params \<Rightarrow> bool \<Rightarrow> jsstring \<Rightarrow> 'g generationConfig_scheme"
  generateRequestId :: jsstring
  officialSystemPrompt :: jsstring
  proxySystemPrompt :: jsstring
  useContextSystemPrompt :: bool
  mergeSystemPrompt :: bool
  officialPromptPosition :: jsstring

definition getSignatureContext ::
  "('tool, 'params, 'g) converter_env \<Rightarrow> jsstring \<Rightarrow> jsstring \<Rightarrow> bool
     \<Rightarrow> signature_context" where
  "getSignatureContext env session actualModelName hasTools =
     (let isImage = isImageModel env actualModelName;
          shouldGetCached = shouldCacheSignature env hasTools isImage;
          cachedEntry = (if shouldGetCached then getSignature env session actualModelName hasTools
                         else None)
      in case cachedEntry of
           Some entry \<Rightarrow>
             \<lparr>reasoningSignature = ce_signature entry,
              reasoningContent = str_or (ce_content entry) (js '' ''),
              toolSignature = ce_signature entry,
              toolContent = str_or (ce_content entry) (js '' '')\<rparr>
         | None \<Rightarrow>
             if useFallbackSignature env then
               \<lparr>reasoningSignature = getThoughtSignatureForModel env actualModelName,
                reasoningContent = js '' '',
                toolSignature = (if hasTools then getToolSignatureForModel env actualModelName
                                 else None),
                toolContent = js '' ''\<rparr>
             else
               \<lparr>reasoningSignature = None, reasoningContent = js '' '',
                toolSignature = None, toolContent = js '' ''\<rparr>)"

subsection \<open>\<open>common.js\<close>\<close>

record extracted =
  ex_text :: jsstring
  ex_images :: "part list"

definition pushUserMessage :: "extracted \<Rightarrow> turn list \<Rightarrow> turn list" where
  "pushUserMessage ex antigravityMessages =
     antigravityMessages @
       [\<lparr>role = User,
         parts = TextPart (if ex_text ex \<noteq> [] then ex_text ex else js '' '') # ex_images ex\<rparr>]"

text \<open>The inner loop of \<open>findFunctionNameById\<close>: the name of the first \<open>functionCall\<close> part
  with the given id.\<close>

fun findInParts :: "jsstring \<Rightarrow> part list \<Rightarrow> jsstring option" where
  "findInParts toolCallId [] = None"
| "findInParts toolCallId (FunctionCallPart i n a sg # ps) =
     (if i = toolCallId then Some n else findInParts toolCallId ps)"
| "findInParts toolCallId (p # ps) = findInParts toolCallId ps"

text \<open>The outer loop runs from the last turn to the first: \<open>findFromLast\<close> takes the turns
  in that order.\<close>

fun findFromLast :: "jsstring \<Rightarrow> turn list \<Rightarrow> jsstring" where
  "findFromLast toolCallId [] = []"
| "findFromLast toolCallId (t # ts) =
     (if role t = Model then
        (case findInParts toolCallId (parts t) of
           Some n \<Rightarrow> n
         | None \<Rightarrow> findFromLast toolCallId ts)
      else findFromLast toolCallId ts)"

definition findFunctionNameById :: "jsstring \<Rightarrow> turn list \<Rightarrow> jsstring" where
  "findFunctionNameById toolCallId antigravityMessages =
     findFromLast toolCallId (rev antigravityMessages)"

fun isFunctionResponse :: "part \<Rightarrow> bool" where
  "isFunctionResponse (FunctionResponsePart i n out) = True"
| "isFunctionResponse p = False"

definition pushFunctionResponse ::
  "jsstring \<Rightarrow> jsstring \<Rightarrow> jsstring \<Rightarrow> turn list \<Rightarrow> turn list" where
  "pushFunctionResponse toolCallId functionName resultContent antigravityMessages =
     (let functionResponse = FunctionResponsePart toolCallId functionName resultContent
      in case rev antigravityMessages of
           [] \<Rightarrow> [\<lparr>role = User, parts = [functionResponse]\<rparr>]
         | lastMessage # before \<Rightarrow>
             if role lastMessage = User \<and> list_ex isFunctionResponse (parts lastMessage)
             then rev before @ [lastMessage\<lparr>parts := parts lastMessage @ [functionResponse]\<rparr>]
             else antigravityMessages @ [\<lparr>role = User, parts = [functionResponse]\<rparr>])"

definition createThoughtPart :: "jsstring \<Rightarrow> jsstring option \<Rightarrow> part" where
  "createThoughtPart txt signature =
     ThoughtPart (if txt \<noteq> [] then txt else js '' '')
       (if sig_truthy signature then signature else None)"

text \<open>\<open>createFunctionCallPart\<close> is called with \<open>JSON.stringify(item.input || {})\<close> and parses
  it back: \<open>args\<close> below is the value that the round trip returns.\<close>

definition createFunctionCallPart ::
  "jsstring \<Rightarrow> jsstring \<Rightarrow> json \<Rightarrow> jsstring option \<Rightarrow> part" where
  "createFunctionCallPart i n args signature =
     FunctionCallPart i n args (if sig_truthy signature then signature else None)"

text \<open>\<open>processToolName\<close> also records the original name in the tool-name cache when the
  name changed; the cache module is not part of the sources and nothing below reads it.\<close>

definition processToolName ::
  "('tool, 'params, 'g) converter_env \<Rightarrow> jsstring \<Rightarrow> jsstring" where
  "processToolName env originalName = sanitizeToolName env originalName"

definition pushModelMessage :: "part list \<Rightarrow> part list \<Rightarrow> bool \<Rightarrow> turn list \<Rightarrow> turn list" where
  "pushModelMessage ps toolCallParts hasContent antigravityMessages =
     (let hasToolCalls = (toolCallParts \<noteq> [])
      in case rev antigravityMessages of
           [] \<Rightarrow> [\<lparr>role = Model, parts = ps @ toolCallParts\<rparr>]
         | lastMessage # before \<Rightarrow>
             if role lastMessage = Model \<and> hasToolCalls \<and> \<not> hasContent
             then rev before @ [lastMessage\<lparr>parts := parts lastMessage @ toolCallParts\<rparr>]
             else antigravityMessages @ [\<lparr>role = Model, parts = ps @ toolCallParts\<rparr>])"

text \<open>
  The system prompt. A part is a JSON value; \<open>cleanSystemPart\<close> returns \<open>JNull\<close> for \<open>null\<close>.
  A falsy part and a part that is not an object are returned as they are; of an object only
  \<open>text\<close>, \<open>inlineData\<close> and \<open>fileData\<close> are kept, in this order.
\<close>

datatype js_error = TypeError

record system_instruction =
  si_role :: jsstring
  si_parts :: "json list"

definition keptField :: "jsstring \<Rightarrow> json \<Rightarrow> (jsstring \<times> json) list" where
  "keptField k part = (case get_prop k part of None \<Rightarrow> [] | Some v \<Rightarrow> [(k, v)])"

definition cleanSystemPart :: "json \<Rightarrow> json" where
  "cleanSystemPart part =
     (if \<not> truthy part \<or> \<not> typeof_object part then part
      else
        let cleanedPart = keptField (js ''text'') part @ keptField (js ''inlineData'') part
                            @ keptField (js ''fileData'') part
        in if cleanedPart \<noteq> [] then JObj cleanedPart else JNull)"

definition cleanParts :: "json list \<Rightarrow> json list" where
  "cleanParts ps = filter (\<lambda>p. p \<noteq> JNull) (map cleanSystemPart ps)"

definition textPart :: "jsstring \<Rightarrow> json" where
  "textPart str = JObj [(js ''text'', JStr str)]"

text \<open>
  The parts of the user's prompt: a string that is not blank gives one text part; an array
  is cleaned; of an object that is not an array the truthy property \<open>parts\<close> is cleaned, and
  calling \<open>map\<close> on it throws when it is not an array. Anything else gives no part.
\<close>

definition userPromptParts :: "json option \<Rightarrow> js_error + json list" where
  "userPromptParts userSystemPrompt =
     (case userSystemPrompt of
        None \<Rightarrow> Inr []
      | Some u \<Rightarrow>
          if \<not> truthy u then Inr []
          else
            case u of
              JStr str \<Rightarrow> if trim str \<noteq> [] then Inr [textPart (trim str)] else Inr []
            | JArr ps \<Rightarrow> Inr (cleanParts ps)
            | JObj kvs \<Rightarrow>
                (case get_prop (js ''parts'') u of
                   None \<Rightarrow> Inr []
                 | Some v \<Rightarrow>
                     if \<not> truthy v then Inr []
                     else (case v of JArr ps \<Rightarrow> Inr (cleanParts ps) | _ \<Rightarrow> Inl TypeError))
            | _ \<Rightarrow> Inr [])"

definition buildSystemPromptParts ::
  "('tool, 'params, 'g) converter_env \<Rightarrow> json option \<Rightarrow> js_error + json list" where
  "buildSystemPromptParts env userSystemPrompt =
     (case userPromptParts userSystemPrompt of
        Inl e \<Rightarrow> Inl e
      | Inr userParts \<Rightarrow>
          let officialPrompt = officialSystemPrompt env;
              proxyPrompt = proxySystemPrompt env;
              official = (if trim officialPrompt \<noteq> [] then [textPart (trim officialPrompt)] else []);
              proxyParts =
                (if trim proxyPrompt \<noteq> [] then [textPart (trim proxyPrompt)] else [])
                @ (if useContextSystemPrompt env \<and> userParts \<noteq> [] then userParts else [])
          in if officialPromptPosition env = js ''before''
             then Inr (official @ proxyParts)
             else Inr (proxyParts @ official))"

text \<open>\<open>xs.join(sep)\<close> on strings.\<close>

fun js_join :: "jsstring \<Rightarrow> jsstring list \<Rightarrow> jsstring" where
  "js_join sep [] = []"
| "js_join sep [x] = x"
| "js_join sep (x # y # ys) = x @ sep @ js_join sep (y # ys)"

text \<open>
  \<open>p.text || ''\<close> for a part of the list, and the merge of the texts. A text that is truthy
  and not a string has no method \<open>trim\<close>: the filter throws.
\<close>

definition partText :: "json \<Rightarrow> json" where
  "partText p = (case get_prop (js ''text'') p of
                   None \<Rightarrow> JStr []
                 | Some t \<Rightarrow> if truthy t then t else JStr [])"

fun isString :: "json \<Rightarrow> bool" where
  "isString (JStr str) = True"
| "isString v = False"

fun stringOf :: "json \<Rightarrow> jsstring" where
  "stringOf (JStr str) = str"
| "stringOf v = []"

definition mergedText :: "json list \<Rightarrow> js_error + jsstring" where
  "mergedText ps =
     (let texts = map partText ps
      in if list_all isString texts
         then Inr (js_join [nl, nl] (filter (\<lambda>t. trim t \<noteq> []) (map stringOf texts)))
         else Inl TypeError)"

definition buildSystemInstruction ::
  "('tool, 'params, 'g) converter_env \<Rightarrow> json option \<Rightarrow> js_error + system_instruction option" where
  "buildSystemInstruction env userSystemPrompt =
     (case buildSystemPromptParts env userSystemPrompt of
        Inl e \<Rightarrow> Inl e
      | Inr ps \<Rightarrow>
          if ps = [] then Inr None
          else if mergeSystemPrompt env then
            (case mergedText ps of
               Inl e \<Rightarrow> Inl e
             | Inr merged \<Rightarrow> Inr (Some \<lparr>si_role = js ''user'', si_parts = [textPart merged]\<rparr>))
          else Inr (Some \<lparr>si_role = js ''user'', si_parts = ps\<rparr>))"

text \<open>\<open>hasWebSearchTool\<close>: \<open>Array.isArray(tools) && tools.some(tool => tool?.name === 'web_search')\<close>.\<close>

definition hasWebSearchTool :: "json option \<Rightarrow> bool" where
  "hasWebSearchTool tools =
     (case tools of
        Some (JArr ts) \<Rightarrow>
          list_ex (\<lambda>tool. opt_prop (js ''name'') (Some tool) = Some (JStr (js ''web_search''))) ts
      | _ \<Rightarrow> False)"

text \<open>
  The request body; the fields of its \<open>request\<close> object are \<open>contents\<close>, \<open>generationConfig\<close>,
  \<open>request_sessionId\<close>, \<open>request_tools\<close>, \<open>toolConfig\<close> (the mode of its
  \<open>functionCallingConfig\<close>) and \<open>systemInstruction\<close>; an absent field is \<open>None\<close>. A tool of the
  request is a converted client tool or the descriptor
  \<open>{googleSearch: {enhancedContent: {imageSearch: {maxResultCount}}}}\<close>.
\<close>

datatype 'tool backend_tool =
    ConvertedTool 'tool
  | GoogleSearch nat

record ('tool, 'g) backend_request =
  project :: jsstring
  requestId :: jsstring
  contents :: "turn list"
  generationConfig :: "'g generationConfig_scheme option"
  request_sessionId :: jsstring
  request_tools :: "'tool backend_tool list option"
  toolConfig :: "jsstring option"
  systemInstruction :: "system_instruction option"
  model :: jsstring
  userAgent :: jsstring
  requestType :: jsstring

definition buildRequestBody ::
  "('tool, 'params, 'g) converter_env \<Rightarrow> turn list \<Rightarrow> 'tool list
     \<Rightarrow> 'g generationConfig_scheme option \<Rightarrow> jsstring \<Rightarrow> json option \<Rightarrow> bool \<Rightarrow> token \<Rightarrow> jsstring
     \<Rightarrow> js_error + ('tool, 'g) backend_request" where
  "buildRequestBody env cs tools genConfig session sysPrompt isWebSearch tok actualModelName =
     (let hasTools = (tools \<noteq> []);
          finalModel = (if isWebSearch then js ''gemini-2.5-flash'' else actualModelName);
          reqType = (if isWebSearch then js ''web_search'' else js ''agent'');
          requestBody =
            \<lparr>project = projectId tok,
             requestId = generateRequestId env,
             contents = cs,
             generationConfig = genConfig,
             request_sessionId = session,
             request_tools = None,
             toolConfig = None,
             systemInstruction = None,
             model = finalModel,
             userAgent = js ''antigravity'',
             requestType = reqType\<rparr>;
          withTools =
            (if isWebSearch then
               requestBody
                 \<lparr>request_tools := Some [GoogleSearch 5],
                  generationConfig :=
                    (case generationConfig requestBody of
                       None \<Rightarrow> None
                     | Some gc \<Rightarrow> Some (gc\<lparr>candidateCount := Some 1\<rparr>))\<rparr>
             else if hasTools then
               requestBody
                 \<lparr>request_tools := Some (map ConvertedTool tools),
                  toolConfig := Some (js ''VALIDATED'')\<rparr>
             else requestBody)
      in case buildSystemInstruction env sysPrompt of
           Inl e \<Rightarrow> Inl e
         | Inr None \<Rightarrow> Inr withTools
         | Inr (Some systemInstructionObj) \<Rightarrow>
             Inr (withTools\<lparr>systemInstruction := Some systemInstructionObj\<rparr>))"

subsection \<open>\<open>claude.js\<close>\<close>

fun extractItem :: "claude_item \<Rightarrow> extracted \<Rightarrow> extracted" where
  "extractItem (TextItem t) result = result\<lparr>ex_text := ex_text result @ str_or t []\<rparr>"
| "extractItem (ImageItem source) result =
     (case source of
        None \<Rightarrow> result
      | Some src \<Rightarrow>
          if src_type src = js ''base64'' \<and> sig_truthy (src_data src)
          then result\<lparr>ex_images := ex_images result @
                 [InlineDataPart (str_or (media_type src) (js ''image/png''))
                    (str_or (src_data src) [])]\<rparr>
          else result)"
| "extractItem item result = result"

definition extractImagesFromClaudeContent :: "claude_content \<Rightarrow> extracted" where
  "extractImagesFromClaudeContent content =
     (case content of
        ContentString str \<Rightarrow> \<lparr>ex_text = str, ex_images = []\<rparr>
      | ContentArray items \<Rightarrow>
          foldl (\<lambda>result item. extractItem item result) \<lparr>ex_text = [], ex_images = []\<rparr> items
      | ContentOther \<Rightarrow> \<lparr>ex_text = [], ex_images = []\<rparr>)"

text \<open>The variables that the loop of \<open>handleClaudeAssistantMessage\<close> fills.\<close>

record scan =
  textContent :: jsstring
  thinkingContent :: jsstring
  toolCallParts :: "part list"
  messageSignature :: "jsstring option"

fun scanItem ::
  "('tool, 'params, 'g) converter_env \<Rightarrow> bool \<Rightarrow> signature_context \<Rightarrow> claude_item
     \<Rightarrow> scan \<Rightarrow> scan" where
  "scanItem env enableThinking ctx (TextItem t) a =
     a\<lparr>textContent := textContent a @ str_or t []\<rparr>"
| "scanItem env enableThinking ctx (ThinkingItem thinking signature) a =
     a\<lparr>thinkingContent := thinkingContent a @ str_or thinking [],
       messageSignature :=
         (if \<not> sig_truthy (messageSignature a) \<and> sig_truthy signature then signature
          else messageSignature a)\<rparr>"
| "scanItem env enableThinking ctx (ToolUseItem i n input signature) a =
     (let safeName = processToolName env n;
          sg = (if enableThinking
                then sig_or (sig_or signature (toolSignature ctx)) (reasoningSignature ctx)
                else None);
          args = (case input of None \<Rightarrow> JObj [] | Some v \<Rightarrow> if truthy v then v else JObj [])
      in a\<lparr>toolCallParts := toolCallParts a @ [createFunctionCallPart i safeName args sg]\<rparr>)"
| "scanItem env enableThinking ctx item a = a"

definition scanContent ::
  "('tool, 'params, 'g) converter_env \<Rightarrow> bool \<Rightarrow> signature_context
     \<Rightarrow> claude_content \<Rightarrow> scan" where
  "scanContent env enableThinking ctx content =
     (let start = \<lparr>textContent = [], thinkingContent = [], toolCallParts = [],
                    messageSignature = None\<rparr>
      in case content of
           ContentString str \<Rightarrow> start\<lparr>textContent := str\<rparr>
         | ContentArray items \<Rightarrow> foldl (\<lambda>a item. scanItem env enableThinking ctx item a) start items
         | ContentOther \<Rightarrow> start)"

text \<open>\<open>delete part.thoughtSignature\<close>.\<close>

fun deleteThoughtSignature :: "part \<Rightarrow> part" where
  "deleteThoughtSignature (ThoughtPart t sg) = ThoughtPart t None"
| "deleteThoughtSignature (FunctionCallPart i n a sg) = FunctionCallPart i n a None"
| "deleteThoughtSignature p = p"

text \<open>The signature of the thought part: \<open>messageSignature || reasoningSignature ||
  toolSignature\<close>.\<close>

definition thoughtSignature :: "signature_context \<Rightarrow> scan \<Rightarrow> jsstring option" where
  "thoughtSignature ctx a =
     sig_or (sig_or (messageSignature a) (reasoningSignature ctx)) (toolSignature ctx)"

definition hasContent :: "scan \<Rightarrow> bool" where
  "hasContent a = (textContent a \<noteq> [] \<and> trim (textContent a) \<noteq> [])"

text \<open>The array \<open>parts\<close> that \<open>handleClaudeAssistantMessage\<close> hands to \<open>pushModelMessage\<close>.\<close>

definition assistantParts :: "bool \<Rightarrow> signature_context \<Rightarrow> scan \<Rightarrow> part list" where
  "assistantParts enableThinking ctx a =
     (let thought =
            (if enableThinking then
               (let signature = thoughtSignature ctx a
                in if sig_truthy signature then
                     (let reasoningText =
                            (if thinkingContent a \<noteq> [] then thinkingContent a
                             else if signature = reasoningSignature ctx
                               then (if reasoningContent ctx \<noteq> [] then reasoningContent ctx
                                     else js '' '')
                             else if signature = toolSignature ctx
                               then (if toolContent ctx \<noteq> [] then toolContent ctx else js '' '')
                             else js '' '')
                      in [createThoughtPart reasoningText signature])
                   else [])
             else []);
          ps = thought @ (if hasContent a then [TextPart (trimEnd (textContent a))] else [])
      in if \<not> enableThinking
         then (case ps of [] \<Rightarrow> [] | p # rest \<Rightarrow> deleteThoughtSignature p # rest)
         else ps)"

definition handleClaudeAssistantMessage ::
  "('tool, 'params, 'g) converter_env \<Rightarrow> claude_message \<Rightarrow> turn list \<Rightarrow> bool
     \<Rightarrow> jsstring \<Rightarrow> jsstring \<Rightarrow> bool \<Rightarrow> turn list" where
  "handleClaudeAssistantMessage env message antigravityMessages enableThinking actualModelName
       session hasTools =
     (let ctx = getSignatureContext env session actualModelName hasTools;
          a = scanContent env enableThinking ctx (m_content message)
      in pushModelMessage (assistantParts enableThinking ctx a) (toolCallParts a) (hasContent a)
           antigravityMessages)"

definition resultText :: "result_content \<Rightarrow> jsstring" where
  "resultText c =
     (case c of
        ResultString str \<Rightarrow> str
      | ResultArray xs \<Rightarrow>
          concat (map (\<lambda>(ty, t). str_or t []) (filter (\<lambda>(ty, t). ty = js ''text'') xs))
      | ResultOther \<Rightarrow> [])"

fun toolResultItem :: "claude_item \<Rightarrow> turn list \<Rightarrow> turn list" where
  "toolResultItem (ToolResultItem toolUseId c) antigravityMessages =
     pushFunctionResponse toolUseId (findFunctionNameById toolUseId antigravityMessages)
       (resultText c) antigravityMessages"
| "toolResultItem item antigravityMessages = antigravityMessages"

definition handleClaudeToolResult :: "claude_message \<Rightarrow> turn list \<Rightarrow> turn list" where
  "handleClaudeToolResult message antigravityMessages =
     (case m_content message of
        ContentArray items \<Rightarrow> foldl (\<lambda>ms item. toolResultItem item ms) antigravityMessages items
      | _ \<Rightarrow> antigravityMessages)"

fun isToolResult :: "claude_item \<Rightarrow> bool" where
  "isToolResult (ToolResultItem i c) = True"
| "isToolResult item = False"

definition convertMessage ::
  "('tool, 'params, 'g) converter_env \<Rightarrow> bool \<Rightarrow> jsstring \<Rightarrow> jsstring \<Rightarrow> bool
     \<Rightarrow> turn list \<Rightarrow> claude_message \<Rightarrow> turn list" where
  "convertMessage env enableThinking actualModelName session hasTools antigravityMessages message =
     (if m_role message = js ''user'' then
        (case m_content message of
           ContentArray items \<Rightarrow>
             if list_ex isToolResult items
             then handleClaudeToolResult message antigravityMessages
             else pushUserMessage (extractImagesFromClaudeContent (m_content message))
                    antigravityMessages
         | _ \<Rightarrow> pushUserMessage (extractImagesFromClaudeContent (m_content message))
                  antigravityMessages)
      else if m_role message = js ''assistant'' then
        handleClaudeAssistantMessage env message antigravityMessages enableThinking
          actualModelName session hasTools
      else antigravityMessages)"

definition claudeMessageToAntigravity ::
  "('tool, 'params, 'g) converter_env \<Rightarrow> claude_message list \<Rightarrow> bool \<Rightarrow> jsstring
     \<Rightarrow> jsstring \<Rightarrow> bool \<Rightarrow> turn list" where
  "claudeMessageToAntigravity env claudeMessages enableThinking actualModelName session hasTools =
     foldl (convertMessage env enableThinking actualModelName session hasTools) [] claudeMessages"

definition generateClaudeRequestBody ::
  "('tool, 'params, 'g) converter_env \<Rightarrow> claude_message list \<Rightarrow> jsstring \<Rightarrow> 'params
     \<Rightarrow> json option \<Rightarrow> json option \<Rightarrow> token \<Rightarrow> js_error + ('tool, 'g) backend_request" where
  "generateClaudeRequestBody env claudeMessages modelName parameters claudeTools systemPrompt tok =
     (let enableThinking = isEnableThinking env modelName;
          actualModelName = modelMapping env modelName;
          isWebSearch = hasWebSearchTool claudeTools;
          tools = (if isWebSearch then []
                   else convertClaudeToolsToAntigravity env claudeTools (sessionId tok)
                          actualModelName);
          hasTools = (tools \<noteq> [])
      in buildRequestBody env
           (claudeMessageToAntigravity env claudeMessages enableThinking actualModelName
              (sessionId tok) hasTools)
           tools
           (Some (generateGenerationConfig env parameters enableThinking actualModelName))
           (sessionId tok) systemPrompt isWebSearch tok actualModelName)"

subsection \<open>Tool results as the client sent them\<close>

text \<open>
  The items above are typed: an item is never \<open>null\<close>, and an entry of an array-form
  result is an object. The client sends JSON, and \<open>handleClaudeToolResult\<close> reads it
  without a check: \<open>item.type\<close> throws a \<open>TypeError\<close> for an item that is \<open>null\<close>, and so
  does \<open>c.type\<close> for an entry \<open>null\<close> of an array-form result. Here an item is \<open>null\<close>, or
  a \<open>tool_result\<close> item with its \<open>tool_use_id\<close> (a string) and its \<open>content\<close> as it was
  sent (\<open>None\<close> when it is absent), or any other value.
\<close>

datatype raw_item =
    RawNull
  | RawToolResult jsstring "json option"
  | RawOther

text \<open>What \<open>join('')\<close> appends for an element: nothing for \<open>undefined\<close> and \<open>null\<close>, a
  string itself, and any other value converted to a string.\<close>

definition joinText :: "runtime \<Rightarrow> json option \<Rightarrow> jsstring" where
  "joinText rt v =
     (case v of
        None \<Rightarrow> []
      | Some JNull \<Rightarrow> []
      | Some (JStr str) \<Rightarrow> str
      | Some w \<Rightarrow> String_of rt w)"

text \<open>\<open>c.type === 'text'\<close>, for an entry that is not \<open>null\<close>.\<close>

definition isTextEntry :: "json \<Rightarrow> bool" where
  "isTextEntry c = (get_prop (js ''type'') c = Some (JStr (js ''text'')))"

text \<open>
  The variable \<open>resultContent\<close> when \<open>pushFunctionResponse\<close> is called: the content when it
  is a string; for an array the texts of its entries of type \<open>text\<close>, joined, where
  \<open>filter\<close> reads \<open>c.type\<close> of every entry; the empty string for any other content.
\<close>

definition resultContent :: "runtime \<Rightarrow> json option \<Rightarrow> js_error + jsstring" where
  "resultContent rt content =
     (case content of
        Some (JStr str) \<Rightarrow> Inr str
      | Some (JArr cs) \<Rightarrow>
          if JNull \<in> set cs then Inl TypeError
          else Inr (concat (map (\<lambda>c. joinText rt (get_prop (js ''text'') c))
                              (filter isTextEntry cs)))
      | _ \<Rightarrow> Inr [])"

text \<open>The body of the loop of \<open>handleClaudeToolResult\<close> for one item.\<close>

fun handleRawItem :: "runtime \<Rightarrow> raw_item \<Rightarrow> turn list \<Rightarrow> js_error + turn list" where
  "handleRawItem rt RawNull antigravityMessages = Inl TypeError"
| "handleRawItem rt RawOther antigravityMessages = Inr antigravityMessages"
| "handleRawItem rt (RawToolResult toolUseId content) antigravityMessages =
     (let functionName = findFunctionNameById toolUseId antigravityMessages
      in case resultContent rt content of
           Inl e \<Rightarrow> Inl e
         | Inr out \<Rightarrow>
             Inr (pushFunctionResponse toolUseId functionName out antigravityMessages))"

fun handleRawItems :: "runtime \<Rightarrow> raw_item list \<Rightarrow> turn list \<Rightarrow> js_error + turn list" where
  "handleRawItems rt [] antigravityMessages = Inr antigravityMessages"
| "handleRawItems rt (item # items) antigravityMessages =
     (case handleRawItem rt item antigravityMessages of
        Inl e \<Rightarrow> Inl e
      | Inr ms \<Rightarrow> handleRawItems rt items ms)"

text \<open>\<open>handleClaudeToolResult\<close> for a message whose content is the given array of items,
  \<open>None\<close> for a content that is not an array.\<close>

definition handleClaudeToolResult_raw ::
  "runtime \<Rightarrow> raw_item list option \<Rightarrow> turn list \<Rightarrow> js_error + turn list" where
  "handleClaudeToolResult_raw rt content antigravityMessages =
     (case content of
        None \<Rightarrow> Inr antigravityMessages
      | Some items \<Rightarrow> handleRawItems rt items antigravityMessages)"

section \<open>Reading an event sequence\<close>

text \<open>
  The order that a sequence of callback events has to keep. Thinking is \<open>Closed\<close>, or it is
  \<open>Opened\<close>, or it is \<open>Closing\<close>: open, and the last event carried the closing tag. While
  thinking is closed, a thinking event must be the opening tag. While it is open, a text or
  tool-calls event is allowed only directly after the closing tag.
\<close>

datatype think_phase = Closed | Opened | Closing

fun think_step :: "think_phase \<Rightarrow> event \<Rightarrow> think_phase option" where
  "think_step Closed (EvThinking c) = (if c = think_open then Some Opened else None)"
| "think_step Closed e = Some Closed"
| "think_step Opened (EvThinking c) = Some (if c = think_close then Closing else Opened)"
| "think_step Opened e = None"
| "think_step Closing (EvThinking c) = Some (if c = think_close then Closing else Opened)"
| "think_step Closing e = Some Closed"

fun think_run :: "think_phase \<Rightarrow> event list \<Rightarrow> think_phase option" where
  "think_run ph [] = Some ph"
| "think_run ph (e # es) =
     (case think_step ph e of
        None \<Rightarrow> None
      | Some ph' \<Rightarrow> think_run ph' es)"

definition bracketed :: "event list \<Rightarrow> bool" where
  "bracketed es = (think_run Closed es \<noteq> None)"

text \<open>A line carries a finish signal when it is a data line whose payload parses to an
  envelope with a truthy \<open>finishReason\<close> in its first candidate.\<close>

definition finishSignal :: "runtime \<Rightarrow> jsstring \<Rightarrow> bool" where
  "finishSignal rt line =
     (startsWith line data_marker \<and>
      (case JSON_parse rt (drop 6 line) of
         None \<Rightarrow> False
       | Some data \<Rightarrow>
           data \<noteq> JNull \<and> truthy_opt (opt_prop (js ''finishReason'') (firstCandidate data))))"

text \<open>
  What a stream carries, in the words of the specification. A thought part is a part whose
  \<open>thought\<close> is \<open>true\<close>; its content is its text, the empty string when it has none. A text
  part is another part that has a \<open>text\<close>. A \<open>functionCall\<close> part is another part with a
  \<open>functionCall\<close>. Any other part is ignored. An envelope can carry a finish signal.
\<close>

datatype signal =
    OnThought json
  | OnText json
  | OnCall json
  | OnOther
  | OnFinish

definition signalOf :: "json \<Rightarrow> signal" where
  "signalOf part =
     (if get_prop (js ''thought'') part = Some (JBool True) then
        OnThought (case get_prop (js ''text'') part of
                     None \<Rightarrow> JStr []
                   | Some t \<Rightarrow> if truthy t then t else JStr [])
      else
        case get_prop (js ''text'') part of
          Some t \<Rightarrow> OnText t
        | None \<Rightarrow>
            (case get_prop (js ''functionCall'') part of
               None \<Rightarrow> OnOther
             | Some fc \<Rightarrow> if truthy fc then OnCall fc else OnOther))"

text \<open>
  The events that the specification asks for, given whether thinking is open, the tool
  calls buffered so far and the number of identifiers drawn. A thought part opens thinking
  when it is not open and emits its content. A text part closes thinking when it is open
  and emits its text. A \<open>functionCall\<close> part emits nothing: its tool call is buffered. A
  finish signal, when tool calls are buffered, closes thinking when it is open and emits
  one tool-calls event with all of them.
\<close>

fun expected :: "runtime \<Rightarrow> bool \<Rightarrow> tool_call list \<Rightarrow> nat \<Rightarrow> signal list \<Rightarrow> event list" where
  "expected rt opened pending n [] = []"
| "expected rt opened pending n (OnThought c # xs) =
     (if opened then [] else [EvThinking think_open])
       @ EvThinking c # expected rt True pending n xs"
| "expected rt opened pending n (OnText t # xs) =
     (if opened then [EvThinking think_close] else [])
       @ EvText t # expected rt False pending n xs"
| "expected rt opened pending n (OnCall fc # xs) =
     expected rt opened (pending @ [fst (convertToToolCall rt fc n)])
       (snd (convertToToolCall rt fc n)) xs"
| "expected rt opened pending n (OnOther # xs) = expected rt opened pending n xs"
| "expected rt opened pending n (OnFinish # xs) =
     (if pending = [] then expected rt opened pending n xs
      else (if opened then [EvThinking think_close] else [])
             @ EvToolCalls pending # expected rt False [] n xs)"

text \<open>
  A line carries the parts \<open>ps\<close> and the finish flag \<open>fin\<close> when it is a data line whose
  payload parses to an envelope that holds the array \<open>ps\<close> of parts, none of them \<open>null\<close>,
  in the content of its first candidate, or no parts there and \<open>ps\<close> is empty, and \<open>fin\<close>
  tells whether the finish reason of that candidate is truthy. A line without the marker,
  and one whose payload does not parse, carries nothing.
\<close>

definition carries :: "runtime \<Rightarrow> jsstring \<Rightarrow> json list \<times> bool \<Rightarrow> bool" where
  "carries rt line env =
     (if startsWith line data_marker then
        (case JSON_parse rt (drop 6 line) of
           None \<Rightarrow> env = ([], False)
         | Some data \<Rightarrow>
             data \<noteq> JNull \<and> JNull \<notin> set (fst env)
             \<and> (let parts = opt_prop (js ''parts'') (opt_prop (js ''content'') (firstCandidate data))
                in parts = Some (JArr (fst env)) \<or> (\<not> truthy_opt parts \<and> fst env = []))
             \<and> snd env = truthy_opt (opt_prop (js ''finishReason'') (firstCandidate data)))
      else env = ([], False))"

definition signalsOf :: "json list \<times> bool \<Rightarrow> signal list" where
  "signalsOf env = map signalOf (fst env) @ (if snd env then [OnFinish] else [])"

section \<open>Decoding a byte chunk\<close>

text \<open>
  \<open>Buffer.prototype.toString()\<close> decodes UTF-8 and puts the replacement character U+FFFD
  for every ill-formed sequence, also for a sequence that the end of the buffer cuts short.
  \<open>utf8_lead\<close> reads a byte where a character starts; the state of \<open>utf8_decode\<close> is the
  number of continuation bytes still expected, the code point so far and the range allowed
  for the next byte.
\<close>

type_synonym utf8_state = "nat \<times> nat \<times> nat \<times> nat"

definition utf8_idle :: utf8_state where
  "utf8_idle = (0, 0, 0x80, 0xBF)"

definition utf8_lead :: "nat \<Rightarrow> nat list \<times> utf8_state" where
  "utf8_lead b =
     (if b \<le> 0x7F then ([b], utf8_idle)
      else if 0xC2 \<le> b \<and> b \<le> 0xDF then ([], (1, b - 0xC0, 0x80, 0xBF))
      else if 0xE0 \<le> b \<and> b \<le> 0xEF then
        ([], (2, b - 0xE0, if b = 0xE0 then 0xA0 else 0x80, if b = 0xED then 0x9F else 0xBF))
      else if 0xF0 \<le> b \<and> b \<le> 0xF4 then
        ([], (3, b - 0xF0, if b = 0xF0 then 0x90 else 0x80, if b = 0xF4 then 0x8F else 0xBF))
      else ([0xFFFD], utf8_idle))"

fun utf8_decode :: "utf8_state \<Rightarrow> nat list \<Rightarrow> nat list" where
  "utf8_decode (need, cp, lo, hi) [] = (if need = 0 then [] else [0xFFFD])"
| "utf8_decode (need, cp, lo, hi) (b # bs) =
     (if need = 0 then
        (case utf8_lead b of (out, st) \<Rightarrow> out @ utf8_decode st bs)
      else if lo \<le> b \<and> b \<le> hi then
        (if need = 1 then (cp * 64 + (b - 0x80)) # utf8_decode utf8_idle bs
         else utf8_decode (need - 1, cp * 64 + (b - 0x80), 0x80, 0xBF) bs)
      else
        0xFFFD # (case utf8_lead b of (out, st) \<Rightarrow> out @ utf8_decode st bs))"

text \<open>A code point as UTF-16 code units.\<close>

definition utf16_units :: "nat \<Rightarrow> jsstring" where
  "utf16_units cp =
     (if cp < 0x10000 then [of_nat cp]
      else [of_nat (0xD800 + (cp - 0x10000) div 0x400), of_nat (0xDC00 + (cp - 0x10000) mod 0x400)])"

definition utf8_toString :: "byte list \<Rightarrow> jsstring" where
  "utf8_toString bytes = concat (map utf16_units (utf8_decode utf8_idle (map unat bytes)))"

section \<open>Sample inputs\<close>

text \<open>The bytes of an ASCII text.\<close>

definition ascii :: "string \<Rightarrow> byte list" where
  "ascii str = map of_char str"

text \<open>An envelope with one candidate that holds the given parts and, when given, a finish
  reason.\<close>

definition envelope :: "json list \<Rightarrow> json option \<Rightarrow> json" where
  "envelope ps fin =
     JObj [(js ''response'',
       JObj [(js ''candidates'',
         JArr [JObj ((js ''content'', JObj [(js ''parts'', JArr ps)]) #
                     (case fin of None \<Rightarrow> [] | Some r \<Rightarrow> [(js ''finishReason'', r)]))])])]"

text \<open>Three payloads and what \<open>JSON.parse\<close> returns for them: a thought, a text, and a tool
  call together with a finish reason.\<close>

definition payload_thought :: jsstring where
  \<open>payload_thought =
     js ''{"response":{"candidates":[{"content":{"parts":[{"text":"hm","thought":true}]}}]}}''\<close>

definition payload_text :: jsstring where
  \<open>payload_text = js ''{"response":{"candidates":[{"content":{"parts":[{"text":"Hi"}]}}]}}''\<close>

definition payload_call :: jsstring where
  \<open>payload_call =
     js ''{"response":{"candidates":[{"content":{"parts":[{"functionCall":{"id":"t1","name":"get_weather","args":{}}}]},"finishReason":"STOP"}]}}''\<close>

definition part_thought :: json where
  "part_thought = JObj [(js ''text'', JStr (js ''hm'')), (js ''thought'', JBool True)]"

definition part_call :: json where
  "part_call =
     JObj [(js ''functionCall'',
       JObj [(js ''id'', JStr (js ''t1'')), (js ''name'', JStr (js ''get_weather'')),
             (js ''args'', JObj [])])]"

text \<open>A text payload whose text is one character, given by its code units, and the bytes
  of its data line before that character and after it.\<close>

definition text_before :: string where
  \<open>text_before = ''{"response":{"candidates":[{"content":{"parts":[{"text":"''\<close>

definition text_after :: string where
  \<open>text_after = ''"}]}}]}}''\<close>

definition payload_char :: "jsstring \<Rightarrow> jsstring" where
  "payload_char c = js text_before @ c @ js text_after"

definition line_head :: "byte list" where
  "line_head = ascii (''data: '' @ text_before)"

definition line_tail :: "byte list" where
  "line_tail = ascii text_after @ [10]"

definition sample_parse :: "jsstring \<Rightarrow> json option" where
  "sample_parse str =
     (if str = payload_thought then Some (envelope [part_thought] None)
      else if str = payload_text then Some (envelope [JObj [(js ''text'', JStr (js ''Hi''))]] None)
      else if str = payload_call then Some (envelope [part_call] (Some (JStr (js ''STOP''))))
      else if str = payload_char [0xE9]
        then Some (envelope [JObj [(js ''text'', JStr [0xE9])]] None)
      else if str = payload_char [0xFFFD, 0xFFFD]
        then Some (envelope [JObj [(js ''text'', JStr [0xFFFD, 0xFFFD])]] None)
      else None)"

definition sample_runtime :: runtime where
  "sample_runtime =
     \<lparr>JSON_parse = sample_parse,
      JSON_stringify = (\<lambda>v. if v = JObj [] then js ''{}'' else js ''null''),
      JSON_stringify_indent = (\<lambda>v. if v = JObj [] then js ''{}'' else js ''null''),
      String_of = (\<lambda>v. js ''true''),
      Buffer_toString = utf8_toString,
      generateToolCallId = (\<lambda>n. js ''call_'' @ replicate n 120)\<rparr>"

definition sample_call :: tool_call where
  "sample_call = \<lparr>tc_id = JStr (js ''t1''), tc_type = js ''function'',
       tc_name = Some (JStr (js ''get_weather'')), tc_arguments = Some (js ''{}'')\<rparr>"

text \<open>
  A converter environment: no cached signature and no fallback, names left as they are,
  thinking enabled for every model, no converted tools, an official system prompt and no
  prompt of the proxy.
\<close>

definition sample_env :: "(json, unit, unit) converter_env" where
  "sample_env =
     \<lparr>isImageModel = (\<lambda>m. False),
      shouldCacheSignature = (\<lambda>hasTools isImage. True),
      getSignature = (\<lambda>session m hasTools. None),
      useFallbackSignature = False,
      getThoughtSignatureForModel = (\<lambda>m. None),
      getToolSignatureForModel = (\<lambda>m. None),
      sanitizeToolName = (\<lambda>n. n),
      isEnableThinking = (\<lambda>m. True),
      modelMapping = (\<lambda>m. m),
      convertClaudeToolsToAntigravity = (\<lambda>tools session m. []),
      generateGenerationConfig = (\<lambda>params enableThinking m. \<lparr>candidateCount = None\<rparr>),
      generateRequestId = js ''request-1'',
      officialSystemPrompt = js ''Be brief.'',
      proxySystemPrompt = [],
      useContextSystemPrompt = True,
      mergeSystemPrompt = False,
      officialPromptPosition = js ''before''\<rparr>"

definition sample_token :: token where
  "sample_token = \<lparr>access_token = js ''a'', projectId = js ''p'', sessionId = js ''s''\<rparr>"

text \<open>An assistant message with a signed thinking block and a tool call, and the user
  message with the result of that call.\<close>

definition sample_assistant :: claude_message where
  "sample_assistant =
     \<lparr>m_role = js ''assistant'',
      m_content = ContentArray
        [ThinkingItem (Some (js ''because...'')) (Some (js ''sig1'')),
         ToolUseItem (js ''t1'') (js ''get_weather'') (Some (JObj [])) None]\<rparr>"

definition sample_result :: claude_message where
  "sample_result =
     \<lparr>m_role = js ''user'',
      m_content = ContentArray [ToolResultItem (js ''t1'') (ResultString (js ''sunny''))]\<rparr>"

definition sample_call_part :: part where
  "sample_call_part = FunctionCallPart (js ''t1'') (js ''get_weather'') (JObj []) None"

definition sample_thought_part :: part where
  "sample_thought_part = ThoughtPart (js ''because...'') (Some (js ''sig1''))"

text \<open>An assistant message whose thinking block has no signature.\<close>

definition sample_unsigned :: claude_message where
  "sample_unsigned =
     \<lparr>m_role = js ''assistant'',
      m_content = ContentArray [ThinkingItem (Some (js ''hm'')) None, TextItem (Some (js ''Hi''))]\<rparr>"

section \<open>Invariants used in the proofs\<close>

text \<open>The events emitted so far keep the order of \<open>think_run\<close>, and the flag
  \<open>thinkingStarted\<close> says whether that run has left thinking open.\<close>

definition phase_ok :: "stream \<Rightarrow> bool" where
  "phase_ok s =
     (\<exists>ph. think_run Closed (emitted s) = Some ph \<and> (thinkingStarted s \<longleftrightarrow> ph \<noteq> Closed))"

text \<open>From \<open>s\<close> to \<open>s'\<close> events were only appended, none of them a tool-calls event, and
  tool calls were only appended to the buffer.\<close>

definition grows :: "stream \<Rightarrow> stream \<Rightarrow> bool" where
  "grows s s' =
     (\<exists>new added. emitted s' = emitted s @ new \<and> \<not> list_ex isToolCalls new
        \<and> toolCalls s' = toolCalls s @ added)"

text \<open>The events emitted so far, followed by those expected for the signals still to
  come.\<close>

definition outlook :: "runtime \<Rightarrow> stream \<Rightarrow> signal list \<Rightarrow> event list" where
  "outlook rt s xs =
     emitted s @ expected rt (thinkingStarted s) (toolCalls s) (idsDrawn s) xs"

section \<open>Reading a turn sequence\<close>

fun isThought :: "part \<Rightarrow> bool" where
  "isThought (ThoughtPart t sg) = True"
| "isThought p = False"

text \<open>A thought part is signed when it carries a non-empty signature and a non-empty text.\<close>

fun signedThought :: "part \<Rightarrow> bool" where
  "signedThought (ThoughtPart t (Some sg)) = (sg \<noteq> [] \<and> t \<noteq> [])"
| "signedThought p = False"

fun isToolUse :: "claude_item \<Rightarrow> bool" where
  "isToolUse (ToolUseItem i n input sg) = True"
| "isToolUse item = False"

text \<open>The id of a \<open>functionCall\<close> part.\<close>

fun callId :: "part \<Rightarrow> jsstring option" where
  "callId (FunctionCallPart i n a sg) = Some i"
| "callId p = None"

text \<open>The ids of the \<open>tool_use\<close> items of a message.\<close>

fun toolUseId :: "claude_item \<Rightarrow> jsstring option" where
  "toolUseId (ToolUseItem i n input sg) = Some i"
| "toolUseId item = None"

definition toolUseIds :: "claude_message \<Rightarrow> jsstring set" where
  "toolUseIds message =
     (case m_content message of
        ContentArray items \<Rightarrow> {i. Some i \<in> toolUseId ` set items}
      | _ \<Rightarrow> {})"

text \<open>
  The \<open>functionResponse\<close> parts of the \<open>tool_result\<close> items of a message, in order, each
  named by looking its id up in the given turns.
\<close>

fun responsesOf :: "turn list \<Rightarrow> claude_item list \<Rightarrow> part list" where
  "responsesOf ts [] = []"
| "responsesOf ts (ToolResultItem i c # items) =
     FunctionResponsePart i (findFunctionNameById i ts) (resultText c) # responsesOf ts items"
| "responsesOf ts (item # items) = responsesOf ts items"

text \<open>
  The \<open>functionCall\<close> parts of the \<open>tool_use\<close> items of a message, in order, each with the
  signature given.
\<close>

fun callsOf ::
  "('tool, 'params, 'g) converter_env \<Rightarrow> (jsstring option \<Rightarrow> jsstring option)
     \<Rightarrow> claude_item list \<Rightarrow> part list" where
  "callsOf env pick [] = []"
| "callsOf env pick (ToolUseItem i n input sg # items) =
     FunctionCallPart i (sanitizeToolName env n)
       (case input of None \<Rightarrow> JObj [] | Some v \<Rightarrow> if truthy v then v else JObj [])
       (pick sg) # callsOf env pick items"
| "callsOf env pick (item # items) = callsOf env pick items"

text \<open>
  One step of the conversion either leaves the turns, or appends parts to the last turn, or
  appends turns: every turn of \<open>ts\<close> is still in its place in \<open>ts'\<close>, with its role and with
  its parts as a prefix of the new parts.
\<close>

definition extends :: "turn list \<Rightarrow> turn list \<Rightarrow> bool" where
  "extends ts ts' =
     (length ts \<le> length ts' \<and>
      (\<forall>i < length ts. role (ts' ! i) = role (ts ! i)
          \<and> (\<exists>extra. parts (ts' ! i) = parts (ts ! i) @ extra)))"

text \<open>A model turn with a call to \<open>n\<close> under the id \<open>i\<close>, directly followed by a user turn
  with the response to that id and name.\<close>

definition callThenResponse :: "jsstring \<Rightarrow> jsstring \<Rightarrow> jsstring \<Rightarrow> turn list \<Rightarrow> bool" where
  "callThenResponse i n out ts =
     (\<exists>k. Suc k < length ts
        \<and> role (ts ! k) = Model
        \<and> (\<exists>a sg. FunctionCallPart i n a sg \<in> set (parts (ts ! k)))
        \<and> role (ts ! Suc k) = User
        \<and> FunctionResponsePart i n out \<in> set (parts (ts ! Suc k)))"

text \<open>All parts of all turns.\<close>

definition allParts :: "turn list \<Rightarrow> part set" where
  "allParts ts = (\<Union>t \<in> set ts. set (parts t))"

text \<open>
  What \<open>handleClaudeToolResult\<close> amounts to for the responses of one message: nothing for
  no response; otherwise they go onto the last turn when it is a user turn that holds a
  \<open>functionResponse\<close> part, and into a new user turn when it is not.
\<close>

definition appendResponses :: "part list \<Rightarrow> turn list \<Rightarrow> turn list" where
  "appendResponses frs ts =
     (if frs = [] then ts
      else if ts \<noteq> [] \<and> role (last ts) = User \<and> list_ex isFunctionResponse (parts (last ts))
        then butlast ts @ [(last ts)\<lparr>parts := parts (last ts) @ frs\<rparr>]
      else ts @ [\<lparr>role = User, parts = frs\<rparr>])"

text \<open>The signature that a \<open>functionCall\<close> part gets for a \<open>tool_use\<close> item.\<close>

definition callSignature :: "bool \<Rightarrow> signature_context \<Rightarrow> jsstring option \<Rightarrow> jsstring option" where
  "callSignature enableThinking ctx sg =
     (if enableThinking
      then (let r = sig_or (sig_or sg (toolSignature ctx)) (reasoningSignature ctx)
            in if sig_truthy r then r else None)
      else None)"

text \<open>An item on which the loop of \<open>handleClaudeToolResult\<close> throws: \<open>null\<close>, or a tool
  result whose array-form content holds an entry \<open>null\<close>.\<close>

fun throwsOn :: "raw_item \<Rightarrow> bool" where
  "throwsOn RawNull = True"
| "throwsOn (RawToolResult i (Some (JArr cs))) = (JNull \<in> set cs)"
| "throwsOn item = False"

text \<open>The \<open>functionResponse\<close> parts of the \<open>tool_result\<close> items as sent, in order, each
  named by looking its id up in the given turns.\<close>

fun rawResponses :: "runtime \<Rightarrow> turn list \<Rightarrow> raw_item list \<Rightarrow> part list" where
  "rawResponses rt ts [] = []"
| "rawResponses rt ts (RawToolResult i c # items) =
     (case resultContent rt c of
        Inl e \<Rightarrow> rawResponses rt ts items
      | Inr out \<Rightarrow>
          FunctionResponsePart i (findFunctionNameById i ts) out # rawResponses rt ts items)"
| "rawResponses rt ts (item # items) = rawResponses rt ts items"

text \<open>A typed item as the JSON it stands for: an entry of an array-form result is the
  object with its \<open>type\<close> and, when it has one, its \<open>text\<close>.\<close>

definition rawEntry :: "jsstring \<times> jsstring option \<Rightarrow> json" where
  "rawEntry x =
     JObj ((js ''type'', JStr (fst x)) #
           (case snd x of None \<Rightarrow> [] | Some t \<Rightarrow> [(js ''text'', JStr t)]))"

fun rawContent :: "result_content \<Rightarrow> json option" where
  "rawContent (ResultString str) = Some (JStr str)"
| "rawContent (ResultArray xs) = Some (JArr (map rawEntry xs))"
| "rawContent ResultOther = None"

fun rawOf :: "claude_item \<Rightarrow> raw_item" where
  "rawOf (ToolResultItem i c) = RawToolResult i (rawContent c)"
| "rawOf item = RawOther"


section \<open>Properties\<close>

subsection \<open>Grounding evidence\<close>

lemma hasGroundingData_iff:
  "hasGroundingData candidate =
     (truthy_opt candidate \<and>
      (let meta = opt_prop (js ''groundingMetadata'') candidate in
         nonempty_array (opt_prop (js ''webSearchQueries'') meta)
       \<or> nonempty_array (opt_prop (js ''groundingChunks'') meta)
       \<or> nonempty_array (opt_prop (js ''groundingSupports'') meta)
       \<or> nonempty_array (opt_prop (js ''groundingChunks'') candidate)
       \<or> nonempty_array (opt_prop (js ''groundingSupports'') candidate)))"
proof (cases "opt_prop (js ''groundingMetadata'') candidate")
  case None
  then show ?thesis by (simp add: hasGroundingData_def opt_prop_def)
next
  case (Some m)
  then show ?thesis
    by (cases m) (auto simp add: hasGroundingData_def opt_prop_def Let_def)
qed

text \<open>
  Claim C6, as the code has it. \<open>hasGroundingData\<close> answers false for an absent candidate, and
  for a present one it answers true exactly when one of five arrays is non-empty: the
  metadata's \<open>webSearchQueries\<close>, \<open>groundingChunks\<close> or \<open>groundingSupports\<close>, or the candidate's
  own \<open>groundingChunks\<close> or \<open>groundingSupports\<close>. Absent or empty metadata gives false only
  when the candidate has no chunks or supports of its own, and a query counts only inside
  the metadata.
\<close>

theorem hasGroundingData_evidence:
  "hasGroundingData None = False \<and>
   hasGroundingData (Some c) =
     (truthy c \<and>
        (nonempty_array (opt_prop (js ''webSearchQueries'') (opt_prop (js ''groundingMetadata'') (Some c)))
       \<or> nonempty_array (opt_prop (js ''groundingChunks'') (opt_prop (js ''groundingMetadata'') (Some c)))
       \<or> nonempty_array (opt_prop (js ''groundingSupports'') (opt_prop (js ''groundingMetadata'') (Some c)))
       \<or> nonempty_array (opt_prop (js ''groundingChunks'') (Some c))
       \<or> nonempty_array (opt_prop (js ''groundingSupports'') (Some c))))"
  by (simp add: hasGroundingData_iff [of "Some c"] hasGroundingData_iff [of None] truthy_opt_def
      Let_def)

text \<open>
  Claim C6 as stated fails twice. A candidate without grounding metadata that carries a
  grounding chunk of its own is grounded, although the claim says that absent metadata gives
  false; and a candidate that carries a web-search query of its own, outside the metadata, is
  not grounded.
\<close>

theorem hasGroundingData_counterexample:
  "opt_prop (js ''groundingMetadata'') (Some (JObj [(js ''groundingChunks'', JArr [JObj []])])) = None
   \<and> hasGroundingData (Some (JObj [(js ''groundingChunks'', JArr [JObj []])]))
   \<and> \<not> hasGroundingData (Some (JObj [(js ''webSearchQueries'', JArr [JStr (js ''q'')])]))"
  by (simp add: hasGroundingData_def opt_prop_def truthy_opt_def js_def)

subsection \<open>JavaScript strings\<close>

lemma of_char_nat_bound: "(of_char c :: nat) < 256"
proof -
  have "(of_char c :: nat) mod 256 < 256" by simp
  then show ?thesis by (simp only: of_char_mod_256)
qed

lemma of_char_word16_eq: "(of_char c :: 16 word) = of_char d \<longleftrightarrow> c = d"
proof
  assume "(of_char c :: 16 word) = of_char d"
  then have "unat (of_nat (of_char c) :: 16 word) = unat (of_nat (of_char d) :: 16 word)"
    by (simp add: of_nat_of_char)
  moreover have "(of_char c :: nat) < 2 ^ 16" "(of_char d :: nat) < 2 ^ 16"
    by (rule less_trans [OF of_char_nat_bound], simp)+
  ultimately have "(of_char c :: nat) = of_char d"
    by (simp add: unat_of_nat)
  then show "c = d" by simp
qed simp

lemma js_eq_iff [simp]: "js a = js b \<longleftrightarrow> a = b"
  unfolding js_def by (simp add: inj_map_eq_map inj_def of_char_word16_eq)

lemma js_Nil [simp]: "js [] = []" "js a = [] \<longleftrightarrow> a = []" "[] = js a \<longleftrightarrow> a = []"
  by (auto simp add: js_def)

lemma js_append: "js (a @ b) = js a @ js b"
  by (simp add: js_def)

subsection \<open>Line buffering\<close>

lemma js_split_nonempty [simp]: "js_split sep s \<noteq> []"
  by (induction s) (auto split: list.splits)

lemma js_split_append:
  "js_split sep (a @ b) = butlast (js_split sep a) @ js_split sep (last (js_split sep a) @ b)"
proof (induction a)
  case Nil
  show ?case by simp
next
  case (Cons c a)
  show ?case
  proof (cases "c = sep")
    case True
    with Cons show ?thesis by simp
  next
    case False
    obtain x xs where sp: "js_split sep a = x # xs"
      by (cases "js_split sep a") auto
    show ?thesis
    proof (cases xs)
      case Nil
      with False sp Cons show ?thesis by (auto split: list.splits)
    next
      case (Cons y ys)
      with False sp Cons.IH show ?thesis by (auto split: list.splits)
    qed
  qed
qed

lemma callback_buffer: "callback e (s\<lparr>buffer := b\<rparr>) = (callback e s)\<lparr>buffer := b\<rparr>"
  by (simp add: callback_def)

lemma closeThinking_buffer: "closeThinking (s\<lparr>buffer := b\<rparr>) = (closeThinking s)\<lparr>buffer := b\<rparr>"
  by (simp add: closeThinking_def callback_def)

lemma emitPart_buffer:
  "emitPart rt p (s\<lparr>buffer := b\<rparr>) = map_option (\<lambda>s'. s'\<lparr>buffer := b\<rparr>) (emitPart rt p s)"
  by (simp add: emitPart_def callback_def closeThinking_def Let_def split: option.splits prod.splits)

lemma emitParts_buffer:
  "emitParts rt ps (s\<lparr>buffer := b\<rparr>) = apsnd (\<lambda>s'. s'\<lparr>buffer := b\<rparr>) (emitParts rt ps s)"
  by (induction ps arbitrary: s) (auto simp add: emitPart_buffer split: option.splits)

lemma iterateParts_buffer:
  "iterateParts rt v (s\<lparr>buffer := b\<rparr>) = apsnd (\<lambda>s'. s'\<lparr>buffer := b\<rparr>) (iterateParts rt v s)"
  by (simp add: iterateParts_def emitParts_buffer split: option.splits json.splits)

lemma parseAndEmitStreamChunk_buffer:
  "parseAndEmitStreamChunk rt line (s\<lparr>buffer := b\<rparr>) = (parseAndEmitStreamChunk rt line s)\<lparr>buffer := b\<rparr>"
  by (auto simp add: parseAndEmitStreamChunk_def iterateParts_buffer closeThinking_def callback_def Let_def
      split: option.splits prod.splits bool.splits)

lemma processLines_buffer:
  "processLines rt ls (s\<lparr>buffer := b\<rparr>) = (processLines rt ls s)\<lparr>buffer := b\<rparr>"
  unfolding processLines_def
  by (induction ls arbitrary: s) (simp_all add: parseAndEmitStreamChunk_buffer)

lemma processLines_append:
  "processLines rt (xs @ ys) s = processLines rt ys (processLines rt xs s)"
  by (simp add: processLines_def)

lemma processChunk_processChunk:
  "processChunk rt b (processChunk rt a s) = processChunk rt (a @ b) s"
proof -
  let ?L1 = "js_split nl (buffer s @ a)"
  let ?L2 = "js_split nl (last ?L1 @ b)"
  have split: "js_split nl (buffer s @ (a @ b)) = butlast ?L1 @ ?L2"
    using js_split_append [of nl "buffer s @ a" b] by simp
  have bl: "butlast (butlast ?L1 @ ?L2) = butlast ?L1 @ butlast ?L2"
    by (simp add: butlast_append)
  have la: "last (butlast ?L1 @ ?L2) = last ?L2"
    by simp
  have buf: "buffer (processChunk rt a s) = last ?L1"
    by (simp add: processChunk_def Let_def processLines_buffer)
  have "processChunk rt b (processChunk rt a s)
      = processLines rt (butlast ?L2) ((processLines rt (butlast ?L1) s)\<lparr>buffer := last ?L2\<rparr>)"
    by (simp add: processChunk_def Let_def processLines_buffer)
  also have "\<dots> = processChunk rt (a @ b) s"
    unfolding processChunk_def Let_def split bl la
    by (simp add: processLines_append processLines_buffer)
  finally show ?thesis .
qed

lemma processChunks_after_chunk:
  "processChunks rt cs (processChunk rt a s) = processChunk rt (a @ concat cs) s"
proof (induction cs arbitrary: a)
  case Nil
  show ?case by (simp add: processChunks_def)
next
  case (Cons c cs)
  have "processChunks rt (c # cs) (processChunk rt a s)
      = processChunks rt cs (processChunk rt c (processChunk rt a s))"
    by (simp add: processChunks_def)
  also have "\<dots> = processChunks rt cs (processChunk rt (a @ c) s)"
    by (simp add: processChunk_processChunk)
  also have "\<dots> = processChunk rt ((a @ c) @ concat cs) s"
    by (rule Cons.IH)
  finally show ?case by simp
qed

lemma processChunk_empty_initial: "processChunk rt [] initialStream = initialStream"
  by (simp add: processChunk_def initialStream_def processLines_def)

lemma processChunks_concat:
  "processChunks rt chunks initialStream = processChunk rt (concat chunks) initialStream"
  using processChunks_after_chunk [of rt chunks "[]" initialStream]
  by (simp add: processChunk_empty_initial)

subsection \<open>Thinking tags\<close>

lemma think_run_append:
  "think_run ph (xs @ ys) = (case think_run ph xs of None \<Rightarrow> None | Some ph' \<Rightarrow> think_run ph' ys)"
  by (induction xs arbitrary: ph) (auto split: option.splits)

lemma phase_ok_closeThinking:
  assumes "phase_ok s"
  shows "\<exists>ph. think_run Closed (emitted (closeThinking s)) = Some ph \<and> ph \<noteq> Opened
     \<and> \<not> thinkingStarted (closeThinking s)"
proof -
  from assms obtain ph where ph: "think_run Closed (emitted s) = Some ph"
    "thinkingStarted s \<longleftrightarrow> ph \<noteq> Closed" by (auto simp: phase_ok_def)
  show ?thesis
  proof (cases "thinkingStarted s")
    case True
    with ph have "ph = Opened \<or> ph = Closing" by (cases ph) auto
    with True ph show ?thesis
      by (auto simp add: closeThinking_def callback_def think_run_append)
  next
    case False
    with ph show ?thesis by (auto simp add: closeThinking_def)
  qed
qed

lemma phase_ok_text:
  assumes "phase_ok s"
  shows "phase_ok (callback (EvText t) (closeThinking s))"
proof -
  from phase_ok_closeThinking [OF assms] obtain ph where
    "think_run Closed (emitted (closeThinking s)) = Some ph" "ph \<noteq> Opened"
    "\<not> thinkingStarted (closeThinking s)" by blast
  then show ?thesis
    by (cases ph) (auto simp add: phase_ok_def callback_def think_run_append)
qed

lemma phase_ok_flush:
  assumes "phase_ok s"
  shows "phase_ok ((callback (EvToolCalls tcs) (closeThinking s))\<lparr>toolCalls := []\<rparr>)"
proof -
  from phase_ok_closeThinking [OF assms] obtain ph where
    "think_run Closed (emitted (closeThinking s)) = Some ph" "ph \<noteq> Opened"
    "\<not> thinkingStarted (closeThinking s)" by blast
  then show ?thesis
    by (cases ph) (auto simp add: phase_ok_def callback_def think_run_append)
qed

lemma phase_ok_thought:
  assumes "phase_ok s"
  shows "phase_ok (callback (EvThinking c)
           (if \<not> thinkingStarted s then (callback (EvThinking think_open) s)\<lparr>thinkingStarted := True\<rparr> else s))"
proof -
  from assms obtain ph where ph: "think_run Closed (emitted s) = Some ph"
    "thinkingStarted s \<longleftrightarrow> ph \<noteq> Closed" by (auto simp: phase_ok_def)
  show ?thesis
    using ph by (cases ph) (auto simp add: phase_ok_def callback_def think_run_append)
qed

lemma phase_ok_toolCalls_update:
  "phase_ok (s\<lparr>toolCalls := tcs, idsDrawn := n\<rparr>) = phase_ok s"
  by (simp add: phase_ok_def)

lemma phase_ok_emitPart:
  assumes "phase_ok s" "emitPart rt p s = Some s'"
  shows "phase_ok s'"
  using assms phase_ok_thought [OF assms(1)] phase_ok_text [OF assms(1)]
  by (auto simp add: emitPart_def Let_def phase_ok_toolCalls_update
      split: if_splits option.splits prod.splits)

lemma phase_ok_emitParts:
  "phase_ok s \<Longrightarrow> phase_ok (snd (emitParts rt ps s))"
  by (induction ps arbitrary: s) (auto split: option.splits dest: phase_ok_emitPart)

lemma phase_ok_iterateParts:
  "phase_ok s \<Longrightarrow> phase_ok (snd (iterateParts rt v s))"
  by (auto simp add: iterateParts_def phase_ok_emitParts split: option.splits json.splits)

lemma phase_ok_parseAndEmitStreamChunk:
  assumes "phase_ok s"
  shows "phase_ok (parseAndEmitStreamChunk rt line s)"
proof (cases "startsWith line data_marker")
  case False
  with assms show ?thesis by (simp add: parseAndEmitStreamChunk_def)
next
  case True
  show ?thesis
  proof (cases "JSON_parse rt (drop 6 line)")
    case None
    with True assms show ?thesis by (simp add: parseAndEmitStreamChunk_def)
  next
    case (Some data)
    obtain ok s1 where it:
      "iterateParts rt (opt_prop (js ''parts'') (opt_prop (js ''content'') (firstCandidate data))) s
         = (ok, s1)"
      by (cases "iterateParts rt (opt_prop (js ''parts'') (opt_prop (js ''content'') (firstCandidate data))) s")
    from phase_ok_iterateParts [OF assms, of rt] it have s1: "phase_ok s1"
      by (metis snd_conv)
    from True Some it s1 assms phase_ok_flush [OF s1] show ?thesis
      by (cases ok) (simp_all add: parseAndEmitStreamChunk_def Let_def)
  qed
qed

lemma phase_ok_processLines:
  "phase_ok s \<Longrightarrow> phase_ok (processLines rt ls s)"
  unfolding processLines_def
  by (induction ls arbitrary: s) (simp_all add: phase_ok_parseAndEmitStreamChunk)

lemma phase_ok_buffer: "phase_ok (s\<lparr>buffer := b\<rparr>) = phase_ok s"
  by (simp add: phase_ok_def)

lemma phase_ok_processChunk:
  "phase_ok s \<Longrightarrow> phase_ok (processChunk rt chunk s)"
  by (simp add: processChunk_def Let_def phase_ok_processLines phase_ok_buffer)

lemma phase_ok_processChunks:
  "phase_ok s \<Longrightarrow> phase_ok (processChunks rt chunks s)"
  unfolding processChunks_def
  by (induction chunks arbitrary: s) (simp_all add: phase_ok_processChunk)

lemma phase_ok_initial: "phase_ok initialStream"
  by (simp add: phase_ok_def initialStream_def)

lemma bracketed_stream: "bracketed (emitted (processChunks rt chunks initialStream))"
  using phase_ok_processChunks [OF phase_ok_initial, of rt chunks]
  by (auto simp add: bracketed_def phase_ok_def)

subsection \<open>Evaluating data lines\<close>

lemma decode_head: "utf8_toString (line_head @ [0xC3]) = js ''data: '' @ js text_before @ [0xFFFD]"
  by (simp add: utf8_toString_def utf8_lead_def utf8_idle_def utf16_units_def line_head_def ascii_def js_def text_before_def)

lemma decode_tail: "utf8_toString ([0xA9] @ line_tail) = [0xFFFD] @ js text_after @ [nl]"
  by (simp add: utf8_toString_def utf8_lead_def utf8_idle_def utf16_units_def line_tail_def ascii_def js_def text_after_def nl_def)

lemma decode_whole: "utf8_toString (line_head @ [0xC3] @ [0xA9] @ line_tail) = js ''data: '' @ js text_before @ [0xE9] @ js text_after @ [nl]"
  by (simp add: utf8_toString_def utf8_lead_def utf8_idle_def utf16_units_def line_head_def line_tail_def
     ascii_def js_def text_before_def text_after_def nl_def)

lemma js_split_no_sep: "sep \<notin> set str \<Longrightarrow> js_split sep str = [str]"
  by (induction str) auto

lemma js_split_line: "sep \<notin> set str \<Longrightarrow> js_split sep (str @ [sep]) = [str, []]"
  by (induction str) auto

lemma processChunk_one_line:
  assumes "nl \<notin> set line"
  shows "processChunk rt (line @ [nl]) initialStream = parseAndEmitStreamChunk rt line initialStream"
  using assms
  by (simp add: processChunk_def initialStream_def js_split_line processLines_def)

lemma get_prop_envelope:
  "firstCandidate (envelope ps fin) =
     Some (JObj ((js ''content'', JObj [(js ''parts'', JArr ps)]) #
                     (case fin of None \<Rightarrow> [] | Some r \<Rightarrow> [(js ''finishReason'', r)])))"
  by (simp add: firstCandidate_def envelope_def opt_prop_def opt_index0_def)

lemma parts_envelope:
  "opt_prop (js ''parts'') (opt_prop (js ''content'') (firstCandidate (envelope ps fin))) = Some (JArr ps)"
  by (simp add: get_prop_envelope opt_prop_def)

lemma finish_envelope:
  "opt_prop (js ''finishReason'') (firstCandidate (envelope ps fin)) = fin"
  by (cases fin) (simp_all add: get_prop_envelope opt_prop_def)

lemma startsWith_marker: "startsWith (data_marker @ p) data_marker"
  by (simp add: startsWith_def)

lemma drop_marker: "drop 6 (data_marker @ p) = p"
  by (simp add: data_marker_def js_def)

lemma envelope_not_null: "envelope ps fin \<noteq> JNull"
  by (simp add: envelope_def)

lemma data_line:
  assumes "JSON_parse rt p = Some (envelope ps fin)"
  shows "parseAndEmitStreamChunk rt (data_marker @ p) s =
     (case emitParts rt ps s of
        (False, s1) \<Rightarrow> s1
      | (True, s1) \<Rightarrow>
          if truthy_opt fin \<and> toolCalls s1 \<noteq> []
          then (callback (EvToolCalls (toolCalls s1)) (closeThinking s1))\<lparr>toolCalls := []\<rparr>
          else s1)"
proof -
  have it: "iterateParts rt (Some (JArr ps)) s = emitParts rt ps s"
    by (simp add: iterateParts_def truthy_opt_def)
  show ?thesis
    unfolding parseAndEmitStreamChunk_def
    by (simp only: startsWith_marker drop_marker assms option.case envelope_not_null
        parts_envelope finish_envelope it Let_def simp_thms if_True if_False)
qed

lemma text_line:
  assumes "JSON_parse rt p = Some (envelope [JObj [(js ''text'', t)]] None)"
  shows "parseAndEmitStreamChunk rt (data_marker @ p) initialStream = callback (EvText t) initialStream"
  by (simp add: data_line [OF assms] emitPart_def closeThinking_def initialStream_def truthy_opt_def)

subsection \<open>Tool calls\<close>

lemma grows_refl: "grows s s"
  by (simp add: grows_def)

lemma grows_trans: "grows s s1 \<Longrightarrow> grows s1 s2 \<Longrightarrow> grows s s2"
  by (fastforce simp add: grows_def)

lemma grows_emitPart: "emitPart rt p s = Some s' \<Longrightarrow> grows s s'"
  by (auto simp add: emitPart_def grows_def callback_def closeThinking_def Let_def
      split: if_splits option.splits prod.splits)

lemma grows_emitParts: "grows s (snd (emitParts rt ps s))"
proof (induction ps arbitrary: s)
  case Nil
  show ?case by (simp add: grows_refl)
next
  case (Cons p ps)
  show ?case
  proof (cases "emitPart rt p s")
    case None
    then show ?thesis by (simp add: grows_refl)
  next
    case (Some s')
    with grows_emitPart [OF Some] Cons [of s'] show ?thesis
      by (auto intro: grows_trans)
  qed
qed

lemma grows_iterateParts: "grows s (snd (iterateParts rt v s))"
  by (auto simp add: iterateParts_def grows_refl grows_emitParts split: option.splits json.splits)

lemma line_tool_calls:
  "\<exists>new added.
     emitted (parseAndEmitStreamChunk rt line s) = emitted s @ new \<and>
     ((\<not> list_ex isToolCalls new \<and> toolCalls (parseAndEmitStreamChunk rt line s) = toolCalls s @ added)
      \<or> (finishSignal rt line \<and> toolCalls s @ added \<noteq> []
          \<and> toolCalls (parseAndEmitStreamChunk rt line s) = []
          \<and> (\<exists>pre. new = pre @ [EvToolCalls (toolCalls s @ added)] \<and> \<not> list_ex isToolCalls pre)))"
proof (cases "startsWith line data_marker")
  case False
  then show ?thesis by (simp add: parseAndEmitStreamChunk_def)
next
  case True
  show ?thesis
  proof (cases "JSON_parse rt (drop 6 line)")
    case None
    with True show ?thesis by (simp add: parseAndEmitStreamChunk_def)
  next
    case (Some data)
    show ?thesis
    proof (cases "data = JNull")
      case True
      with \<open>startsWith line data_marker\<close> Some show ?thesis
        by (simp add: parseAndEmitStreamChunk_def)
    next
      case False
      obtain ok s1 where it:
        "iterateParts rt (opt_prop (js ''parts'') (opt_prop (js ''content'') (firstCandidate data))) s
           = (ok, s1)"
        by (cases "iterateParts rt (opt_prop (js ''parts'') (opt_prop (js ''content'') (firstCandidate data))) s")
      from grows_iterateParts [of s rt] it have "grows s s1"
        by (metis snd_conv)
      then obtain new added where g: "emitted s1 = emitted s @ new" "\<not> list_ex isToolCalls new"
        "toolCalls s1 = toolCalls s @ added"
        by (auto simp add: grows_def)
      let ?flush = "ok \<and> truthy_opt (opt_prop (js ''finishReason'') (firstCandidate data))
          \<and> toolCalls s1 \<noteq> []"
      show ?thesis
      proof (cases ?flush)
        case no: False
        with True Some False it have "parseAndEmitStreamChunk rt line s = s1"
          by (cases ok) (auto simp add: parseAndEmitStreamChunk_def Let_def)
        with g show ?thesis by auto
      next
        case yes: True
        with True Some False it have res: "parseAndEmitStreamChunk rt line s =
            (callback (EvToolCalls (toolCalls s1)) (closeThinking s1))\<lparr>toolCalls := []\<rparr>"
          by (auto simp add: parseAndEmitStreamChunk_def Let_def)
        have fin: "finishSignal rt line"
          using True Some False yes by (simp add: finishSignal_def)
        have em: "emitted (parseAndEmitStreamChunk rt line s) =
            emitted s @ (new @ (if thinkingStarted s1 then [EvThinking think_close] else []))
              @ [EvToolCalls (toolCalls s @ added)]"
          using g by (simp add: res callback_def closeThinking_def)
        have "\<not> list_ex isToolCalls (new @ (if thinkingStarted s1 then [EvThinking think_close] else []))"
          using g by simp
        with em fin yes g res show ?thesis
          by (intro exI [of _ "(new @ (if thinkingStarted s1 then [EvThinking think_close] else []))
              @ [EvToolCalls (toolCalls s @ added)]"] exI [of _ added]) auto
      qed
    qed
  qed
qed

subsection \<open>The sample stream\<close>

lemma js_split_cons_line:
  "sep \<notin> set l \<Longrightarrow> js_split sep (l @ sep # rest) = l # js_split sep rest"
  by (induction l) auto

lemma nl_notin_js:
  assumes "CHR 10 \<notin> set str"
  shows "nl \<notin> set (js str)"
proof
  assume "nl \<in> set (js str)"
  then obtain c where c: "c \<in> set str" "nl = of_char c"
    by (auto simp add: js_def)
  have "nl = of_char (CHR 10)" by (simp add: nl_def)
  with c have "(of_char c :: 16 word) = of_char (CHR 10)" by simp
  then have "c = CHR 10" by (simp only: of_char_word16_eq)
  with c assms show False by simp
qed

lemma sample_parse_thought: "JSON_parse sample_runtime payload_thought = Some (envelope [part_thought] None)"
  by (simp add: sample_runtime_def sample_parse_def)

lemma sample_parse_text:
  "JSON_parse sample_runtime payload_text = Some (envelope [JObj [(js ''text'', JStr (js ''Hi''))]] None)"
  by (simp add: sample_runtime_def sample_parse_def payload_text_def payload_thought_def)

lemma sample_parse_call:
  "JSON_parse sample_runtime payload_call = Some (envelope [part_call] (Some (JStr (js ''STOP''))))"
  by (simp add: sample_runtime_def sample_parse_def payload_text_def payload_thought_def payload_call_def)

lemma payload_char_js: "payload_char (js c) = js (text_before @ c @ text_after)"
  by (simp add: payload_char_def js_append)

lemma sample_parse_bad: "JSON_parse sample_runtime (js ''{oops'') = None"
proof -
  have a: "[0xE9] = js [CHR 0xE9]" by (simp add: js_def)
  have "payload_char [0xFFFD, 0xFFFD] \<noteq> js ''{oops''"
    by (simp add: payload_char_def text_before_def js_def)
  then show ?thesis
    by (simp add: sample_runtime_def sample_parse_def payload_text_def payload_thought_def payload_call_def
      a payload_char_js text_before_def)
qed

lemma sample_parse_char:
  "JSON_parse sample_runtime (payload_char [0xE9]) = Some (envelope [JObj [(js ''text'', JStr [0xE9])]] None)"
proof -
  have a: "[0xE9] = js [CHR 0xE9]" by (simp add: js_def)
  show ?thesis
    by (simp add: sample_runtime_def sample_parse_def payload_text_def payload_thought_def payload_call_def
      a payload_char_js text_before_def)
qed

lemma sample_parse_replaced:
  "JSON_parse sample_runtime (payload_char [0xFFFD, 0xFFFD])
     = Some (envelope [JObj [(js ''text'', JStr [0xFFFD, 0xFFFD])]] None)"
proof -
  have a: "[0xE9] = js [CHR 0xE9]" by (simp add: js_def)
  have b: "\<And>str. payload_char [0xFFFD, 0xFFFD] \<noteq> js str"
  proof
    fix str assume "payload_char [0xFFFD, 0xFFFD] = js str"
    then have "0xFFFD \<in> set (js str)"
      by (metis in_set_conv_decomp payload_char_def append_Cons)
    then obtain c where "(of_char c :: 16 word) = 0xFFFD" by (auto simp add: js_def)
    then have "unat (of_nat (of_char c) :: 16 word) = 0xFFFD" by (simp add: of_nat_of_char)
    moreover have "(of_char c :: nat) < 2 ^ 16"
      by (rule less_trans [OF of_char_nat_bound], simp)
    ultimately have "(of_char c :: nat) = 0xFFFD" by (simp add: unat_of_nat)
    with of_char_nat_bound [of c] show False by simp
  qed
  have c: "payload_char [0xFFFD, 0xFFFD] \<noteq> payload_char [0xE9]"
    by (simp add: payload_char_def)
  show ?thesis
    by (simp add: sample_runtime_def sample_parse_def payload_text_def payload_thought_def payload_call_def
      b c)
qed


lemma nl_lines: "nl \<notin> set (data_marker @ payload_thought)" "nl \<notin> set (data_marker @ payload_text)"
  "nl \<notin> set (data_marker @ payload_call)"
  by (simp_all add: data_marker_def payload_thought_def payload_text_def payload_call_def
      js_append [symmetric] nl_notin_js)

lemma sample_split:
  "js_split nl ((data_marker @ payload_thought @ [nl])
       @ (data_marker @ payload_text @ [nl] @ data_marker @ payload_call @ [nl]))
   = [data_marker @ payload_thought, data_marker @ payload_text, data_marker @ payload_call, []]"
  using js_split_cons_line [OF nl_lines(1)] js_split_cons_line [OF nl_lines(2)]
    js_split_cons_line [OF nl_lines(3)]
  by simp

lemma sample_line1:
  "parseAndEmitStreamChunk sample_runtime (data_marker @ payload_thought) initialStream
     = initialStream\<lparr>thinkingStarted := True,
          emitted := [EvThinking think_open, EvThinking (JStr (js ''hm''))]\<rparr>"
  by (simp add: data_line [OF sample_parse_thought] emitPart_def part_thought_def callback_def
      initialStream_def truthy_opt_def)

lemma sample_line2:
  "parseAndEmitStreamChunk sample_runtime (data_marker @ payload_text)
     (initialStream\<lparr>thinkingStarted := True,
          emitted := [EvThinking think_open, EvThinking (JStr (js ''hm''))]\<rparr>)
     = initialStream\<lparr>emitted := [EvThinking think_open, EvThinking (JStr (js ''hm'')),
          EvThinking think_close, EvText (JStr (js ''Hi''))]\<rparr>"
  by (simp add: data_line [OF sample_parse_text] emitPart_def callback_def closeThinking_def
      initialStream_def truthy_opt_def)

lemma sample_convert: 
  "convertToToolCall sample_runtime
     (JObj [(js ''id'', JStr (js ''t1'')), (js ''name'', JStr (js ''get_weather'')), (js ''args'', JObj [])]) n
    = (sample_call, n)"
  by (simp add: convertToToolCall_def sample_call_def sample_runtime_def)

subsection \<open>The streaming interpreter\<close>

text \<open>
  Claim C8. A line that does not start with the marker \<open>data: \<close>, or whose payload
  \<open>JSON.parse\<close> rejects, leaves the whole stream record as it was: no event is emitted, the
  state, the buffer and the identifier count are unchanged. The lines after it are
  interpreted as if it had not been there.
\<close>

theorem malformed_line_skipped:
  assumes "\<not> startsWith line data_marker \<or> JSON_parse rt (drop 6 line) = None"
  shows "parseAndEmitStreamChunk rt line s = s
     \<and> processLines rt (before @ line # after) s0 = processLines rt (before @ after) s0"
proof -
  have skip: "\<And>s'. parseAndEmitStreamChunk rt line s' = s'"
    using assms by (auto simp add: parseAndEmitStreamChunk_def)
  then show ?thesis
    by (simp add: processLines_def)
qed

text \<open>
  A corrupt line between a thought line and a text line: the events are those of the two
  good lines.
\<close>

theorem malformed_line_skipped_witness:
  "parseAndEmitStreamChunk sample_runtime (js ''data: {oops'') initialStream = initialStream
   \<and> emitted (processLines sample_runtime
        [data_marker @ payload_thought, js ''data: {oops'', data_marker @ payload_text] initialStream)
     = [EvThinking think_open, EvThinking (JStr (js ''hm'')), EvThinking think_close,
        EvText (JStr (js ''Hi''))]"
proof -
  have bad: "\<not> startsWith (js ''data: {oops'') data_marker
      \<or> JSON_parse sample_runtime (drop 6 (js ''data: {oops'')) = None"
    using sample_parse_bad by (simp add: js_def)
  have "processLines sample_runtime [data_marker @ payload_thought, data_marker @ payload_text] initialStream
     = initialStream\<lparr>emitted := [EvThinking think_open, EvThinking (JStr (js ''hm'')),
          EvThinking think_close, EvText (JStr (js ''Hi''))]\<rparr>"
    by (simp add: processLines_def sample_line1 sample_line2)
  with malformed_line_skipped [OF bad, of initialStream "[data_marker @ payload_thought]"
      "[data_marker @ payload_text]" initialStream]
  show ?thesis by simp
qed

text \<open>
  Claim C2 fails on the axios path, where every byte chunk is decoded on its own by
  \<open>chunk.toString()\<close>. The bytes are the data line of a text part whose text is the character
  U+00E9, encoded as \<open>C3 A9\<close>. Delivered in two chunks that split between the two bytes, the
  callback receives a text of two replacement characters; delivered as one chunk, it
  receives the character. The premises state what \<open>JSON.parse\<close> returns for the two payloads.
\<close>

theorem axios_chunk_boundary_inside_character:
  assumes "Buffer_toString rt = utf8_toString"
      and "JSON_parse rt (payload_char [0xE9])
             = Some (envelope [JObj [(js ''text'', JStr [0xE9])]] None)"
      and "JSON_parse rt (payload_char [0xFFFD, 0xFFFD])
             = Some (envelope [JObj [(js ''text'', JStr [0xFFFD, 0xFFFD])]] None)"
  shows "generateAssistantResponse rt
           (\<lambda>t r. AxiosStream [line_head @ [0xC3], [0xA9] @ line_tail] StreamEnded)
           (Some tok) requestBody accounts
         = (accounts, None, [EvText (JStr [0xFFFD, 0xFFFD])])
       \<and> generateAssistantResponse rt
           (\<lambda>t r. AxiosStream [line_head @ [0xC3] @ [0xA9] @ line_tail] StreamEnded)
           (Some tok) requestBody accounts
         = (accounts, None, [EvText (JStr [0xE9])])"
proof -
  have nl1: "nl \<notin> set (data_marker @ payload_char [0xFFFD, 0xFFFD])"
    by (simp add: payload_char_def data_marker_def nl_notin_js text_before_def text_after_def)
       (simp add: nl_def)
  have nl2: "nl \<notin> set (data_marker @ payload_char [0xE9])"
    by (simp add: payload_char_def data_marker_def nl_notin_js text_before_def text_after_def)
       (simp add: nl_def)
  have c1: "concat [utf8_toString (line_head @ [0xC3]), utf8_toString ([0xA9] @ line_tail)]
      = (data_marker @ payload_char [0xFFFD, 0xFFFD]) @ [nl]"
    unfolding decode_head decode_tail by (simp add: payload_char_def data_marker_def)
  have c2: "concat [utf8_toString (line_head @ [0xC3] @ [0xA9] @ line_tail)]
      = (data_marker @ payload_char [0xE9]) @ [nl]"
    unfolding decode_whole by (simp add: payload_char_def data_marker_def)
  have split: "processChunks rt [utf8_toString (line_head @ [0xC3]), utf8_toString ([0xA9] @ line_tail)]
        initialStream = callback (EvText (JStr [0xFFFD, 0xFFFD])) initialStream"
    unfolding processChunks_concat c1
    using processChunk_one_line [OF nl1, of rt] text_line [OF assms(3)] by simp
  have whole: "processChunks rt [utf8_toString (line_head @ [0xC3] @ [0xA9] @ line_tail)]
        initialStream = callback (EvText (JStr [0xE9])) initialStream"
    unfolding processChunks_concat c2
    using processChunk_one_line [OF nl2, of rt] text_line [OF assms(2)] by simp
  show ?thesis
    using split whole
    by (simp add: generateAssistantResponse_def assms(1) callback_def initialStream_def)
qed

text \<open>
  The premises hold for the sample runtime.
\<close>

theorem axios_chunk_boundary_inside_character_witness:
  "generateAssistantResponse sample_runtime
       (\<lambda>t r. AxiosStream [line_head @ [0xC3], [0xA9] @ line_tail] StreamEnded)
       (Some \<lparr>access_token = js ''a'', projectId = js ''p'', sessionId = js ''s''\<rparr>) () (\<lambda>t. True)
     = ((\<lambda>t. True), None, [EvText (JStr [0xFFFD, 0xFFFD])])
   \<and> generateAssistantResponse sample_runtime
       (\<lambda>t r. AxiosStream [line_head @ [0xC3] @ [0xA9] @ line_tail] StreamEnded)
       (Some \<lparr>access_token = js ''a'', projectId = js ''p'', sessionId = js ''s''\<rparr>) () (\<lambda>t. True)
     = ((\<lambda>t. True), None, [EvText (JStr [0xE9])])"
proof -
  have "Buffer_toString sample_runtime = utf8_toString"
    by (simp add: sample_runtime_def)
  from axios_chunk_boundary_inside_character [OF this sample_parse_char sample_parse_replaced]
  show ?thesis .
qed

lemma outlook_buffer: "outlook rt (s\<lparr>buffer := b\<rparr>) xs = outlook rt s xs"
  by (simp add: outlook_def)

lemma emitPart_outlook:
  assumes "p \<noteq> JNull"
  shows "\<exists>s'. emitPart rt p s = Some s' \<and> outlook rt s' xs = outlook rt s (signalOf p # xs)"
proof (cases "get_prop (js ''thought'') p = Some (JBool True)")
  case True
  with assms show ?thesis
    by (simp add: emitPart_def signalOf_def outlook_def callback_def Let_def)
next
  case False
  show ?thesis
  proof (cases "get_prop (js ''text'') p")
    case (Some t)
    with False assms show ?thesis
      by (simp add: emitPart_def signalOf_def outlook_def callback_def closeThinking_def)
  next
    case None
    show ?thesis
    proof (cases "get_prop (js ''functionCall'') p")
      case nofc: None
      with None False assms show ?thesis
        by (simp add: emitPart_def signalOf_def outlook_def)
    next
      case (Some fc)
      with None False assms show ?thesis
        by (cases "convertToToolCall rt fc (idsDrawn s)")
           (simp add: emitPart_def signalOf_def outlook_def)
    qed
  qed
qed

lemma emitParts_outlook:
  "JNull \<notin> set ps \<Longrightarrow>
     \<exists>s'. emitParts rt ps s = (True, s') \<and> outlook rt s' xs = outlook rt s (map signalOf ps @ xs)"
proof (induction ps arbitrary: s)
  case Nil
  show ?case by simp
next
  case (Cons p ps)
  then have "p \<noteq> JNull" "JNull \<notin> set ps" by auto
  from emitPart_outlook [OF this(1), of rt s "map signalOf ps @ xs"] obtain s1 where
    s1: "emitPart rt p s = Some s1"
        "outlook rt s1 (map signalOf ps @ xs) = outlook rt s (signalOf p # map signalOf ps @ xs)"
    by blast
  from Cons.IH [OF \<open>JNull \<notin> set ps\<close>, of s1] obtain s2 where
    "emitParts rt ps s1 = (True, s2)" "outlook rt s2 xs = outlook rt s1 (map signalOf ps @ xs)"
    by blast
  with s1 show ?case by simp
qed

lemma flush_outlook:
  "outlook rt (if fin \<and> toolCalls s \<noteq> []
               then (callback (EvToolCalls (toolCalls s)) (closeThinking s))\<lparr>toolCalls := []\<rparr>
               else s) xs
     = outlook rt s ((if fin then [OnFinish] else []) @ xs)"
  by (simp add: outlook_def callback_def closeThinking_def)

lemma line_outlook:
  assumes "carries rt line env"
  shows "outlook rt (parseAndEmitStreamChunk rt line s) xs = outlook rt s (signalsOf env @ xs)"
proof (cases "startsWith line data_marker")
  case False
  with assms show ?thesis
    by (simp add: carries_def parseAndEmitStreamChunk_def signalsOf_def)
next
  case True
  show ?thesis
  proof (cases "JSON_parse rt (drop 6 line)")
    case None
    with True assms show ?thesis
      by (simp add: carries_def parseAndEmitStreamChunk_def signalsOf_def)
  next
    case (Some data)
    let ?parts = "opt_prop (js ''parts'') (opt_prop (js ''content'') (firstCandidate data))"
    let ?fin = "truthy_opt (opt_prop (js ''finishReason'') (firstCandidate data))"
    from assms True Some have c: "data \<noteq> JNull" "JNull \<notin> set (fst env)"
      "?parts = Some (JArr (fst env)) \<or> (\<not> truthy_opt ?parts \<and> fst env = [])"
      "snd env = ?fin"
      by (simp_all add: carries_def Let_def)
    from emitParts_outlook [OF c(2), of rt s "(if ?fin then [OnFinish] else []) @ xs"]
    obtain s1 where s1: "emitParts rt (fst env) s = (True, s1)"
      "outlook rt s1 ((if ?fin then [OnFinish] else []) @ xs)
         = outlook rt s (map signalOf (fst env) @ (if ?fin then [OnFinish] else []) @ xs)"
      by blast
    have it: "iterateParts rt ?parts s = (True, s1)"
    proof (cases "?parts = Some (JArr (fst env))")
      case True
      with s1 show ?thesis by (simp add: iterateParts_def truthy_opt_def)
    next
      case False
      with c(3) have "\<not> truthy_opt ?parts" "fst env = []" by auto
      with s1 show ?thesis by (simp add: iterateParts_def)
    qed
    have "parseAndEmitStreamChunk rt line s =
        (if ?fin \<and> toolCalls s1 \<noteq> []
         then (callback (EvToolCalls (toolCalls s1)) (closeThinking s1))\<lparr>toolCalls := []\<rparr>
         else s1)"
      using True Some c(1) it by (simp add: parseAndEmitStreamChunk_def Let_def)
    then show ?thesis
      using flush_outlook [of rt ?fin s1 xs] s1(2) c(4) by (simp add: signalsOf_def)
  qed
qed

lemma lines_outlook:
  "list_all2 (carries rt) lines envelopes \<Longrightarrow>
     outlook rt (processLines rt lines s) xs = outlook rt s (concat (map signalsOf envelopes) @ xs)"
proof (induction lines envelopes arbitrary: s rule: list_all2_induct)
  case Nil
  show ?case by (simp add: processLines_def)
next
  case (Cons line lines env envelopes)
  have "processLines rt (line # lines) s = processLines rt lines (parseAndEmitStreamChunk rt line s)"
    by (simp add: processLines_def)
  then show ?case
    using Cons.IH [of "parseAndEmitStreamChunk rt line s"]
      line_outlook [OF Cons.hyps(1), of s "concat (map signalsOf envelopes) @ xs"]
    by simp
qed

lemma stream_lines:
  assumes "js_split nl (concat chunks) = lines @ [rest]"
  shows "processChunks rt chunks initialStream = processLines rt lines (initialStream\<lparr>buffer := rest\<rparr>)"
proof -
  have buf: "buffer initialStream = []" by (simp add: initialStream_def)
  have "processChunks rt chunks initialStream = processChunk rt (concat chunks) initialStream"
    by (rule processChunks_concat)
  also have "\<dots> = processLines rt lines (initialStream\<lparr>buffer := rest\<rparr>)"
    using assms by (simp add: processChunk_def buf)
  finally show ?thesis .
qed

lemma stream_expected:
  assumes "js_split nl (concat chunks) = lines @ [rest]"
      and "list_all2 (carries rt) lines envelopes"
  shows "emitted (processChunks rt chunks initialStream)
           = expected rt False [] 0 (concat (map signalsOf envelopes))"
proof -
  have "emitted (processChunks rt chunks initialStream)
      = outlook rt (processLines rt lines (initialStream\<lparr>buffer := rest\<rparr>)) []"
    by (simp add: stream_lines [OF assms(1)] outlook_def)
  also have "\<dots> = outlook rt (initialStream\<lparr>buffer := rest\<rparr>) (concat (map signalsOf envelopes))"
    using lines_outlook [OF assms(2), of "initialStream\<lparr>buffer := rest\<rparr>" "[]"] by simp
  finally show ?thesis by (simp add: outlook_def initialStream_def)
qed


lemma handler_frames:
  assumes "send t requestBody = RequesterStream (Some 200) chunks StreamEnded
     \<or> (send t requestBody = AxiosStream bs StreamEnded \<and> chunks = map (Buffer_toString rt) bs)"
  shows "(case generateAssistantResponse rt send (Some t) requestBody accounts of
            (accounts', err, evs) \<Rightarrow> chatCompletionsStream err evs)
         = map deltaOf (emitted (processChunks rt chunks initialStream))
           @ [Finish (if list_ex isToolCalls (emitted (processChunks rt chunks initialStream))
                      then js ''tool_calls'' else js ''stop''), Done]"
  using assms
  by (auto simp add: generateAssistantResponse_def chatCompletionsStream_def endStream_def Let_def)

text \<open>
  Claim C5. Let the chunks of a stream, put together, consist of the complete lines
  \<open>lines\<close> and an unfinished rest, where every line carries the parts and the finish flag
  of its envelope. Then the events emitted are exactly those that the specification asks
  for: each thought part opens thinking when it is not open and emits its content, each
  text part closes thinking when it is open and emits its text, a \<open>functionCall\<close> part
  emits nothing, and a finish signal with tool calls buffered closes thinking and emits
  one tool-calls event with all of them. For every input the events keep the order of
  \<open>think_run\<close>; a line either emits no tool-calls event and only appends to the buffer, or
  it carries a finish signal and emits, last, one tool-calls event that holds every
  buffered call and leaves the buffer empty. When the transport delivers the chunks and
  ends, the requester with status 200 or axios as buffers that are decoded, the handler
  writes the events as frames and ends the response with the finish reason \<open>tool_calls\<close>
  if a tool-calls event was emitted and \<open>stop\<close> otherwise, then with \<open>[DONE]\<close>.
\<close>

theorem streamed_events_follow_parts:
  assumes "js_split nl (concat chunks) = lines @ [rest]"
      and "list_all2 (carries rt) lines envelopes"
  shows "emitted (processChunks rt chunks initialStream)
           = expected rt False [] 0 (concat (map signalsOf envelopes))
     \<and> bracketed (emitted (processChunks rt chunks initialStream))
     \<and> (\<exists>new added.
          emitted (parseAndEmitStreamChunk rt line s) = emitted s @ new \<and>
          ((\<not> list_ex isToolCalls new
              \<and> toolCalls (parseAndEmitStreamChunk rt line s) = toolCalls s @ added)
           \<or> (finishSignal rt line \<and> toolCalls s @ added \<noteq> []
               \<and> toolCalls (parseAndEmitStreamChunk rt line s) = []
               \<and> (\<exists>pre. new = pre @ [EvToolCalls (toolCalls s @ added)]
                        \<and> \<not> list_ex isToolCalls pre))))
     \<and> (send t requestBody = RequesterStream (Some 200) chunks StreamEnded
          \<or> (send t requestBody = AxiosStream bs StreamEnded
               \<and> chunks = map (Buffer_toString rt) bs) \<longrightarrow>
          (case generateAssistantResponse rt send (Some t) requestBody accounts of
             (accounts', err, evs) \<Rightarrow> chatCompletionsStream err evs)
          = map deltaOf (expected rt False [] 0 (concat (map signalsOf envelopes)))
            @ [Finish (if list_ex isToolCalls
                            (expected rt False [] 0 (concat (map signalsOf envelopes)))
                       then js ''tool_calls'' else js ''stop''), Done])"
proof -
  have a: "emitted (processChunks rt chunks initialStream)
           = expected rt False [] 0 (concat (map signalsOf envelopes))"
    using assms by (rule stream_expected)
  have b: "bracketed (emitted (processChunks rt chunks initialStream))"
    by (rule bracketed_stream)
  have d: "send t requestBody = RequesterStream (Some 200) chunks StreamEnded
          \<or> (send t requestBody = AxiosStream bs StreamEnded
               \<and> chunks = map (Buffer_toString rt) bs) \<longrightarrow>
          (case generateAssistantResponse rt send (Some t) requestBody accounts of
             (accounts', err, evs) \<Rightarrow> chatCompletionsStream err evs)
          = map deltaOf (expected rt False [] 0 (concat (map signalsOf envelopes)))
            @ [Finish (if list_ex isToolCalls
                            (expected rt False [] 0 (concat (map signalsOf envelopes)))
                       then js ''tool_calls'' else js ''stop''), Done]"
    using handler_frames [of send t requestBody chunks bs rt accounts] by (simp only: a) blast
  from a b line_tool_calls [of rt line s] d show ?thesis by (intro conjI)
qed

lemma carries_envelope:
  assumes "JSON_parse rt p = Some (envelope ps fin)" "JNull \<notin> set ps"
  shows "carries rt (data_marker @ p) (ps, truthy_opt fin)"
  unfolding carries_def
  by (simp only: startsWith_marker drop_marker assms option.case envelope_not_null
      parts_envelope finish_envelope Let_def fst_conv snd_conv simp_thms if_True not_False_eq_True)

text \<open>
  The scenario of the specification: a thought line in one chunk, then a text line and a
  line with a tool call and a finish reason in a second chunk.
\<close>

theorem streamed_events_follow_parts_witness:
  "emitted (processChunks sample_runtime
      [data_marker @ payload_thought @ [nl],
       data_marker @ payload_text @ [nl] @ data_marker @ payload_call @ [nl]] initialStream)
     = [EvThinking think_open, EvThinking (JStr (js ''hm'')), EvThinking think_close,
        EvText (JStr (js ''Hi'')), EvToolCalls [sample_call]]
   \<and> (case generateAssistantResponse sample_runtime
            (\<lambda>t r. RequesterStream (Some 200)
               [data_marker @ payload_thought @ [nl],
                data_marker @ payload_text @ [nl] @ data_marker @ payload_call @ [nl]] StreamEnded)
            (Some sample_token) () (\<lambda>t. True) of
         (accounts', err, evs) \<Rightarrow> chatCompletionsStream err evs)
     = [DeltaContent think_open, DeltaContent (JStr (js ''hm'')), DeltaContent think_close,
        DeltaContent (JStr (js ''Hi'')), DeltaToolCalls [sample_call],
        Finish (js ''tool_calls''), Done]"
proof -
  let ?chunks = "[data_marker @ payload_thought @ [nl],
       data_marker @ payload_text @ [nl] @ data_marker @ payload_call @ [nl]]"
  let ?lines = "[data_marker @ payload_thought, data_marker @ payload_text, data_marker @ payload_call]"
  let ?envelopes = "[([part_thought], False), ([JObj [(js ''text'', JStr (js ''Hi''))]], False),
      ([part_call], True)]"
  let ?send = "\<lambda>(t::token) (r::unit). RequesterStream (Some 200) ?chunks StreamEnded"
  have split: "js_split nl (concat ?chunks) = ?lines @ [[]]"
    using sample_split by simp
  have c1: "carries sample_runtime (data_marker @ payload_thought) ([part_thought], False)"
    using carries_envelope [OF sample_parse_thought] by (simp add: part_thought_def truthy_opt_def)
  have c2: "carries sample_runtime (data_marker @ payload_text)
      ([JObj [(js ''text'', JStr (js ''Hi''))]], False)"
    using carries_envelope [OF sample_parse_text] by (simp add: truthy_opt_def)
  have c3: "carries sample_runtime (data_marker @ payload_call) ([part_call], True)"
    using carries_envelope [OF sample_parse_call] by (simp add: part_call_def truthy_opt_def)
  from c1 c2 c3 have all: "list_all2 (carries sample_runtime) ?lines ?envelopes"
    by simp
  have ex: "expected sample_runtime False [] 0 (concat (map signalsOf ?envelopes))
      = [EvThinking think_open, EvThinking (JStr (js ''hm'')), EvThinking think_close,
         EvText (JStr (js ''Hi'')), EvToolCalls [sample_call]]"
    by (simp add: signalsOf_def signalOf_def part_thought_def part_call_def sample_convert)
  note inst = streamed_events_follow_parts [OF split all, of "[]" initialStream ?send
      sample_token "()" "[]" "\<lambda>t. True"]
  from inst have a: "emitted (processChunks sample_runtime ?chunks initialStream)
      = expected sample_runtime False [] 0 (concat (map signalsOf ?envelopes))"
    by blast
  from inst have b: "(case generateAssistantResponse sample_runtime ?send (Some sample_token) ()
            (\<lambda>t. True) of (accounts', err, evs) \<Rightarrow> chatCompletionsStream err evs)
      = map deltaOf (expected sample_runtime False [] 0 (concat (map signalsOf ?envelopes)))
        @ [Finish (if list_ex isToolCalls
                        (expected sample_runtime False [] 0 (concat (map signalsOf ?envelopes)))
                   then js ''tool_calls'' else js ''stop''), Done]"
    by blast
  from a b show ?thesis unfolding ex by simp
qed

subsection \<open>Errors of a request\<close>

lemma handleApiError_body:
  "errorBody rt e = Inr body \<Longrightarrow>
     handleApiError rt e t accounts =
       (if errorStatus e = StatusCode 403
        then (accounts(t := False), AccountDisabledError body)
        else (accounts, ApiRequestError (errorStatus e) body))"
  by (simp add: handleApiError_def disableCurrentToken_def)

lemma handleApiError_thrown:
  "errorBody rt e = Inl err \<Longrightarrow> handleApiError rt e t accounts = (accounts, err)"
  by (simp add: handleApiError_def)

lemma errorBody_not_iterable:
  "e_response e = Some r \<Longrightarrow> r_data r = DataValue (Some (JObj props)) \<Longrightarrow>
   truthy_opt (map_of props (js ''readable'')) \<Longrightarrow> errorBody rt e = Inl NotAsyncIterableError"
  by (simp add: errorBody_def opt_prop_def)

lemma errorBody_failed_stream:
  "e_response e = Some r \<Longrightarrow> r_data r = DataStream chunks (Some message) \<Longrightarrow>
   errorBody rt e = Inl (BodyStreamError message)"
  by (simp add: errorBody_def)

lemma errorBody_stream:
  "e_response e = Some r \<Longrightarrow> r_data r = DataStream chunks None \<Longrightarrow>
   errorBody rt e = Inr (Buffer_toString rt (concat chunks))"
  by (simp add: errorBody_def)

lemma errorBody_no_response:
  "e_response e = None \<Longrightarrow> errorBody rt e = Inr (e_message e)"
  by (simp add: errorBody_def)

lemma handleApiError_frame:
  "t' \<noteq> t \<Longrightarrow> fst (handleApiError rt e t accounts) t' = accounts t'"
  by (simp add: handleApiError_def disableCurrentToken_def Let_def split: sum.splits)

lemma failWith_frame:
  "t' \<noteq> t \<Longrightarrow> fst (failWith rt e t accounts evs) t' = accounts t'"
  using handleApiError_frame [of t' t rt e accounts]
  by (cases "handleApiError rt e t accounts") (simp add: failWith_def)

lemma generateAssistantResponse_frame:
  "t' \<noteq> t \<Longrightarrow> fst (generateAssistantResponse rt send (Some t) requestBody accounts) t' = accounts t'"
  by (simp add: generateAssistantResponse_def failWith_frame Let_def
      split: transport_outcome.splits stream_end.splits)

lemma failWith_cases:
  "failWith rt e t accounts evs =
     (fst (handleApiError rt e t accounts), Some (snd (handleApiError rt e t accounts)), evs)"
  by (simp add: failWith_def split: prod.splits)

lemma generateAssistantResponse_outcome:
  "generateAssistantResponse rt send (Some t) requestBody accounts =
     (case send t requestBody of
        AxiosRejected e \<Rightarrow> failWith rt e t accounts []
      | AxiosStream chunks StreamEnded \<Rightarrow>
          (accounts, None, emitted (processChunks rt (map (Buffer_toString rt) chunks) initialStream))
      | AxiosStream chunks (StreamFailed e) \<Rightarrow>
          failWith rt e t accounts
            (emitted (processChunks rt (map (Buffer_toString rt) chunks) initialStream))
      | RequesterStream statusCode chunks fin \<Rightarrow>
          if statusCode = Some 200 then
            (case fin of
               StreamEnded \<Rightarrow> (accounts, None, emitted (processChunks rt chunks initialStream))
             | StreamFailed e \<Rightarrow>
                 failWith rt e t accounts (emitted (processChunks rt chunks initialStream)))
          else
            (case fin of
               StreamEnded \<Rightarrow>
                 failWith rt \<lparr>e_response = None, e_status = statusCode, e_message = concat chunks\<rparr>
                   t accounts []
             | StreamFailed e \<Rightarrow> failWith rt e t accounts []))"
  by (simp add: generateAssistantResponse_def Let_def split: transport_outcome.splits stream_end.splits)


text \<open>
  Claim C7 fails where reading the error body throws: \<open>handleApiError\<close> reads the body
  before it tests the status. For a response with status 403 whose parsed body is
  \<open>{readable: true}\<close>, \<open>for await\<close> throws a \<open>TypeError\<close>; for a rejected request with
  status 403 whose body stream fails, the error of the stream is thrown. In both cases the
  account stays enabled, and what is thrown carries neither the status nor a body. Whatever
  is thrown while the body is read leaves the pool as it was. When the body is read, status
  403 disables the account of the token and the error carries the body, and any other
  status leaves the pool and the error carries status and body. Every failure of a call
  ends in \<open>handleApiError\<close>: a rejected request, a stream that fails after events were
  emitted, and a status other than 200 reported by the requester, whose chunks are the
  body. The call reads the transport only at the selected token, so no other account is
  tried, and it changes the flag of no other account.
\<close>

theorem authorization_rejection_lost_when_body_read_throws:
  "handleApiError rt
       \<lparr>e_response = Some \<lparr>r_status = Some 403,
                           r_data = DataValue (Some (JObj [(js ''readable'', JBool True)]))\<rparr>,
        e_status = es, e_message = m\<rparr> t accounts
     = (accounts, NotAsyncIterableError)
   \<and> generateAssistantResponse rt
       (\<lambda>t r. AxiosRejected
          \<lparr>e_response = Some \<lparr>r_status = Some 403, r_data = DataStream chunks (Some failure)\<rparr>,
           e_status = es, e_message = m\<rparr>)
       (Some t) requestBody accounts
     = (accounts, Some (BodyStreamError failure), [])
   \<and> (errorBody rt e = Inl err \<longrightarrow> handleApiError rt e t accounts = (accounts, err))
   \<and> (errorBody rt e = Inr body \<and> errorStatus e = StatusCode 403 \<longrightarrow>
        handleApiError rt e t accounts = (accounts(t := False), AccountDisabledError body))
   \<and> (errorBody rt e = Inr body \<and> errorStatus e \<noteq> StatusCode 403 \<longrightarrow>
        handleApiError rt e t accounts = (accounts, ApiRequestError (errorStatus e) body))
   \<and> (send t requestBody = AxiosRejected e \<longrightarrow>
        generateAssistantResponse rt send (Some t) requestBody accounts
          = (fst (handleApiError rt e t accounts), Some (snd (handleApiError rt e t accounts)), []))
   \<and> (send t requestBody = AxiosStream bs (StreamFailed e) \<longrightarrow>
        generateAssistantResponse rt send (Some t) requestBody accounts
          = (fst (handleApiError rt e t accounts), Some (snd (handleApiError rt e t accounts)),
             emitted (processChunks rt (map (Buffer_toString rt) bs) initialStream)))
   \<and> (send t requestBody = RequesterStream statusCode cs (StreamFailed e) \<longrightarrow>
        generateAssistantResponse rt send (Some t) requestBody accounts
          = (fst (handleApiError rt e t accounts), Some (snd (handleApiError rt e t accounts)),
             if statusCode = Some 200 then emitted (processChunks rt cs initialStream) else []))
   \<and> (send t requestBody = RequesterStream statusCode cs StreamEnded \<and> statusCode \<noteq> Some 200 \<longrightarrow>
        generateAssistantResponse rt send (Some t) requestBody accounts
          = (if statusCode = Some 403
             then (accounts(t := False), Some (AccountDisabledError (concat cs)), [])
             else (accounts,
                   Some (ApiRequestError (status_or statusCode StatusUnknown) (concat cs)), [])))
   \<and> (send t requestBody = send' t requestBody \<longrightarrow>
        generateAssistantResponse rt send (Some t) requestBody accounts
          = generateAssistantResponse rt send' (Some t) requestBody accounts)
   \<and> (t' \<noteq> t \<longrightarrow>
        fst (generateAssistantResponse rt send (Some t) requestBody accounts) t' = accounts t')"
proof -
  let ?e1 = "\<lparr>e_response = Some \<lparr>r_status = Some 403,
                           r_data = DataValue (Some (JObj [(js ''readable'', JBool True)]))\<rparr>,
        e_status = es, e_message = m\<rparr>"
  let ?e2 = "\<lparr>e_response = Some \<lparr>r_status = Some 403, r_data = DataStream chunks (Some failure)\<rparr>,
           e_status = es, e_message = m\<rparr>"
  have a: "handleApiError rt ?e1 t accounts = (accounts, NotAsyncIterableError)"
    by (rule handleApiError_thrown) (simp add: errorBody_def opt_prop_def truthy_opt_def)
  have "handleApiError rt ?e2 t accounts = (accounts, BodyStreamError failure)"
    by (rule handleApiError_thrown) (simp add: errorBody_def)
  then have b: "generateAssistantResponse rt (\<lambda>t r. AxiosRejected ?e2) (Some t) requestBody accounts
      = (accounts, Some (BodyStreamError failure), [])"
    by (simp add: generateAssistantResponse_outcome failWith_cases)
  have c: "errorBody rt e = Inl err \<longrightarrow> handleApiError rt e t accounts = (accounts, err)"
    by (simp add: handleApiError_thrown)
  have d: "errorBody rt e = Inr body \<and> errorStatus e = StatusCode 403 \<longrightarrow>
        handleApiError rt e t accounts = (accounts(t := False), AccountDisabledError body)"
    by (simp add: handleApiError_body)
  have e: "errorBody rt e = Inr body \<and> errorStatus e \<noteq> StatusCode 403 \<longrightarrow>
        handleApiError rt e t accounts = (accounts, ApiRequestError (errorStatus e) body)"
    by (simp add: handleApiError_body)
  have f: "send t requestBody = AxiosRejected e \<longrightarrow>
        generateAssistantResponse rt send (Some t) requestBody accounts
          = (fst (handleApiError rt e t accounts), Some (snd (handleApiError rt e t accounts)), [])"
    by (simp add: generateAssistantResponse_outcome failWith_cases)
  have g: "send t requestBody = AxiosStream bs (StreamFailed e) \<longrightarrow>
        generateAssistantResponse rt send (Some t) requestBody accounts
          = (fst (handleApiError rt e t accounts), Some (snd (handleApiError rt e t accounts)),
             emitted (processChunks rt (map (Buffer_toString rt) bs) initialStream))"
    by (simp add: generateAssistantResponse_outcome failWith_cases)
  have h: "send t requestBody = RequesterStream statusCode cs (StreamFailed e) \<longrightarrow>
        generateAssistantResponse rt send (Some t) requestBody accounts
          = (fst (handleApiError rt e t accounts), Some (snd (handleApiError rt e t accounts)),
             if statusCode = Some 200 then emitted (processChunks rt cs initialStream) else [])"
    by (simp add: generateAssistantResponse_outcome failWith_cases)
  let ?r = "\<lparr>e_response = None, e_status = statusCode, e_message = concat cs\<rparr>"
  have st: "errorStatus ?r = status_or statusCode StatusUnknown"
    by (simp add: errorStatus_def status_or_def)
  have st403: "status_or statusCode StatusUnknown = StatusCode 403 \<longleftrightarrow> statusCode = Some 403"
    by (auto simp add: status_or_def split: option.splits)
  have "handleApiError rt ?r t accounts =
      (if statusCode = Some 403 then (accounts(t := False), AccountDisabledError (concat cs))
       else (accounts, ApiRequestError (status_or statusCode StatusUnknown) (concat cs)))"
    using handleApiError_body [of rt ?r "concat cs" t accounts]
    by (simp add: errorBody_no_response st st403)
  then have i: "send t requestBody = RequesterStream statusCode cs StreamEnded \<and> statusCode \<noteq> Some 200 \<longrightarrow>
        generateAssistantResponse rt send (Some t) requestBody accounts
          = (if statusCode = Some 403
             then (accounts(t := False), Some (AccountDisabledError (concat cs)), [])
             else (accounts,
                   Some (ApiRequestError (status_or statusCode StatusUnknown) (concat cs)), []))"
    by (simp add: generateAssistantResponse_outcome failWith_cases)
  have j: "send t requestBody = send' t requestBody \<longrightarrow>
        generateAssistantResponse rt send (Some t) requestBody accounts
          = generateAssistantResponse rt send' (Some t) requestBody accounts"
    by (simp add: generateAssistantResponse_def)
  have k: "t' \<noteq> t \<longrightarrow>
        fst (generateAssistantResponse rt send (Some t) requestBody accounts) t' = accounts t'"
    by (simp add: generateAssistantResponse_frame)
  from a b c d e f g h i j k show ?thesis by (intro conjI)
qed

text \<open>
  A response with status 403 and the parsed body \<open>{readable: true}\<close>: the account stays
  enabled. A request rejected with status 403 whose body stream delivers \<open>denied\<close>: the
  account is disabled. A status 500 reported by the requester with the body \<open>oops\<close>.
\<close>

theorem authorization_rejection_lost_when_body_read_throws_witness:
  "handleApiError sample_runtime
       \<lparr>e_response = Some \<lparr>r_status = Some 403,
                           r_data = DataValue (Some (JObj [(js ''readable'', JBool True)]))\<rparr>,
        e_status = None, e_message = js ''Request failed with status code 403''\<rparr>
       sample_token (\<lambda>t. True)
     = ((\<lambda>t. True), NotAsyncIterableError)
   \<and> generateAssistantResponse sample_runtime
       (\<lambda>t r. AxiosRejected
          \<lparr>e_response = Some \<lparr>r_status = Some 403,
                              r_data = DataStream [ascii ''den'', ascii ''ied''] None\<rparr>,
           e_status = None, e_message = js ''Request failed with status code 403''\<rparr>)
       (Some sample_token) () (\<lambda>t. True)
     = ((\<lambda>t. True)(sample_token := False), Some (AccountDisabledError (js ''denied'')), [])
   \<and> generateAssistantResponse sample_runtime
       (\<lambda>t r. RequesterStream (Some 500) [js ''oo'', js ''ps''] StreamEnded)
       (Some sample_token) () (\<lambda>t. True)
     = ((\<lambda>t. True), Some (ApiRequestError (StatusCode 500) (js ''oops'')), [])"
proof -
  let ?e = "\<lparr>e_response = Some \<lparr>r_status = Some 403,
                              r_data = DataStream [ascii ''den'', ascii ''ied''] None\<rparr>,
           e_status = None, e_message = js ''Request failed with status code 403''\<rparr>"
  let ?send = "\<lambda>(t::token) (r::unit). AxiosRejected ?e"
  let ?send5 = "\<lambda>(t::token) (r::unit). RequesterStream (Some 500) [js ''oo'', js ''ps''] StreamEnded"
  have s403: "errorStatus ?e = StatusCode 403"
    by (simp add: errorStatus_def status_or_def)
  have body: "errorBody sample_runtime ?e = Inr (js ''denied'')"
    by (simp add: errorBody_def sample_runtime_def utf8_toString_def utf8_lead_def utf8_idle_def
        utf16_units_def ascii_def js_def)
  note inst = authorization_rejection_lost_when_body_read_throws [of sample_runtime None
      "js ''Request failed with status code 403''" sample_token "\<lambda>t. True" "[]" "[]" "()"
      ?e NotAsyncIterableError "js ''denied''" ?send "[]" "None" "[]" ?send sample_token]
  note inst5 = authorization_rejection_lost_when_body_read_throws [of sample_runtime None
      "js ''Request failed with status code 403''" sample_token "\<lambda>t. True" "[]" "[]" "()"
      ?e NotAsyncIterableError "js ''denied''" ?send5 "[]" "Some 500" "[js ''oo'', js ''ps'']"
      ?send5 sample_token]
  from inst have a: "handleApiError sample_runtime
       \<lparr>e_response = Some \<lparr>r_status = Some 403,
                           r_data = DataValue (Some (JObj [(js ''readable'', JBool True)]))\<rparr>,
        e_status = None, e_message = js ''Request failed with status code 403''\<rparr>
       sample_token (\<lambda>t. True) = ((\<lambda>t. True), NotAsyncIterableError)"
    by blast
  from inst s403 body have h: "handleApiError sample_runtime ?e sample_token (\<lambda>t. True)
      = ((\<lambda>t. True)(sample_token := False), AccountDisabledError (js ''denied''))"
    by blast
  from inst have "generateAssistantResponse sample_runtime ?send (Some sample_token) () (\<lambda>t. True)
      = (fst (handleApiError sample_runtime ?e sample_token (\<lambda>t. True)),
         Some (snd (handleApiError sample_runtime ?e sample_token (\<lambda>t. True))), [])"
    by blast
  with h have b: "generateAssistantResponse sample_runtime ?send (Some sample_token) () (\<lambda>t. True)
      = ((\<lambda>t. True)(sample_token := False), Some (AccountDisabledError (js ''denied'')), [])"
    by simp
  from inst5 have c: "generateAssistantResponse sample_runtime ?send5 (Some sample_token) () (\<lambda>t. True)
      = ((\<lambda>t. True), Some (ApiRequestError (StatusCode 500) (js ''oops'')), [])"
    by (simp add: status_or_def js_def)
  from a b c show ?thesis by (intro conjI)
qed

subsection \<open>The web-search request\<close>

lemma hasWebSearchTool_member:
  assumes "claudeTools = Some (JArr ts)" "JObj props \<in> set ts"
    "map_of props (js ''name'') = Some (JStr (js ''web_search''))"
  shows "hasWebSearchTool claudeTools"
  using assms
  by (auto simp add: hasWebSearchTool_def list_ex_iff opt_prop_def intro!: bexI [of _ "JObj props"])

lemma getSignatureContext_convert:
  "getSignatureContext (env\<lparr>convertClaudeToolsToAntigravity := convert'\<rparr>) s m h
     = getSignatureContext env s m h"
  by (simp add: getSignatureContext_def Let_def split: option.splits)

lemma scanItem_convert:
  "scanItem (env\<lparr>convertClaudeToolsToAntigravity := convert'\<rparr>) e c it a = scanItem env e c it a"
  by (cases it) (simp_all add: processToolName_def)

lemma scanContent_convert:
  "scanContent (env\<lparr>convertClaudeToolsToAntigravity := convert'\<rparr>) e c content
     = scanContent env e c content"
proof -
  have "(\<lambda>a item. scanItem (env\<lparr>convertClaudeToolsToAntigravity := convert'\<rparr>) e c item a)
      = (\<lambda>a item. scanItem env e c item a)"
    by (intro ext) (rule scanItem_convert)
  then show ?thesis by (cases content) (simp_all add: scanContent_def)
qed

lemma convertMessage_convert:
  "convertMessage (env\<lparr>convertClaudeToolsToAntigravity := convert'\<rparr>) e m s h
     = convertMessage env e m s h"
  by (intro ext)
     (simp add: convertMessage_def handleClaudeAssistantMessage_def getSignatureContext_convert
        scanContent_convert)

lemma claudeMessageToAntigravity_convert:
  "claudeMessageToAntigravity (env\<lparr>convertClaudeToolsToAntigravity := convert'\<rparr>) msgs e m s h
     = claudeMessageToAntigravity env msgs e m s h"
  by (simp add: claudeMessageToAntigravity_def convertMessage_convert)

lemma buildSystemPromptParts_convert:
  "buildSystemPromptParts (env\<lparr>convertClaudeToolsToAntigravity := convert'\<rparr>) sysPrompt
     = buildSystemPromptParts env sysPrompt"
  by (cases "userPromptParts sysPrompt") (simp_all add: buildSystemPromptParts_def Let_def)

lemma buildSystemInstruction_convert:
  "buildSystemInstruction (env\<lparr>convertClaudeToolsToAntigravity := convert'\<rparr>) sysPrompt
     = buildSystemInstruction env sysPrompt"
  by (cases "buildSystemPromptParts env sysPrompt")
     (simp_all add: buildSystemInstruction_def buildSystemPromptParts_convert)

lemma buildRequestBody_failure:
  "buildRequestBody env cs tools genConfig session sysPrompt isWebSearch tok actualModelName = Inl e
     \<longleftrightarrow> buildSystemInstruction env sysPrompt = Inl e"
  by (simp add: buildRequestBody_def Let_def split: sum.splits option.splits)

lemma buildRequestBody_web_search:
  assumes "buildRequestBody env cs tools (Some gc) session sysPrompt True tok actualModelName = Inr req"
  shows "request_tools req = Some [GoogleSearch 5] \<and> toolConfig req = None
     \<and> model req = js ''gemini-2.5-flash''
     \<and> generationConfig req = Some (gc\<lparr>candidateCount := Some 1\<rparr>)
     \<and> requestType req = js ''web_search''"
  using assms
  by (auto simp add: buildRequestBody_def Let_def split: sum.splits option.splits)

text \<open>
  Claim C3. When the tool list is an array that holds a tool named \<open>web_search\<close>, the request
  built by \<open>generateClaudeRequestBody\<close> has the single \<open>googleSearch\<close> descriptor as its tools
  and no tool configuration, the model \<open>gemini-2.5-flash\<close>, the generation configuration with
  \<open>candidateCount\<close> set to 1, and the request type \<open>web_search\<close>. The client tools are not
  converted: the outcome is the same whatever the tool converter is. No request is built
  only when assembling the system prompt throws.
\<close>

theorem web_search_request:
  assumes "claudeTools = Some (JArr ts)"
      and "JObj props \<in> set ts"
      and "map_of props (js ''name'') = Some (JStr (js ''web_search''))"
  shows "(generateClaudeRequestBody env msgs modelName params claudeTools sysPrompt tok = Inr req
          \<longrightarrow> request_tools req = Some [GoogleSearch 5]
            \<and> toolConfig req = None
            \<and> model req = js ''gemini-2.5-flash''
            \<and> generationConfig req
                 = Some ((generateGenerationConfig env params (isEnableThinking env modelName)
                            (modelMapping env modelName))\<lparr>candidateCount := Some 1\<rparr>)
            \<and> requestType req = js ''web_search'')
       \<and> (generateClaudeRequestBody env msgs modelName params claudeTools sysPrompt tok = Inl e
          \<longleftrightarrow> buildSystemInstruction env sysPrompt = Inl e)
       \<and> generateClaudeRequestBody (env\<lparr>convertClaudeToolsToAntigravity := convert'\<rparr>)
            msgs modelName params claudeTools sysPrompt tok
           = generateClaudeRequestBody env msgs modelName params claudeTools sysPrompt tok"
proof -
  have ws: "hasWebSearchTool claudeTools"
    using assms by (rule hasWebSearchTool_member)
  let ?contents = "claudeMessageToAntigravity env msgs (isEnableThinking env modelName)
      (modelMapping env modelName) (sessionId tok) False"
  let ?gc = "generateGenerationConfig env params (isEnableThinking env modelName)
      (modelMapping env modelName)"
  have unfold: "\<And>env'. isEnableThinking env' = isEnableThinking env \<Longrightarrow>
      modelMapping env' = modelMapping env \<Longrightarrow>
      generateGenerationConfig env' = generateGenerationConfig env \<Longrightarrow>
      generateClaudeRequestBody env' msgs modelName params claudeTools sysPrompt tok
      = buildRequestBody env'
          (claudeMessageToAntigravity env' msgs (isEnableThinking env modelName)
             (modelMapping env modelName) (sessionId tok) False)
          [] (Some ?gc) (sessionId tok) sysPrompt True tok (modelMapping env modelName)"
    using ws by (simp add: generateClaudeRequestBody_def Let_def)
  have here: "generateClaudeRequestBody env msgs modelName params claudeTools sysPrompt tok
      = buildRequestBody env ?contents [] (Some ?gc) (sessionId tok) sysPrompt True tok
          (modelMapping env modelName)"
    by (rule unfold) simp_all
  have there: "generateClaudeRequestBody (env\<lparr>convertClaudeToolsToAntigravity := convert'\<rparr>)
        msgs modelName params claudeTools sysPrompt tok
      = buildRequestBody (env\<lparr>convertClaudeToolsToAntigravity := convert'\<rparr>) ?contents []
          (Some ?gc) (sessionId tok) sysPrompt True tok (modelMapping env modelName)"
    using unfold [of "env\<lparr>convertClaudeToolsToAntigravity := convert'\<rparr>"]
    by (simp add: claudeMessageToAntigravity_convert)
  have same: "buildRequestBody (env\<lparr>convertClaudeToolsToAntigravity := convert'\<rparr>) ?contents []
          (Some ?gc) (sessionId tok) sysPrompt True tok (modelMapping env modelName)
      = buildRequestBody env ?contents [] (Some ?gc) (sessionId tok) sysPrompt True tok
          (modelMapping env modelName)"
    by (simp add: buildRequestBody_def buildSystemInstruction_convert Let_def)
  show ?thesis
    using buildRequestBody_web_search [of env ?contents "[]" ?gc "sessionId tok" sysPrompt tok
        "modelMapping env modelName" req]
      buildRequestBody_failure [of env ?contents "[]" "Some ?gc" "sessionId tok" sysPrompt True tok
        "modelMapping env modelName" e]
    by (simp add: here there same)
qed

subsection \<open>Model turns\<close>

lemma pushModelMessage_cases:
  "pushModelMessage ps tcs hc ts =
     (if ts \<noteq> [] \<and> role (last ts) = Model \<and> tcs \<noteq> [] \<and> \<not> hc
      then butlast ts @ [(last ts)\<lparr>parts := parts (last ts) @ tcs\<rparr>]
      else ts @ [\<lparr>role = Model, parts = ps @ tcs\<rparr>])"
  by (cases ts rule: rev_cases) (simp_all add: pushModelMessage_def)

lemma in_dropWhile: "x \<in> set xs \<Longrightarrow> \<not> P x \<Longrightarrow> x \<in> set (dropWhile P xs)"
  by (induction xs) auto

lemma trimEnd_empty_iff: "trimEnd str = [] \<longleftrightarrow> (\<forall>c \<in> set str. js_whitespace c)"
  by (auto simp add: trimEnd_def dropWhile_eq_Nil_conv)

lemma trim_empty_iff: "trim str = [] \<longleftrightarrow> (\<forall>c \<in> set str. js_whitespace c)"
proof
  assume e: "trim str = []"
  show "\<forall>c \<in> set str. js_whitespace c"
  proof (rule ccontr)
    assume "\<not> (\<forall>c \<in> set str. js_whitespace c)"
    then obtain c where c: "c \<in> set str" "\<not> js_whitespace c" by blast
    then have "c \<in> set (rev str)" by simp
    with c have "c \<in> set (dropWhile js_whitespace (rev str))" by (simp add: in_dropWhile)
    then have "c \<in> set (trimEnd str)" by (simp add: trimEnd_def)
    with c have "c \<in> set (trim str)" by (simp add: trim_def in_dropWhile)
    with e show False by simp
  qed
next
  assume "\<forall>c \<in> set str. js_whitespace c"
  then have "trimEnd str = []" by (simp add: trimEnd_empty_iff)
  then show "trim str = []" by (simp add: trim_def)
qed

lemma hasContent_iff: "hasContent a \<longleftrightarrow> (\<exists>c \<in> set (textContent a). \<not> js_whitespace c)"
  by (auto simp add: hasContent_def trim_empty_iff)

lemma createFunctionCallPart_callSignature:
  "createFunctionCallPart i n args
     (if e then sig_or (sig_or sg (toolSignature ctx)) (reasoningSignature ctx) else None)
   = FunctionCallPart i n args (callSignature e ctx sg)"
  by (simp add: createFunctionCallPart_def callSignature_def Let_def sig_truthy_def)

lemma toolCallParts_foldl:
  "toolCallParts (foldl (\<lambda>a item. scanItem env e ctx item a) a items)
     = toolCallParts a @ callsOf env (callSignature e ctx) items"
proof (induction items arbitrary: a)
  case Nil
  show ?case by simp
next
  case (Cons item items)
  show ?case
    by (cases item)
       (simp_all add: Cons.IH Let_def processToolName_def createFunctionCallPart_callSignature)
qed

lemma toolCallParts_scanContent:
  "toolCallParts (scanContent env e ctx content) =
     (case content of ContentArray items \<Rightarrow> callsOf env (callSignature e ctx) items | _ \<Rightarrow> [])"
  by (cases content) (simp_all add: scanContent_def toolCallParts_foldl)

text \<open>
  Claim C9. Let \<open>calls\<close> be the tool-call parts of an assistant message, one for each
  \<open>tool_use\<close> item in order. The message has content exactly when its text holds a code unit
  that is not white space. When there are calls, no content, and the last backend turn is a
  model turn, the calls are appended to that turn and no turn is added. In every other case
  a new model turn is appended that holds the parts of the message followed by the calls.
\<close>

theorem tool_calls_merge_into_model_turn:
  "let ctx = getSignatureContext env session actualModelName hasTools;
       a = scanContent env enableThinking ctx (m_content message);
       calls = toolCallParts a;
       result = handleClaudeAssistantMessage env message ts enableThinking actualModelName
                  session hasTools
   in (hasContent a \<longleftrightarrow> (\<exists>c \<in> set (textContent a). \<not> js_whitespace c))
    \<and> (calls \<noteq> [] \<and> \<not> hasContent a \<and> ts \<noteq> [] \<and> role (last ts) = Model
         \<longrightarrow> result = butlast ts @ [(last ts)\<lparr>parts := parts (last ts) @ calls\<rparr>])
    \<and> (\<not> (calls \<noteq> [] \<and> \<not> hasContent a \<and> ts \<noteq> [] \<and> role (last ts) = Model)
         \<longrightarrow> result = ts @ [\<lparr>role = Model, parts = assistantParts enableThinking ctx a @ calls\<rparr>])
    \<and> (m_content message = ContentArray items
         \<longrightarrow> calls = callsOf env (callSignature enableThinking ctx) items)"
  unfolding Let_def handleClaudeAssistantMessage_def pushModelMessage_cases
  by (auto simp add: hasContent_iff toolCallParts_scanContent)

subsection \<open>Tool results\<close>

lemma pushFunctionResponse_cases:
  "pushFunctionResponse i n out ts = appendResponses [FunctionResponsePart i n out] ts"
  by (cases ts rule: rev_cases) (simp_all add: pushFunctionResponse_def appendResponses_def Let_def)

lemma findFunctionNameById_snoc_user:
  "role t = User \<Longrightarrow> findFunctionNameById i (ts @ [t]) = findFunctionNameById i ts"
  by (simp add: findFunctionNameById_def)

lemma findFunctionNameById_snoc_model:
  "role t = Model \<Longrightarrow> findFunctionNameById i (ts @ [t]) =
     (case findInParts i (parts t) of Some n \<Rightarrow> n | None \<Rightarrow> findFunctionNameById i ts)"
  by (simp add: findFunctionNameById_def split: option.splits)

lemma findFunctionNameById_appendResponses:
  "findFunctionNameById i (appendResponses frs ts) = findFunctionNameById i ts"
proof (cases ts rule: rev_cases)
  case Nil
  then show ?thesis
    by (simp add: appendResponses_def findFunctionNameById_def)
next
  case (snoc ts' t)
  have two: "\<And>u. role u = User \<Longrightarrow>
      findFunctionNameById i (ts' @ [t, u]) = findFunctionNameById i (ts' @ [t])"
    subgoal for u using findFunctionNameById_snoc_user [of u i "ts' @ [t]"] by simp
    done
  from snoc show ?thesis
    by (auto simp add: appendResponses_def findFunctionNameById_snoc_user two)
qed

lemma responsesOf_cong:
  "(\<And>i. findFunctionNameById i ts' = findFunctionNameById i ts) \<Longrightarrow>
     responsesOf ts' items = responsesOf ts items"
  by (induction ts items rule: responsesOf.induct) simp_all

lemma appendResponses_Nil [simp]: "appendResponses [] ts = ts"
  by (simp add: appendResponses_def)

lemma appendResponses_append:
  assumes "list_ex isFunctionResponse frs"
  shows "appendResponses frs2 (appendResponses frs ts) = appendResponses (frs @ frs2) ts"
proof (cases "frs2 = []")
  case True
  then show ?thesis by simp
next
  case False
  from assms have ne: "frs \<noteq> []" by auto
  show ?thesis
  proof (cases ts rule: rev_cases)
    case Nil
    with False ne assms show ?thesis by (simp add: appendResponses_def)
  next
    case (snoc ts' t)
    have bl: "\<And>u. butlast (ts' @ [t, u]) = ts' @ [t]"
      by (simp add: butlast_append)
    from snoc False ne assms show ?thesis by (simp add: appendResponses_def bl)
  qed
qed

lemma handleClaudeToolResult_foldl:
  "foldl (\<lambda>ms item. toolResultItem item ms) ts items = appendResponses (responsesOf ts items) ts"
proof (induction items arbitrary: ts)
  case Nil
  show ?case by simp
next
  case (Cons item items)
  show ?case
  proof (cases "isToolResult item")
    case False
    then show ?thesis by (cases item) (simp_all add: Cons.IH)
  next
    case True
    then obtain i c where item: "item = ToolResultItem i c" by (cases item) auto
    let ?fr = "FunctionResponsePart i (findFunctionNameById i ts) (resultText c)"
    let ?ts = "appendResponses [?fr] ts"
    have names: "responsesOf ?ts items = responsesOf ts items"
      by (rule responsesOf_cong) (rule findFunctionNameById_appendResponses)
    have "foldl (\<lambda>ms item. toolResultItem item ms) ts (item # items)
        = foldl (\<lambda>ms item. toolResultItem item ms) ?ts items"
      by (simp add: item pushFunctionResponse_cases)
    also have "\<dots> = appendResponses (responsesOf ?ts items) ?ts"
      by (rule Cons.IH)
    also have "\<dots> = appendResponses (?fr # responsesOf ts items) ts"
      using appendResponses_append [of "[?fr]" "responsesOf ts items" ts]
      by (simp add: names)
    finally show ?thesis by (simp add: item)
  qed
qed

lemma handleClaudeToolResult_cases:
  "handleClaudeToolResult message ts =
     (case m_content message of
        ContentArray items \<Rightarrow> appendResponses (responsesOf ts items) ts
      | _ \<Rightarrow> ts)"
  by (simp add: handleClaudeToolResult_def handleClaudeToolResult_foldl split: claude_content.splits)





lemma resultContent_string: "resultContent rt (Some (JStr str)) = Inr str"
  by (simp add: resultContent_def)


lemma resultContent_other:
  "(\<forall>str. content \<noteq> Some (JStr str)) \<Longrightarrow> (\<forall>cs. content \<noteq> Some (JArr cs)) \<Longrightarrow>
     resultContent rt content = Inr []"
  by (auto simp add: resultContent_def split: option.splits json.splits)

lemma resultContent_throws:
  "resultContent rt content = Inl e \<longleftrightarrow> (\<exists>cs. content = Some (JArr cs) \<and> JNull \<in> set cs)"
  by (cases e) (auto simp add: resultContent_def split: option.splits json.splits)

lemma handleRawItem_throws:
  "handleRawItem rt item ts = Inl e \<longleftrightarrow> throwsOn item"
proof (cases item)
  case RawNull
  then show ?thesis by (cases e) simp
next
  case (RawToolResult i c)
  have "throwsOn (RawToolResult i c) \<longleftrightarrow> (\<exists>cs. c = Some (JArr cs) \<and> JNull \<in> set cs)"
    by (cases "(RawToolResult i c)" rule: throwsOn.cases) auto
  with RawToolResult resultContent_throws [of rt c e] show ?thesis
    by (auto simp add: Let_def split: sum.splits)
next
  case RawOther
  then show ?thesis by simp
qed

lemma rawResponses_cong:
  "(\<And>i. findFunctionNameById i ts' = findFunctionNameById i ts) \<Longrightarrow>
     rawResponses rt ts' items = rawResponses rt ts items"
  by (induction rt ts items rule: rawResponses.induct) (simp_all split: sum.splits)

lemma handleRawItems_responses:
  "\<not> list_ex throwsOn items \<Longrightarrow>
     handleRawItems rt items ts = Inr (appendResponses (rawResponses rt ts items) ts)"
proof (induction items arbitrary: ts)
  case Nil
  show ?case by simp
next
  case (Cons item items)
  then have ok: "\<not> throwsOn item" "\<not> list_ex throwsOn items" by auto
  show ?case
  proof (cases item)
    case RawNull
    with ok show ?thesis by simp
  next
    case RawOther
    with Cons.IH [OF ok(2)] show ?thesis by simp
  next
    case (RawToolResult i c)
    from ok(1) handleRawItem_throws [of rt item ts] RawToolResult
    obtain out where out: "resultContent rt c = Inr out"
      by (cases "resultContent rt c") (auto simp add: Let_def)
    let ?fr = "FunctionResponsePart i (findFunctionNameById i ts) out"
    let ?ts = "appendResponses [?fr] ts"
    have names: "rawResponses rt ?ts items = rawResponses rt ts items"
      by (rule rawResponses_cong) (rule findFunctionNameById_appendResponses)
    have "handleRawItems rt (item # items) ts = handleRawItems rt items ?ts"
      by (simp add: RawToolResult out pushFunctionResponse_cases)
    also have "\<dots> = Inr (appendResponses (rawResponses rt ?ts items) ?ts)"
      by (rule Cons.IH [OF ok(2)])
    also have "\<dots> = Inr (appendResponses (?fr # rawResponses rt ts items) ts)"
      using appendResponses_append [of "[?fr]" "rawResponses rt ts items" ts]
      by (simp add: names)
    finally show ?thesis by (simp add: RawToolResult out)
  qed
qed




lemma get_prop_rawEntry:
  "get_prop (js ''type'') (rawEntry x) = Some (JStr (fst x))"
  "get_prop (js ''text'') (rawEntry x) = map_option JStr (snd x)"
  by (cases "snd x"; simp add: rawEntry_def)+

lemma resultContent_rawContent: "resultContent rt (rawContent c) = Inr (resultText c)"
proof (cases c)
  case (ResultString str)
  then show ?thesis by (simp add: resultContent_def resultText_def)
next
  case (ResultArray xs)
  have nonull: "JNull \<notin> set (map rawEntry xs)" by (auto simp add: rawEntry_def)
  have "concat (map (\<lambda>c. joinText rt (get_prop (js ''text'') c)) (filter isTextEntry (map rawEntry xs)))
      = concat (map (\<lambda>(ty, t). str_or t []) (filter (\<lambda>(ty, t). ty = js ''text'') xs))"
  proof (induction xs)
    case Nil
    show ?case by simp
  next
    case (Cons x xs)
    obtain ty t where x: "x = (ty, t)" by (cases x)
    have "joinText rt (map_option JStr t) = str_or t []"
      by (cases t) (simp_all add: joinText_def str_or_def)
    with Cons x show ?case
      by (simp add: isTextEntry_def get_prop_rawEntry)
  qed
  with ResultArray nonull show ?thesis
    by (simp add: resultContent_def resultText_def del: set_map)
next
  case ResultOther
  then show ?thesis by (simp add: resultContent_def resultText_def)
qed

lemma rawOf_never_throws: "\<not> list_ex throwsOn (map rawOf items)"
proof (induction items)
  case Nil
  show ?case by simp
next
  case (Cons item items)
  have "\<not> throwsOn (rawOf item)"
  proof (cases item)
    case (ToolResultItem i c)
    then show ?thesis by (cases c) (auto simp add: rawEntry_def)
  qed simp_all
  with Cons show ?case by simp
qed

lemma rawResponses_rawOf: "rawResponses rt ts (map rawOf items) = responsesOf ts items"
  by (induction ts items rule: responsesOf.induct) (simp_all add: resultContent_rawContent)

lemma typed_items_as_sent:
  "handleClaudeToolResult_raw rt (Some (map rawOf items)) ts
     = Inr (handleClaudeToolResult \<lparr>m_role = r, m_content = ContentArray items\<rparr> ts)"
  by (simp add: handleClaudeToolResult_raw_def handleRawItems_responses [OF rawOf_never_throws]
      rawResponses_rawOf handleClaudeToolResult_cases)





lemma extends_refl: "extends ts ts"
  by (simp add: extends_def)

lemma extends_trans: "extends ts ts1 \<Longrightarrow> extends ts1 ts2 \<Longrightarrow> extends ts ts2"
  unfolding extends_def
proof (intro conjI allI impI)
  assume a: "length ts \<le> length ts1 \<and>
      (\<forall>i<length ts. role (ts1 ! i) = role (ts ! i) \<and> (\<exists>extra. parts (ts1 ! i) = parts (ts ! i) @ extra))"
    and b: "length ts1 \<le> length ts2 \<and>
      (\<forall>i<length ts1. role (ts2 ! i) = role (ts1 ! i) \<and> (\<exists>extra. parts (ts2 ! i) = parts (ts1 ! i) @ extra))"
  show "length ts \<le> length ts2" using a b by simp
  fix i assume i: "i < length ts"
  with a have i1: "i < length ts1" by simp
  from a i obtain e1 where e1: "role (ts1 ! i) = role (ts ! i)" "parts (ts1 ! i) = parts (ts ! i) @ e1"
    by blast
  from b i1 obtain e2 where e2: "role (ts2 ! i) = role (ts1 ! i)" "parts (ts2 ! i) = parts (ts1 ! i) @ e2"
    by blast
  show "role (ts2 ! i) = role (ts ! i)" using e1 e2 by simp
  show "\<exists>extra. parts (ts2 ! i) = parts (ts ! i) @ extra" using e1 e2 by simp
qed

lemma extends_append: "extends ts (ts @ new)"
  by (simp add: extends_def nth_append)

lemma extends_last:
  "extends ts (butlast ts @ [(last ts)\<lparr>parts := parts (last ts) @ extra\<rparr>])"
proof (cases ts rule: rev_cases)
  case Nil
  then show ?thesis by (simp add: extends_def)
next
  case (snoc ts' t)
  then show ?thesis
    by (auto simp add: extends_def nth_append)
qed

lemma extends_pushModelMessage: "extends ts (pushModelMessage ps tcs hc ts)"
  by (simp add: pushModelMessage_cases extends_append extends_last)

lemma extends_appendResponses: "extends ts (appendResponses frs ts)"
  by (simp add: appendResponses_def extends_append extends_last extends_refl)

lemma extends_convertMessage: "extends ts (convertMessage env e m s h ts message)"
  by (simp add: convertMessage_def handleClaudeAssistantMessage_def extends_pushModelMessage
      handleClaudeToolResult_cases extends_appendResponses pushUserMessage_def extends_append
      extends_refl Let_def split: claude_content.splits)

lemma extends_foldl: "extends ts (foldl (convertMessage env e m s h) ts msgs)"
proof (induction msgs arbitrary: ts)
  case Nil
  show ?case by (simp add: extends_refl)
next
  case (Cons message msgs)
  show ?case
    using extends_convertMessage [of ts env e m s h message]
      Cons [of "convertMessage env e m s h ts message"]
    by (auto intro: extends_trans)
qed

lemma callThenResponse_extends:
  assumes "callThenResponse i n out ts" "extends ts ts'"
  shows "callThenResponse i n out ts'"
proof -
  from assms(1) obtain k a sg where k: "Suc k < length ts" "role (ts ! k) = Model"
    "FunctionCallPart i n a sg \<in> set (parts (ts ! k))" "role (ts ! Suc k) = User"
    "FunctionResponsePart i n out \<in> set (parts (ts ! Suc k))"
    by (auto simp add: callThenResponse_def)
  from k(1) have k0: "k < length ts" by simp
  from assms(2) k(1) k0 obtain e1 e2 where
    "role (ts' ! k) = role (ts ! k)" "parts (ts' ! k) = parts (ts ! k) @ e1"
    "role (ts' ! Suc k) = role (ts ! Suc k)" "parts (ts' ! Suc k) = parts (ts ! Suc k) @ e2"
    "length ts \<le> length ts'"
    unfolding extends_def by blast
  with k show ?thesis
    unfolding callThenResponse_def
    by (intro exI [of _ k]) auto
qed

lemma allParts_append: "allParts (ts @ ts') = allParts ts \<union> allParts ts'"
  by (auto simp add: allParts_def)

lemma allParts_single: "allParts [t] = set (parts t)"
  by (simp add: allParts_def)

lemma allParts_last:
  "ts \<noteq> [] \<Longrightarrow>
     allParts (butlast ts @ [(last ts)\<lparr>parts := parts (last ts) @ extra\<rparr>]) = allParts ts \<union> set extra"
proof (cases ts rule: rev_cases)
  case Nil
  assume "ts \<noteq> []"
  with Nil show ?thesis by simp
next
  case (snoc ts' t)
  then show ?thesis by (auto simp add: allParts_def)
qed

lemma allParts_pushModelMessage:
  "allParts (pushModelMessage ps tcs hc ts) \<subseteq> allParts ts \<union> set ps \<union> set tcs"
proof (cases "ts \<noteq> [] \<and> role (last ts) = Model \<and> tcs \<noteq> [] \<and> \<not> hc")
  case True
  then show ?thesis by (auto simp add: pushModelMessage_cases allParts_last)
next
  case False
  then show ?thesis by (auto simp add: pushModelMessage_cases allParts_append allParts_single)
qed

lemma allParts_appendResponses:
  "allParts (appendResponses frs ts) \<subseteq> allParts ts \<union> set frs"
proof (cases "ts \<noteq> [] \<and> role (last ts) = User \<and> list_ex isFunctionResponse (parts (last ts))")
  case True
  then show ?thesis by (simp add: appendResponses_def allParts_last)
next
  case False
  then show ?thesis by (auto simp add: appendResponses_def allParts_append allParts_single)
qed

lemma callId_responsesOf: "p \<in> set (responsesOf ts items) \<Longrightarrow> callId p = None"
  by (induction ts items rule: responsesOf.induct) auto

lemma callId_callsOf:
  "p \<in> set (callsOf env pick items) \<Longrightarrow> \<exists>i. callId p = Some i \<and> Some i \<in> toolUseId ` set items"
  by (induction env pick items rule: callsOf.induct) auto

lemma callId_assistantParts: "p \<in> set (assistantParts e ctx a) \<Longrightarrow> callId p = None"
  by (auto simp add: assistantParts_def Let_def createThoughtPart_def
      split: if_splits list.splits)

lemma ex_images_foldl:
  "p \<in> set (ex_images (foldl (\<lambda>result item. extractItem item result) r items)) \<Longrightarrow>
     p \<in> set (ex_images r) \<or> callId p = None"
proof (induction items arbitrary: r)
  case Nil
  then show ?case by simp
next
  case (Cons item items)
  from Cons.prems have "p \<in> set (ex_images (foldl (\<lambda>result item. extractItem item result)
      (extractItem item r) items))"
    by simp
  from Cons.IH [OF this] show ?case
    by (cases item) (auto split: option.splits if_splits)
qed

lemma callId_extracted:
  "p \<in> set (ex_images (extractImagesFromClaudeContent content)) \<Longrightarrow> callId p = None"
  using ex_images_foldl [of p "\<lparr>ex_text = [], ex_images = []\<rparr>"]
  by (auto simp add: extractImagesFromClaudeContent_def split: claude_content.splits)

lemma allParts_pushUserMessage:
  "allParts (pushUserMessage ex ts) =
     allParts ts \<union> {TextPart (if ex_text ex \<noteq> [] then ex_text ex else js '' '')} \<union> set (ex_images ex)"
  by (auto simp add: pushUserMessage_def allParts_append allParts_single)

lemma noCall_convertMessage:
  assumes inv: "\<forall>p \<in> allParts ts. callId p \<noteq> Some tid"
      and fresh: "tid \<notin> toolUseIds message"
  shows "\<forall>p \<in> allParts (convertMessage env e m s h ts message). callId p \<noteq> Some tid"
proof
  fix p assume p: "p \<in> allParts (convertMessage env e m s h ts message)"
  let ?ctx = "getSignatureContext env s m h"
  let ?a = "scanContent env e ?ctx (m_content message)"
  consider (old) "p \<in> allParts ts"
    | (user) "p = TextPart (if ex_text (extractImagesFromClaudeContent (m_content message)) \<noteq> []
          then ex_text (extractImagesFromClaudeContent (m_content message)) else js '' '')"
    | (image) "p \<in> set (ex_images (extractImagesFromClaudeContent (m_content message)))"
    | (response) items where "m_content message = ContentArray items" "p \<in> set (responsesOf ts items)"
    | (part) "p \<in> set (assistantParts e ?ctx ?a)"
    | (call) "p \<in> set (toolCallParts ?a)"
    using p allParts_pushModelMessage [of "assistantParts e ?ctx ?a" "toolCallParts ?a" "hasContent ?a" ts]
      allParts_appendResponses [of _ ts]
    by (auto simp add: convertMessage_def handleClaudeAssistantMessage_def Let_def
        handleClaudeToolResult_cases allParts_pushUserMessage
        split: claude_content.splits if_splits)
  then show "callId p \<noteq> Some tid"
  proof cases
    case old
    with inv show ?thesis by blast
  next
    case user
    then show ?thesis by simp
  next
    case image
    then show ?thesis by (simp add: callId_extracted)
  next
    case response
    then show ?thesis by (simp add: callId_responsesOf)
  next
    case part
    then show ?thesis by (simp add: callId_assistantParts)
  next
    case call
    then obtain items where items: "m_content message = ContentArray items"
      "p \<in> set (callsOf env (callSignature e ?ctx) items)"
      by (cases "m_content message") (auto simp add: toolCallParts_scanContent)
    from callId_callsOf [OF items(2)] obtain i where "callId p = Some i" "Some i \<in> toolUseId ` set items"
      by blast
    with fresh items(1) show ?thesis by (auto simp add: toolUseIds_def)
  qed
qed

lemma noCall_foldl:
  assumes "\<forall>p \<in> allParts ts. callId p \<noteq> Some tid"
      and "\<forall>message \<in> set msgs. tid \<notin> toolUseIds message"
  shows "\<forall>p \<in> allParts (foldl (convertMessage env e m s h) ts msgs). callId p \<noteq> Some tid"
  using assms
proof (induction msgs arbitrary: ts)
  case Nil
  then show ?case by simp
next
  case (Cons message msgs)
  from Cons.prems have "\<forall>p \<in> allParts (convertMessage env e m s h ts message). callId p \<noteq> Some tid"
    by (intro noCall_convertMessage) auto
  with Cons.prems show ?case
    by (simp add: Cons.IH)
qed

lemma callsOf_filter: "callsOf env pick (filter isToolUse items) = callsOf env pick items"
  by (induction env pick items rule: callsOf.induct) auto

lemma responsesOf_filter: "responsesOf ts (filter isToolResult items) = responsesOf ts items"
  by (induction ts items rule: responsesOf.induct) auto

lemma findInParts_append:
  "(\<forall>p \<in> set ps. callId p \<noteq> Some i) \<Longrightarrow> findInParts i (ps @ qs) = findInParts i qs"
  by (induction i ps rule: findInParts.induct) auto

lemma call_then_result:
  assumes fresh: "\<forall>message \<in> set before. tid \<notin> toolUseIds message"
      and a_role: "m_role assistant = js ''assistant''"
      and a_content: "m_content assistant = ContentArray aitems"
      and a_call: "filter isToolUse aitems = [ToolUseItem tid name input sg]"
      and r_role: "m_role result = js ''user''"
      and r_content: "m_content result = ContentArray ritems"
      and r_result: "filter isToolResult ritems = [ToolResultItem tid c]"
  shows "callThenResponse tid (sanitizeToolName env name) (resultText c)
           (claudeMessageToAntigravity env (before @ [assistant, result] @ after) e m s h)"
proof -
  let ?step = "convertMessage env e m s h"
  let ?ctx = "getSignatureContext env s m h"
  let ?a = "scanContent env e ?ctx (m_content assistant)"
  let ?n = "sanitizeToolName env name"
  define T0 where "T0 = foldl ?step [] before"
  define T1 where "T1 = ?step T0 assistant"
  define T2 where "T2 = ?step T1 result"
  have inv0: "\<forall>p \<in> allParts T0. callId p \<noteq> Some tid"
    unfolding T0_def using fresh by (intro noCall_foldl) (simp_all add: allParts_def)
  \<comment> \<open>the assistant message\<close>
  define args where
    "args = (case input of None \<Rightarrow> JObj [] | Some v \<Rightarrow> if truthy v then v else JObj [])"
  define sg' where "sg' = callSignature e ?ctx sg"
  have "callsOf env (callSignature e ?ctx) (filter isToolUse aitems)
      = [FunctionCallPart tid ?n args sg']"
    by (simp add: a_call args_def sg'_def)
  then have calls: "toolCallParts ?a = [FunctionCallPart tid ?n args sg']"
    by (simp add: toolCallParts_scanContent a_content callsOf_filter)
  have "ContentArray aitems \<noteq> ContentArray []" using a_call by auto
  have js_ne: "js ''assistant'' \<noteq> js ''user''" by simp
  have T1: "T1 = pushModelMessage (assistantParts e ?ctx ?a) (toolCallParts ?a) (hasContent ?a) T0"
    unfolding T1_def
    by (simp add: convertMessage_def a_role js_ne handleClaudeAssistantMessage_def Let_def)
  obtain front mt old where T1_shape: "T1 = front @ [mt]" "role mt = Model"
    "parts mt = old @ [FunctionCallPart tid ?n args sg']" "\<forall>p \<in> set old. callId p \<noteq> Some tid"
  proof (cases "T0 \<noteq> [] \<and> role (last T0) = Model \<and> \<not> hasContent ?a")
    case True
    then have "T1 = butlast T0 @ [(last T0)\<lparr>parts := parts (last T0) @ [FunctionCallPart tid ?n args sg']\<rparr>]"
      by (simp add: T1 pushModelMessage_cases calls)
    moreover have "\<forall>p \<in> set (parts (last T0)). callId p \<noteq> Some tid"
      using inv0 True by (auto simp add: allParts_def)
    ultimately show ?thesis using True
      by (intro that [of "butlast T0" _ "parts (last T0)"]) auto
  next
    case False
    then have "T1 = T0 @ [\<lparr>role = Model,
        parts = assistantParts e ?ctx ?a @ [FunctionCallPart tid ?n args sg']\<rparr>]"
      by (auto simp add: T1 pushModelMessage_cases calls)
    moreover have "\<forall>p \<in> set (assistantParts e ?ctx ?a). callId p \<noteq> Some tid"
      by (simp add: callId_assistantParts)
    ultimately show ?thesis
      by (intro that [of T0 _ "assistantParts e ?ctx ?a"]) auto
  qed
  \<comment> \<open>the tool result\<close>
  have name: "findFunctionNameById tid T1 = ?n"
    using T1_shape
    by (simp add: findFunctionNameById_snoc_model findInParts_append)
  have rs: "responsesOf T1 ritems = [FunctionResponsePart tid ?n (resultText c)]"
    using responsesOf_filter [of T1 ritems] by (simp add: r_result name)
  have some: "list_ex isToolResult ritems"
  proof -
    have "ToolResultItem tid c \<in> set (filter isToolResult ritems)" by (simp add: r_result)
    then have "ToolResultItem tid c \<in> set ritems" "isToolResult (ToolResultItem tid c)" by simp_all
    then show ?thesis unfolding list_ex_iff by blast
  qed
  have T2: "T2 = front @ [mt, \<lparr>role = User, parts = [FunctionResponsePart tid ?n (resultText c)]\<rparr>]"
  proof -
    have rs': "responsesOf (front @ [mt]) ritems = [FunctionResponsePart tid ?n (resultText c)]"
      using rs T1_shape(1) by simp
    show ?thesis
      unfolding T2_def T1_shape(1)
      using T1_shape(2)
      by (simp add: convertMessage_def r_role r_content some handleClaudeToolResult_cases rs'
          appendResponses_def)
  qed
  have here: "callThenResponse tid ?n (resultText c) T2"
    unfolding callThenResponse_def
    using T1_shape(2,3)
    by (intro exI [of _ "length front"]) (auto simp add: T2 nth_append)
  have "claudeMessageToAntigravity env (before @ [assistant, result] @ after) e m s h
      = foldl ?step T2 after"
    by (simp add: claudeMessageToAntigravity_def T0_def T1_def T2_def)
  with callThenResponse_extends [OF here extends_foldl [of T2 env e m s h after]]
  show ?thesis by simp
qed

text \<open>
  Claim C4. \<open>pushFunctionResponse\<close> appends the \<open>functionResponse\<close> part to the last turn
  when that is a user turn which holds a \<open>functionResponse\<close> part, and otherwise appends a
  new user turn that holds only this part. For a message, its responses (one for each
  \<open>tool_result\<close> item, in order) go onto such a last turn, or into one new user turn.
  For a conversation in which an assistant message makes exactly one tool call, with an id
  that no earlier message used, and the next message is a user message with exactly one tool
  result, for that id: the converted turns have a model turn with the \<open>functionCall\<close> part,
  directly followed by a user turn with the \<open>functionResponse\<close> part of the same id and
  name, whatever comes before and after.
\<close>

theorem tool_results_follow_their_call:
  "pushFunctionResponse i n out ts =
     (if ts \<noteq> [] \<and> role (last ts) = User \<and> list_ex isFunctionResponse (parts (last ts))
      then butlast ts @ [(last ts)\<lparr>parts := parts (last ts) @ [FunctionResponsePart i n out]\<rparr>]
      else ts @ [\<lparr>role = User, parts = [FunctionResponsePart i n out]\<rparr>])
   \<and> (m_content message = ContentArray items \<longrightarrow>
        handleClaudeToolResult message ts =
          (if responsesOf ts items = [] then ts
           else if ts \<noteq> [] \<and> role (last ts) = User \<and> list_ex isFunctionResponse (parts (last ts))
             then butlast ts @ [(last ts)\<lparr>parts := parts (last ts) @ responsesOf ts items\<rparr>]
           else ts @ [\<lparr>role = User, parts = responsesOf ts items\<rparr>]))
   \<and> ((\<forall>earlier \<in> set before. tid \<notin> toolUseIds earlier)
        \<and> m_role assistant = js ''assistant'' \<and> m_content assistant = ContentArray aitems
        \<and> filter isToolUse aitems = [ToolUseItem tid name input sg]
        \<and> m_role result = js ''user'' \<and> m_content result = ContentArray ritems
        \<and> filter isToolResult ritems = [ToolResultItem tid c]
      \<longrightarrow> callThenResponse tid (sanitizeToolName env name) (resultText c)
            (claudeMessageToAntigravity env (before @ [assistant, result] @ after)
               enableThinking actualModelName session hasTools))"
  using call_then_result [of before tid assistant aitems name input sg result ritems c env after
      enableThinking actualModelName session hasTools]
  by (simp add: pushFunctionResponse_cases handleClaudeToolResult_cases appendResponses_def)

subsection \<open>Thought parts\<close>

lemma thoughtSignature_truthy_iff:
  "sig_truthy (thoughtSignature ctx a) \<longleftrightarrow>
     sig_truthy (messageSignature a) \<or> sig_truthy (reasoningSignature ctx) \<or> sig_truthy (toolSignature ctx)"
  by (auto simp add: thoughtSignature_def sig_or_def)

lemma thoughtSignature_source:
  "thoughtSignature ctx a \<in> {messageSignature a, reasoningSignature ctx, toolSignature ctx}"
  by (simp add: thoughtSignature_def sig_or_def)

lemma assistantParts_thinking:
  "assistantParts True ctx a =
     (if sig_truthy (thoughtSignature ctx a)
      then [ThoughtPart
              (if thinkingContent a \<noteq> [] then thinkingContent a
               else if thoughtSignature ctx a = reasoningSignature ctx
                 then (if reasoningContent ctx \<noteq> [] then reasoningContent ctx else js '' '')
               else if thoughtSignature ctx a = toolSignature ctx
                 then (if toolContent ctx \<noteq> [] then toolContent ctx else js '' '')
               else js '' '')
              (thoughtSignature ctx a)]
      else [])
     @ (if hasContent a then [TextPart (trimEnd (textContent a))] else [])"
  by (simp add: assistantParts_def Let_def createThoughtPart_def)

lemma assistantParts_thought_iff:
  "list_ex isThought (assistantParts True ctx a) \<longleftrightarrow> sig_truthy (thoughtSignature ctx a)"
  by (simp add: assistantParts_thinking)

lemma assistantParts_thought_signed:
  assumes "p \<in> set (assistantParts True ctx a)" "isThought p"
  shows "\<exists>t sg. p = ThoughtPart t (Some sg) \<and> sg \<noteq> [] \<and> t \<noteq> [] \<and> thoughtSignature ctx a = Some sg"
proof -
  define rtext where "rtext =
     (if thinkingContent a \<noteq> [] then thinkingContent a
      else if thoughtSignature ctx a = reasoningSignature ctx
        then (if reasoningContent ctx \<noteq> [] then reasoningContent ctx else js '' '')
      else if thoughtSignature ctx a = toolSignature ctx
        then (if toolContent ctx \<noteq> [] then toolContent ctx else js '' '')
      else js '' '')"
  have rtext: "rtext \<noteq> []"
    unfolding rtext_def by simp
  have shape: "assistantParts True ctx a =
      (if sig_truthy (thoughtSignature ctx a) then [ThoughtPart rtext (thoughtSignature ctx a)] else [])
      @ (if hasContent a then [TextPart (trimEnd (textContent a))] else [])"
    unfolding rtext_def by (rule assistantParts_thinking)
  show ?thesis
  proof (cases "sig_truthy (thoughtSignature ctx a)")
    case False
    with assms shape show ?thesis by (cases "hasContent a") auto
  next
    case True
    then obtain sg where sg: "thoughtSignature ctx a = Some sg" "sg \<noteq> []"
      by (cases "thoughtSignature ctx a") (auto simp add: sig_truthy_def)
    from assms shape True have "p = ThoughtPart rtext (thoughtSignature ctx a)"
      by (cases "hasContent a") auto
    with sg rtext show ?thesis by simp
  qed
qed

lemma signedThought_assistantParts:
  "p \<in> set (assistantParts True ctx a) \<Longrightarrow> isThought p \<Longrightarrow> signedThought p"
  using assistantParts_thought_signed [of p ctx a] by auto

lemma isThought_responsesOf: "p \<in> set (responsesOf ts items) \<Longrightarrow> \<not> isThought p"
  by (induction ts items rule: responsesOf.induct) auto

lemma isThought_callsOf: "p \<in> set (callsOf env pick items) \<Longrightarrow> \<not> isThought p"
  by (induction env pick items rule: callsOf.induct) auto

lemma isThought_images_foldl:
  "p \<in> set (ex_images (foldl (\<lambda>result item. extractItem item result) r items)) \<Longrightarrow>
     p \<in> set (ex_images r) \<or> \<not> isThought p"
proof (induction items arbitrary: r)
  case Nil
  then show ?case by simp
next
  case (Cons item items)
  from Cons.prems have "p \<in> set (ex_images (foldl (\<lambda>result item. extractItem item result)
      (extractItem item r) items))"
    by simp
  from Cons.IH [OF this] show ?case
    by (cases item) (auto split: option.splits if_splits)
qed

lemma isThought_extracted:
  "p \<in> set (ex_images (extractImagesFromClaudeContent content)) \<Longrightarrow> \<not> isThought p"
  using isThought_images_foldl [of p "\<lparr>ex_text = [], ex_images = []\<rparr>"]
  by (auto simp add: extractImagesFromClaudeContent_def split: claude_content.splits)

lemma signed_convertMessage:
  assumes inv: "\<forall>p \<in> allParts ts. isThought p \<longrightarrow> signedThought p"
  shows "\<forall>p \<in> allParts (convertMessage env True m s h ts message). isThought p \<longrightarrow> signedThought p"
proof (intro ballI impI)
  fix p assume p: "p \<in> allParts (convertMessage env True m s h ts message)" and th: "isThought p"
  let ?ctx = "getSignatureContext env s m h"
  let ?a = "scanContent env True ?ctx (m_content message)"
  consider (old) "p \<in> allParts ts"
    | (user) "p = TextPart (if ex_text (extractImagesFromClaudeContent (m_content message)) \<noteq> []
          then ex_text (extractImagesFromClaudeContent (m_content message)) else js '' '')"
    | (image) "p \<in> set (ex_images (extractImagesFromClaudeContent (m_content message)))"
    | (response) items where "m_content message = ContentArray items" "p \<in> set (responsesOf ts items)"
    | (part) "p \<in> set (assistantParts True ?ctx ?a)"
    | (call) "p \<in> set (toolCallParts ?a)"
    using p allParts_pushModelMessage [of "assistantParts True ?ctx ?a" "toolCallParts ?a" "hasContent ?a" ts]
      allParts_appendResponses [of _ ts]
    by (auto simp add: convertMessage_def handleClaudeAssistantMessage_def Let_def
        handleClaudeToolResult_cases allParts_pushUserMessage
        split: claude_content.splits if_splits)
  then show "signedThought p"
  proof cases
    case old
    with inv th show ?thesis by blast
  next
    case user
    with th show ?thesis by simp
  next
    case image
    with th show ?thesis by (simp add: isThought_extracted)
  next
    case response
    with th show ?thesis by (simp add: isThought_responsesOf)
  next
    case part
    with th show ?thesis by (simp add: signedThought_assistantParts)
  next
    case call
    then have "\<not> isThought p"
      by (cases "m_content message") (auto simp add: toolCallParts_scanContent isThought_callsOf)
    with th show ?thesis by simp
  qed
qed

lemma signed_foldl:
  assumes "\<forall>p \<in> allParts ts. isThought p \<longrightarrow> signedThought p"
  shows "\<forall>p \<in> allParts (foldl (convertMessage env True m s h) ts msgs). isThought p \<longrightarrow> signedThought p"
  using assms
proof (induction msgs arbitrary: ts)
  case Nil
  then show ?case by simp
next
  case (Cons message msgs)
  from signed_convertMessage [OF Cons.prems, of env m s h message] show ?case
    by (simp add: Cons.IH)
qed

lemma signed_conversion:
  "t \<in> set (claudeMessageToAntigravity env msgs True m s h) \<Longrightarrow> p \<in> set (parts t) \<Longrightarrow>
     isThought p \<Longrightarrow> signedThought p"
  using signed_foldl [of "[]" env m s h msgs]
  by (auto simp add: claudeMessageToAntigravity_def allParts_def)

lemma messageSignature_foldl:
  "sig_truthy (messageSignature (foldl (\<lambda>a item. scanItem env e ctx item a) a items)) \<Longrightarrow>
     messageSignature (foldl (\<lambda>a item. scanItem env e ctx item a) a items) = messageSignature a
     \<or> (\<exists>th. ThinkingItem th (messageSignature (foldl (\<lambda>a item. scanItem env e ctx item a) a items))
           \<in> set items)"
proof (induction items arbitrary: a)
  case Nil
  then show ?case by simp
next
  case (Cons item items)
  from Cons.prems have tr: "sig_truthy (messageSignature
      (foldl (\<lambda>a item. scanItem env e ctx item a) (scanItem env e ctx item a) items))"
    by simp
  from Cons.IH [OF tr] show ?case
    by (cases item) (auto simp add: Let_def split: if_splits)
qed

lemma messageSignature_source:
  assumes "sig_truthy (messageSignature (scanContent env e ctx content))"
  shows "\<exists>items th. content = ContentArray items
     \<and> ThinkingItem th (messageSignature (scanContent env e ctx content)) \<in> set items"
proof (cases content)
  case (ContentString str)
  with assms show ?thesis by (simp add: scanContent_def sig_truthy_def)
next
  case (ContentArray items)
  with assms messageSignature_foldl [of env e ctx
      "\<lparr>textContent = [], thinkingContent = [], toolCallParts = [], messageSignature = None\<rparr>" items]
  show ?thesis by (auto simp add: scanContent_def sig_truthy_def)
next
  case ContentOther
  with assms show ?thesis by (simp add: scanContent_def sig_truthy_def)
qed

lemma getSignatureContext_source:
  "(\<exists>entry. getSignature env s m h = Some entry
       \<and> reasoningSignature (getSignatureContext env s m h) = ce_signature entry
       \<and> toolSignature (getSignatureContext env s m h) = ce_signature entry)
   \<or> (useFallbackSignature env
       \<and> reasoningSignature (getSignatureContext env s m h) = getThoughtSignatureForModel env m
       \<and> toolSignature (getSignatureContext env s m h)
            = (if h then getToolSignatureForModel env m else None))
   \<or> (reasoningSignature (getSignatureContext env s m h) = None
       \<and> toolSignature (getSignatureContext env s m h) = None)"
  by (auto simp add: getSignatureContext_def Let_def split: option.splits if_splits)

text \<open>
  Claim C1. For an assistant message converted with thinking enabled, the parts built for
  it hold a thought part exactly when the signature resolved for the message is a non-empty
  string, and that is so exactly when the message, the reasoning entry or the tool entry of
  the signature context supplies one. Every thought part among them carries this signature
  and a non-empty text. The signature of the message is the signature of one of its thinking
  items; the entries of the context come from the signature cache, or from the configured
  fallback, or are absent. In the turns of a whole conversation every thought part carries a
  non-empty signature and a non-empty text.
\<close>

theorem thought_parts_carry_signature:
  "let ctx = getSignatureContext env session actualModelName hasTools;
       a = scanContent env True ctx (m_content message);
       ps = assistantParts True ctx a
   in (list_ex isThought ps \<longleftrightarrow> sig_truthy (thoughtSignature ctx a))
    \<and> (sig_truthy (thoughtSignature ctx a) \<longleftrightarrow>
          sig_truthy (messageSignature a) \<or> sig_truthy (reasoningSignature ctx)
          \<or> sig_truthy (toolSignature ctx))
    \<and> (\<forall>p \<in> set ps. isThought p \<longrightarrow>
          (\<exists>t sg. p = ThoughtPart t (Some sg) \<and> sg \<noteq> [] \<and> t \<noteq> []
             \<and> thoughtSignature ctx a = Some sg
             \<and> Some sg \<in> {messageSignature a, reasoningSignature ctx, toolSignature ctx}))
    \<and> (sig_truthy (messageSignature a) \<longrightarrow>
          (\<exists>items th. m_content message = ContentArray items
             \<and> ThinkingItem th (messageSignature a) \<in> set items))
    \<and> ((\<exists>entry. getSignature env session actualModelName hasTools = Some entry
            \<and> reasoningSignature ctx = ce_signature entry \<and> toolSignature ctx = ce_signature entry)
        \<or> (useFallbackSignature env
            \<and> reasoningSignature ctx = getThoughtSignatureForModel env actualModelName
            \<and> toolSignature ctx
                 = (if hasTools then getToolSignatureForModel env actualModelName else None))
        \<or> (reasoningSignature ctx = None \<and> toolSignature ctx = None))
    \<and> (\<forall>t \<in> set (claudeMessageToAntigravity env msgs True actualModelName session hasTools).
          \<forall>p \<in> set (parts t). isThought p \<longrightarrow> signedThought p)"
proof -
  let ?ctx = "getSignatureContext env session actualModelName hasTools"
  let ?a = "scanContent env True ?ctx (m_content message)"
  have signed: "\<forall>p \<in> set (assistantParts True ?ctx ?a). isThought p \<longrightarrow>
          (\<exists>t sg. p = ThoughtPart t (Some sg) \<and> sg \<noteq> [] \<and> t \<noteq> []
             \<and> thoughtSignature ?ctx ?a = Some sg
             \<and> Some sg \<in> {messageSignature ?a, reasoningSignature ?ctx, toolSignature ?ctx})"
  proof (intro ballI impI)
    fix p assume "p \<in> set (assistantParts True ?ctx ?a)" "isThought p"
    from assistantParts_thought_signed [OF this] obtain t sg where
      p: "p = ThoughtPart t (Some sg)" "sg \<noteq> []" "t \<noteq> []" "thoughtSignature ?ctx ?a = Some sg"
      by blast
    with thoughtSignature_source [of ?ctx ?a]
    have "Some sg \<in> {messageSignature ?a, reasoningSignature ?ctx, toolSignature ?ctx}"
      by simp
    with p show "\<exists>t sg. p = ThoughtPart t (Some sg) \<and> sg \<noteq> [] \<and> t \<noteq> []
             \<and> thoughtSignature ?ctx ?a = Some sg
             \<and> Some sg \<in> {messageSignature ?a, reasoningSignature ?ctx, toolSignature ?ctx}"
      by blast
  qed
  have msg: "sig_truthy (messageSignature ?a) \<longrightarrow>
          (\<exists>items th. m_content message = ContentArray items
             \<and> ThinkingItem th (messageSignature ?a) \<in> set items)"
    using messageSignature_source [of env True ?ctx "m_content message"] by blast
  have whole: "\<forall>t \<in> set (claudeMessageToAntigravity env msgs True actualModelName session hasTools).
          \<forall>p \<in> set (parts t). isThought p \<longrightarrow> signedThought p"
    using signed_conversion [of _ env msgs actualModelName session hasTools] by blast
  show ?thesis
    unfolding Let_def
    using assistantParts_thought_iff [of ?ctx ?a] thoughtSignature_truthy_iff [of ?ctx ?a]
      signed msg whole getSignatureContext_source [of env session actualModelName hasTools]
    by (intro conjI) assumption+
qed

subsection \<open>The sample conversation\<close>

lemma sample_ctx:
  "getSignatureContext sample_env s m h =
     \<lparr>reasoningSignature = None, reasoningContent = js '' '', toolSignature = None,
      toolContent = js '' ''\<rparr>"
  by (simp add: getSignatureContext_def sample_env_def)

lemma sample_sanitize: "sanitizeToolName sample_env n = n"
  by (simp add: sample_env_def)

lemma sample_scan:
  "scanContent sample_env True (getSignatureContext sample_env s m h) (m_content sample_assistant) =
     \<lparr>textContent = [], thinkingContent = js ''because...'',
      toolCallParts = [sample_call_part], messageSignature = Some (js ''sig1'')\<rparr>"
  by (simp add: sample_ctx scanContent_def sample_assistant_def str_or_def sig_truthy_def
      processToolName_def createFunctionCallPart_def sig_or_def sample_call_part_def
      sample_sanitize)

lemma sample_parts:
  "assistantParts True (getSignatureContext sample_env s m h)
     (scanContent sample_env True (getSignatureContext sample_env s m h) (m_content sample_assistant))
   = [sample_thought_part]"
  by (simp add: sample_scan assistantParts_thinking thoughtSignature_def sig_or_def sig_truthy_def
      hasContent_def sample_thought_part_def)

lemma sample_assistant_turns:
  "convertMessage sample_env True m s h ts sample_assistant
     = pushModelMessage [sample_thought_part] [sample_call_part] False ts"
  using sample_parts [of s m h] sample_scan [of s m h]
  by (simp add: convertMessage_def handleClaudeAssistantMessage_def Let_def hasContent_def)
     (simp add: sample_assistant_def)

lemma sample_unsigned_signature:
  "thoughtSignature (getSignatureContext sample_env s m h)
     (scanContent sample_env True (getSignatureContext sample_env s m h) (m_content sample_unsigned))
   = None"
  by (simp add: sample_ctx scanContent_def sample_unsigned_def thoughtSignature_def sig_or_def
      sig_truthy_def str_or_def)

lemma sample_conversation:
  "claudeMessageToAntigravity sample_env [sample_assistant] True m s h
     = [\<lparr>role = Model, parts = [sample_thought_part, sample_call_part]\<rparr>]"
  by (simp add: claudeMessageToAntigravity_def sample_assistant_turns pushModelMessage_cases)

text \<open>
  The assistant message of the spec's scenario gets a thought part with its own signature;
  a message whose thinking block has no signature, with no cache entry and no fallback, gets
  no thought part.
\<close>

theorem thought_parts_carry_signature_witness:
  "signedThought sample_thought_part
   \<and> claudeMessageToAntigravity sample_env [sample_assistant] True (js ''m'') (js ''s'') False
       = [\<lparr>role = Model, parts = [sample_thought_part, sample_call_part]\<rparr>]
   \<and> \<not> list_ex isThought
        (assistantParts True (getSignatureContext sample_env (js ''s'') (js ''m'') False)
           (scanContent sample_env True (getSignatureContext sample_env (js ''s'') (js ''m'') False)
              (m_content sample_unsigned)))"
proof -
  note inst = thought_parts_carry_signature [of sample_env "js ''s''" "js ''m''" False
      sample_assistant "[sample_assistant]", unfolded Let_def]
  note inst2 = thought_parts_carry_signature [of sample_env "js ''s''" "js ''m''" False
      sample_unsigned "[]", unfolded Let_def]
  from inst have "\<forall>t \<in> set (claudeMessageToAntigravity sample_env [sample_assistant] True
        (js ''m'') (js ''s'') False). \<forall>p \<in> set (parts t). isThought p \<longrightarrow> signedThought p"
    by blast
  then have a: "signedThought sample_thought_part"
    by (simp add: sample_conversation) (simp add: sample_thought_part_def)
  from inst2 have "list_ex isThought
        (assistantParts True (getSignatureContext sample_env (js ''s'') (js ''m'') False)
           (scanContent sample_env True (getSignatureContext sample_env (js ''s'') (js ''m'') False)
              (m_content sample_unsigned)))
      \<longleftrightarrow> sig_truthy (thoughtSignature (getSignatureContext sample_env (js ''s'') (js ''m'') False)
           (scanContent sample_env True (getSignatureContext sample_env (js ''s'') (js ''m'') False)
              (m_content sample_unsigned)))"
    by blast
  then have b: "\<not> list_ex isThought
        (assistantParts True (getSignatureContext sample_env (js ''s'') (js ''m'') False)
           (scanContent sample_env True (getSignatureContext sample_env (js ''s'') (js ''m'') False)
              (m_content sample_unsigned)))"
    by (simp add: sample_unsigned_signature sig_truthy_def)
  from a b sample_conversation show ?thesis by simp
qed

text \<open>A request whose tools are \<open>[{name: "web_search"}]\<close>, with no system prompt of the
  caller.\<close>

theorem web_search_request_witness:
  "generateClaudeRequestBody sample_env [] (js ''claude'') ()
       (Some (JArr [JObj [(js ''name'', JStr (js ''web_search''))]])) None sample_token
     = Inr \<lparr>project = js ''p'', requestId = js ''request-1'', contents = [],
            generationConfig = Some \<lparr>candidateCount = Some 1\<rparr>,
            request_sessionId = js ''s'',
            request_tools = Some [GoogleSearch 5], toolConfig = None,
            systemInstruction = Some \<lparr>si_role = js ''user'', si_parts = [textPart (js ''Be brief.'')]\<rparr>,
            model = js ''gemini-2.5-flash'', userAgent = js ''antigravity'',
            requestType = js ''web_search''\<rparr>
   \<and> request_tools \<lparr>project = js ''p'', requestId = js ''request-1'', contents = [],
            generationConfig = Some \<lparr>candidateCount = Some 1\<rparr>,
            request_sessionId = js ''s'',
            request_tools = Some [GoogleSearch 5 :: json backend_tool], toolConfig = None,
            systemInstruction = Some \<lparr>si_role = js ''user'', si_parts = [textPart (js ''Be brief.'')]\<rparr>,
            model = js ''gemini-2.5-flash'', userAgent = js ''antigravity'',
            requestType = js ''web_search''\<rparr> = Some [GoogleSearch 5]"
proof -
  let ?req = "\<lparr>project = js ''p'', requestId = js ''request-1'', contents = [],
            generationConfig = Some \<lparr>candidateCount = Some 1\<rparr>,
            request_sessionId = js ''s'',
            request_tools = Some [GoogleSearch 5 :: json backend_tool], toolConfig = None,
            systemInstruction = Some \<lparr>si_role = js ''user'', si_parts = [textPart (js ''Be brief.'')]\<rparr>,
            model = js ''gemini-2.5-flash'', userAgent = js ''antigravity'',
            requestType = js ''web_search''\<rparr>"
  have m: "map_of [(js ''name'', JStr (js ''web_search''))] (js ''name'') = Some (JStr (js ''web_search''))"
    by simp
  have tr: "trim (js ''Be brief.'') = js ''Be brief.''"
    by (simp add: trim_def trimEnd_def js_def js_whitespace_def)
  have tr0: "trim [] = []"
    by (simp add: trim_def trimEnd_def)
  have sys: "buildSystemInstruction sample_env None
      = Inr (Some \<lparr>si_role = js ''user'', si_parts = [textPart (js ''Be brief.'')]\<rparr>)"
    by (simp add: buildSystemInstruction_def buildSystemPromptParts_def userPromptParts_def
        sample_env_def tr tr0 Let_def)
  have ws: "hasWebSearchTool (Some (JArr [JObj [(js ''name'', JStr (js ''web_search''))]]))"
    by (simp add: hasWebSearchTool_def opt_prop_def)
  have built: "generateClaudeRequestBody sample_env [] (js ''claude'') ()
       (Some (JArr [JObj [(js ''name'', JStr (js ''web_search''))]])) None sample_token = Inr ?req"
    using ws
    by (simp add: generateClaudeRequestBody_def buildRequestBody_def sys Let_def
        claudeMessageToAntigravity_def)
       (simp add: sample_env_def sample_token_def)
  from web_search_request [OF refl _ m, of "[JObj [(js ''name'', JStr (js ''web_search''))]]"
      sample_env "[]" "js ''claude''" "()" None sample_token ?req] built
  have "request_tools ?req = Some [GoogleSearch 5]"
    by simp
  with built show ?thesis by simp
qed

text \<open>The scenario's assistant message opens a model turn after a user turn, and its tool
  call is merged into a model turn that is already the last turn.\<close>

theorem tool_calls_merge_into_model_turn_witness:
  "handleClaudeAssistantMessage sample_env sample_assistant
       [\<lparr>role = User, parts = [TextPart (js ''hi'')]\<rparr>] True (js ''m'') (js ''s'') False
     = [\<lparr>role = User, parts = [TextPart (js ''hi'')]\<rparr>,
        \<lparr>role = Model, parts = [sample_thought_part, sample_call_part]\<rparr>]
   \<and> handleClaudeAssistantMessage sample_env sample_assistant
       [\<lparr>role = Model, parts = [TextPart (js ''ok'')]\<rparr>] True (js ''m'') (js ''s'') False
     = [\<lparr>role = Model, parts = [TextPart (js ''ok''), sample_call_part]\<rparr>]"
proof -
  let ?ctx = "getSignatureContext sample_env (js ''s'') (js ''m'') False"
  let ?a = "scanContent sample_env True ?ctx (m_content sample_assistant)"
  have calls: "toolCallParts ?a = [sample_call_part]" and nocontent: "\<not> hasContent ?a"
    by (simp_all add: sample_scan hasContent_def)
  note inst1 = tool_calls_merge_into_model_turn [of sample_env "js ''s''" "js ''m''" False True
      sample_assistant "[\<lparr>role = User, parts = [TextPart (js ''hi'')]\<rparr>]" "[]", unfolded Let_def]
  note inst2 = tool_calls_merge_into_model_turn [of sample_env "js ''s''" "js ''m''" False True
      sample_assistant "[\<lparr>role = Model, parts = [TextPart (js ''ok'')]\<rparr>]" "[]", unfolded Let_def]
  from inst1 have a: "handleClaudeAssistantMessage sample_env sample_assistant
       [\<lparr>role = User, parts = [TextPart (js ''hi'')]\<rparr>] True (js ''m'') (js ''s'') False
     = [\<lparr>role = User, parts = [TextPart (js ''hi'')]\<rparr>,
        \<lparr>role = Model, parts = [sample_thought_part, sample_call_part]\<rparr>]"
    by (simp add: calls nocontent sample_parts)
  from inst2 have b: "handleClaudeAssistantMessage sample_env sample_assistant
       [\<lparr>role = Model, parts = [TextPart (js ''ok'')]\<rparr>] True (js ''m'') (js ''s'') False
     = [\<lparr>role = Model, parts = [TextPart (js ''ok''), sample_call_part]\<rparr>]"
    by (simp add: calls nocontent)
  from a b show ?thesis by simp
qed

text \<open>The scenario's assistant message and the result of its call, after a user message.\<close>

theorem tool_results_follow_their_call_witness:
  "callThenResponse (js ''t1'') (js ''get_weather'') (js ''sunny'')
     (claudeMessageToAntigravity sample_env
        [\<lparr>m_role = js ''user'', m_content = ContentString (js ''hi'')\<rparr>, sample_assistant,
         sample_result]
        True (js ''m'') (js ''s'') False)
   \<and> pushFunctionResponse (js ''t1'') (js ''get_weather'') (js ''sunny'') []
       = [\<lparr>role = User, parts = [FunctionResponsePart (js ''t1'') (js ''get_weather'') (js ''sunny'')]\<rparr>]"
proof -
  let ?hi = "\<lparr>m_role = js ''user'', m_content = ContentString (js ''hi'')\<rparr>"
  note inst = tool_results_follow_their_call [of "js ''t1''" "js ''get_weather''" "js ''sunny''" "[]"
      sample_result "[ToolResultItem (js ''t1'') (ResultString (js ''sunny''))]"
      "[?hi]" "js ''t1''" sample_assistant
      "[ThinkingItem (Some (js ''because...'')) (Some (js ''sig1'')),
        ToolUseItem (js ''t1'') (js ''get_weather'') (Some (JObj [])) None]"
      "js ''get_weather''" "Some (JObj [])" None sample_result
      "[ToolResultItem (js ''t1'') (ResultString (js ''sunny''))]" "ResultString (js ''sunny'')"
      sample_env "[]" True "js ''m''" "js ''s''" False]
  have pre: "(\<forall>earlier \<in> set [?hi]. js ''t1'' \<notin> toolUseIds earlier)"
    by (simp add: toolUseIds_def)
  from inst pre have a: "callThenResponse (js ''t1'') (js ''get_weather'') (js ''sunny'')
     (claudeMessageToAntigravity sample_env [?hi, sample_assistant, sample_result]
        True (js ''m'') (js ''s'') False)"
    by (simp add: sample_assistant_def sample_result_def sample_sanitize resultText_def)
  from inst have b: "pushFunctionResponse (js ''t1'') (js ''get_weather'') (js ''sunny'') []
       = [\<lparr>role = User, parts = [FunctionResponsePart (js ''t1'') (js ''get_weather'') (js ''sunny'')]\<rparr>]"
    by simp
  from a b show ?thesis by simp
qed

end
